(* ===== verification/Prelude.thy ===== *)
theory Prelude
  imports Main "HOL-Library.Multiset" "HOL-Library.Signed_Division" "HOL-Library.Sublist"
begin

text \<open>
  What every component shares: Go's \<open>int64\<close> as an \<open>int\<close> with the wrap-around written out,
  Go strings as byte lists with the few functions of \<open>strings\<close> and \<open>strconv\<close> the code
  calls, and the two collections of facts the component proofs use.
\<close>

named_theorems go_int \<open>facts about 64-bit wrap-around\<close>
named_theorems go_str \<open>facts about byte strings\<close>

section \<open>64-bit integers\<close>

text \<open>
  An \<open>int64\<close> is an \<open>int\<close> in \<open>in64\<close>. Every addition, subtraction, multiplication and
  negation of the source is followed by \<open>wrap64\<close>, two's complement wrap-around; division is
  Go's, which truncates towards zero (\<open>sdiv\<close> and \<open>smod\<close> of the library).
\<close>

definition max64 :: int where "max64 = 9223372036854775807"
definition min64 :: int where "min64 = -9223372036854775808"

definition in64 :: "int \<Rightarrow> bool" where
  "in64 x \<longleftrightarrow> min64 \<le> x \<and> x \<le> max64"

definition wrap64 :: "int \<Rightarrow> int" where
  "wrap64 x = (x + 9223372036854775808) mod 18446744073709551616 - 9223372036854775808"

lemma wrap64_id [go_int]: "in64 x \<Longrightarrow> wrap64 x = x"
  by (simp add: wrap64_def in64_def min64_def max64_def)

lemma in64_wrap64 [simp, go_int]: "in64 (wrap64 x)"
  by (simp add: wrap64_def in64_def min64_def max64_def)

lemma wrap64_cong: "(x - y) mod 18446744073709551616 = 0 \<Longrightarrow> wrap64 x = wrap64 y"
  by (simp add: wrap64_def mod_eq_dvd_iff mod_0_imp_dvd)

lemma wrap64_diff_mod: "(wrap64 x - x) mod 18446744073709551616 = 0"
  unfolding wrap64_def by (simp add: mod_diff_left_eq algebra_simps mod_simps)

lemma wrap64_eq_iff: "wrap64 x = wrap64 y \<longleftrightarrow> (x - y) mod 18446744073709551616 = 0"
proof
  assume eq: "wrap64 x = wrap64 y"
  have "(18446744073709551616 :: int) dvd (wrap64 x - x)" "18446744073709551616 dvd (wrap64 y - y)"
    using wrap64_diff_mod [of x] wrap64_diff_mod [of y] by (simp_all add: mod_0_imp_dvd)
  then have "18446744073709551616 dvd (wrap64 y - y) - (wrap64 x - x)"
    by (rule dvd_diff [rotated])
  with eq show "(x - y) mod 18446744073709551616 = 0"
    by simp
qed (rule wrap64_cong)

lemma wrap64_add_left [go_int]: "wrap64 (wrap64 x + y) = wrap64 (x + y)"
  using wrap64_diff_mod [of x] by (simp add: wrap64_eq_iff)

lemma wrap64_add_right [go_int]: "wrap64 (x + wrap64 y) = wrap64 (x + y)"
  using wrap64_diff_mod [of y] by (simp add: wrap64_eq_iff)

lemma wrap64_wrap64 [simp]: "wrap64 (wrap64 x) = wrap64 x"
  by (rule wrap64_id) simp

subsection \<open>Sorting by a key\<close>

lemma insort_key_map: "map g (insort_key (\<lambda>x. f (g x)) x xs) = insort_key f (g x) (map g xs)"
  by (induction xs) auto

lemma sort_key_map: "map g (sort_key (\<lambda>x. f (g x)) xs) = sort_key f (map g xs)"
  by (induction xs) (simp_all add: insort_key_map)

lemma sort_key_image: "(\<And>x. k (g x) = k x) \<Longrightarrow> sort_key k (map g xs) = map g (sort_key k xs)"
  using sort_key_map [of g k xs] by simp

subsection \<open>The interface of a wrapping accumulator\<close>

text \<open>
  A loop \<open>t += v\<close> over a list is the same whatever the order, because wrapping is a ring
  homomorphism. The locale states what is used of the wrap and proves the order-independence
  once; \<open>money.Sum\<close> and the allocation totals are its clients.
\<close>

locale wrapping =
  fixes w :: "int \<Rightarrow> int"
  assumes w_add: "w (w x + y) = w (x + y)"
    and w_zero: "w 0 = 0"
begin

lemma fold_wrap_acc: "foldl (\<lambda>t v. w (t + v)) (w a) xs = w (a + sum_list xs)"
  by (induction xs arbitrary: a) (simp_all add: w_add add.assoc)

lemma fold_wrap: "foldl (\<lambda>t v. w (t + v)) 0 xs = w (sum_list xs)"
  using fold_wrap_acc [of 0 xs] by (simp add: w_zero)

lemma fold_wrap_perm:
  "mset xs = mset ys \<Longrightarrow> foldl (\<lambda>t v. w (t + v)) 0 xs = foldl (\<lambda>t v. w (t + v)) 0 ys"
  by (metis fold_wrap sum_mset_sum_list)

lemma fold_wrap_append:
  "foldl (\<lambda>t v. w (t + v)) 0 (xs @ ys) =
   w (foldl (\<lambda>t v. w (t + v)) 0 xs + foldl (\<lambda>t v. w (t + v)) 0 ys)"
  by (simp add: fold_wrap del: foldl_append) (metis w_add add.commute)

end

interpretation i64: wrapping wrap64
  by unfold_locales (simp_all add: wrap64_add_left wrap64_id in64_def min64_def max64_def)

section \<open>Byte strings\<close>

text \<open>A Go string is a byte sequence, an Isabelle \<open>string\<close> a list of 8-bit characters.\<close>

definition byte :: "char \<Rightarrow> nat" where
  "byte c = of_char c"

definition is_digit :: "char \<Rightarrow> bool" where
  "is_digit c \<longleftrightarrow> 48 \<le> byte c \<and> byte c \<le> 57"

definition digit_val :: "char \<Rightarrow> int" where
  "digit_val c = int (byte c) - 48"

definition digit_char :: "nat \<Rightarrow> char" where
  "digit_char d = char_of (48 + d)"

lemma digit_char_facts [simp, go_str]:
  assumes "d < 10"
  shows "is_digit (digit_char d)" and "digit_val (digit_char d) = int d"
  using assms by (simp_all add: is_digit_def digit_val_def digit_char_def byte_def of_char_of)

lemma digit_val_bounds [go_str]: "is_digit c \<Longrightarrow> 0 \<le> digit_val c \<and> digit_val c \<le> 9"
  by (simp add: is_digit_def digit_val_def)

text \<open>The value a digit string spells, most significant digit first.\<close>

definition decimal :: "string \<Rightarrow> int" where
  "decimal s = foldl (\<lambda>a c. a * 10 + digit_val c) 0 s"

lemma decimal_Nil [simp]: "decimal [] = 0"
  by (simp add: decimal_def)

lemma decimal_snoc [simp]: "decimal (s @ [c]) = decimal s * 10 + digit_val c"
  by (simp add: decimal_def)

lemma decimal_append [go_str]: "decimal (s @ t) = decimal s * 10 ^ length t + decimal t"
proof (induction t rule: rev_induct)
  case (snoc c t)
  then show ?case
    by (simp add: append_assoc [symmetric] algebra_simps del: append_assoc)
qed simp

lemma decimal_bounds [go_str]: "list_all is_digit s \<Longrightarrow> 0 \<le> decimal s \<and> decimal s < 10 ^ length s"
proof (induction s rule: rev_induct)
  case (snoc c s)
  then show ?case
    using digit_val_bounds [of c] by (auto simp: algebra_simps)
qed simp

subsection \<open>strconv and fmt: decimal integers\<close>

text \<open>
  \<open>strconv.ParseInt(s, 10, 64)\<close>: an optional sign, then one or more digits, in range. None
  stands for its error (the code never looks at which error it was).
\<close>

definition parse_uint :: "string \<Rightarrow> int option" where
  "parse_uint s = (if s \<noteq> [] \<and> list_all is_digit s then Some (decimal s) else None)"

definition parse_int64 :: "string \<Rightarrow> int option" where
  "parse_int64 s =
     (case s of
        [] \<Rightarrow> None
      | c # t \<Rightarrow>
          (case (if c = CHR ''-'' then map_option uminus (parse_uint t)
                 else if c = CHR ''+'' then parse_uint t
                 else parse_uint s) of
             None \<Rightarrow> None
           | Some v \<Rightarrow> if in64 v then Some v else None))"

lemma digit_not_sign: "is_digit c \<Longrightarrow> c \<noteq> CHR ''-'' \<and> c \<noteq> CHR ''+''"
  by (auto simp: is_digit_def byte_def)

lemma parse_int64_digits [go_str]:
  assumes "list_all is_digit s" and "s \<noteq> []"
  shows "parse_int64 s = (if decimal s \<le> max64 then Some (decimal s) else None)"
proof -
  obtain c t where s: "s = c # t" using assms(2) by (cases s) auto
  have "in64 (decimal s) \<longleftrightarrow> decimal s \<le> max64"
    using decimal_bounds [OF assms(1)] by (simp add: in64_def min64_def)
  then show ?thesis
    using assms digit_not_sign [of c] by (simp add: s parse_int64_def parse_uint_def)
qed

lemma parse_int64_in64: "parse_int64 s = Some v \<Longrightarrow> in64 v"
  by (auto simp: parse_int64_def split: list.splits option.splits if_splits)

fun show_nat :: "nat \<Rightarrow> string" where
  "show_nat n = (if n < 10 then [digit_char n] else show_nat (n div 10) @ [digit_char (n mod 10)])"

declare show_nat.simps [simp del]

lemma show_nat_digits [simp, go_str]:
  "list_all is_digit (show_nat n)" "show_nat n \<noteq> []" "decimal (show_nat n) = int n"
proof (induction n rule: show_nat.induct)
  case (1 n)
  { case 1 show ?case using "1.IH"(1) by (subst show_nat.simps) (auto simp: digit_char_facts(1)) }
  { case 2 show ?case by (subst show_nat.simps) simp }
  { case 3
    show ?case
    proof (cases "n < 10")
      case True
      then show ?thesis
        using decimal_snoc [of "[]" "digit_char n"] by (subst show_nat.simps) simp
    next
      case False
      then have "decimal (show_nat (n div 10)) = int (n div 10)" using "1.IH"(3) by simp
      with False show ?thesis
        by (subst show_nat.simps) (simp add: of_nat_div of_nat_mod)
    qed }
qed

text \<open>The verbs \<open>%d\<close>, \<open>%02d\<close> and \<open>%04d\<close>: a minus sign, then zeroes up to the width.\<close>

definition zero_pad :: "nat \<Rightarrow> string \<Rightarrow> string" where
  "zero_pad w s = replicate (w - length s) (CHR ''0'') @ s"

definition fmt_int :: "nat \<Rightarrow> int \<Rightarrow> string" where
  "fmt_int w n = (if n < 0 then CHR ''-'' # zero_pad (w - 1) (show_nat (nat (- n)))
                  else zero_pad w (show_nat (nat n)))"

subsection \<open>strings: TrimSpace, Cut, Join\<close>

text \<open>
  The UTF-8 encodings of the code points \<open>unicode.IsSpace\<close> accepts. \<open>strings.TrimSpace\<close>
  removes them from both ends; an encoding is a prefix (suffix) of the bytes exactly when it is
  the first (last) rune.
\<close>

definition space_runes :: "string list" where
  "space_runes =
     map (\<lambda>b. [char_of (b::nat)]) [9, 10, 11, 12, 13, 32] @
     map (\<lambda>b. [char_of (0xC2::nat), char_of (b::nat)]) [0x85, 0xA0] @
     [[char_of (0xE1::nat), char_of (0x9A::nat), char_of (0x80::nat)]] @
     map (\<lambda>b. [char_of (0xE2::nat), char_of (0x80::nat), char_of (b::nat)])
       [0x80, 0x81, 0x82, 0x83, 0x84, 0x85, 0x86, 0x87, 0x88, 0x89, 0x8A, 0xA8, 0xA9, 0xAF] @
     [[char_of (0xE2::nat), char_of (0x81::nat), char_of (0x9F::nat)],
      [char_of (0xE3::nat), char_of (0x80::nat), char_of (0x80::nat)]]"

fun strip_prefix :: "string list \<Rightarrow> string \<Rightarrow> string option" where
  "strip_prefix [] s = None"
| "strip_prefix (p # ps) s =
     (if p \<noteq> [] \<and> take (length p) s = p then Some (drop (length p) s) else strip_prefix ps s)"

lemma strip_prefix_shorter: "strip_prefix ps s = Some t \<Longrightarrow> length t < length s"
proof (induction ps)
  case (Cons p ps)
  show ?case
  proof (cases "p \<noteq> [] \<and> take (length p) s = p")
    case True
    then have "length p \<le> length s" by (metis length_take min.cobounded1)
    with True Cons.prems show ?thesis by (cases p) auto
  qed (use Cons in auto)
qed simp

function trim_by :: "string list \<Rightarrow> string \<Rightarrow> string" where
  "trim_by ps s = (case strip_prefix ps s of None \<Rightarrow> s | Some t \<Rightarrow> trim_by ps t)"
  by pat_completeness auto
termination
  by (relation "measure (length o snd)") (auto dest: strip_prefix_shorter)

declare trim_by.simps [simp del]

definition trim_space :: "string \<Rightarrow> string" where
  "trim_space s = rev (trim_by (map rev space_runes) (rev (trim_by space_runes s)))"

definition blank :: "string \<Rightarrow> bool" where
  "blank s \<longleftrightarrow> trim_space s = []"

lemma trim_by_stop: "strip_prefix ps s = None \<Longrightarrow> trim_by ps s = s"
  by (subst trim_by.simps) simp

text \<open>A string that begins and ends in printable ASCII is what TrimSpace leaves alone.\<close>

definition solid :: "char \<Rightarrow> bool" where
  "solid c \<longleftrightarrow> 32 < byte c \<and> byte c < 128"

lemma digit_solid: "is_digit c \<Longrightarrow> solid c"
  by (simp add: is_digit_def solid_def)

lemma strip_prefix_other_head:
  "\<forall>p \<in> set ps. p = [] \<or> hd p \<noteq> c \<Longrightarrow> strip_prefix ps (c # s) = None"
proof (induction ps)
  case (Cons p ps)
  then show ?case by (cases p) auto
qed simp

lemma space_rune_ends:
  "list_all (\<lambda>p. p \<noteq> [] \<and> (byte (hd p) \<le> 32 \<or> 128 \<le> byte (hd p))) space_runes"
  "list_all (\<lambda>p. p \<noteq> [] \<and> (byte (hd p) \<le> 32 \<or> 128 \<le> byte (hd p))) (map rev space_runes)"
  by code_simp+

lemma strip_space_runes:
  assumes "solid c"
  shows "strip_prefix space_runes (c # s) = None"
    and "strip_prefix (map rev space_runes) (c # s) = None"
proof -
  have 1: "\<forall>p \<in> set space_runes. p = [] \<or> hd p \<noteq> c"
    and 2: "\<forall>p \<in> set (map rev space_runes). p = [] \<or> hd p \<noteq> c"
    using assms space_rune_ends unfolding list_all_iff solid_def by fastforce+
  show "strip_prefix space_runes (c # s) = None" by (rule strip_prefix_other_head [OF 1])
  show "strip_prefix (map rev space_runes) (c # s) = None" by (rule strip_prefix_other_head [OF 2])
qed

lemma trim_space_solid:
  assumes "s \<noteq> []" and "solid (hd s)" and "solid (last s)"
  shows "trim_space s = s"
proof -
  obtain c t where s: "s = c # t" using assms(1) by (cases s) auto
  then have 1: "trim_by space_runes s = s"
    using assms(2) by (simp add: trim_by_stop strip_space_runes)
  obtain d u where r: "rev s = d # u" using assms(1) by (cases "rev s") auto
  then have "d = last s" using assms(1) by (metis hd_rev list.sel(1))
  then have "trim_by (map rev space_runes) (rev s) = rev s"
    using assms(3) by (simp add: r trim_by_stop strip_space_runes)
  then show ?thesis by (simp add: trim_space_def 1)
qed

lemma trim_space_Nil [simp]: "trim_space [] = []"
proof -
  have "strip_prefix ps [] = None" for ps :: "string list"
    by (induction ps) auto
  then show ?thesis by (simp add: trim_space_def trim_by_stop)
qed

text \<open>\<open>strings.Cut(s, sep)\<close> for a one-byte separator, without its third result.\<close>

definition cut_at :: "char \<Rightarrow> string \<Rightarrow> string \<times> string" where
  "cut_at c s = (takeWhile (\<lambda>x. x \<noteq> c) s, drop 1 (dropWhile (\<lambda>x. x \<noteq> c) s))"

lemma cut_at_found [simp]: "c \<notin> set s \<Longrightarrow> cut_at c (s @ c # t) = (s, t)"
  by (induction s) (auto simp: cut_at_def)

lemma cut_at_absent [simp]: "c \<notin> set s \<Longrightarrow> cut_at c s = (s, [])"
  by (induction s) (auto simp: cut_at_def)

text \<open>\<open>strings.Join\<close>.\<close>

fun join :: "string \<Rightarrow> string list \<Rightarrow> string" where
  "join sep [] = []"
| "join sep [x] = x"
| "join sep (x # y # zs) = x @ sep @ join sep (y # zs)"

end
