(* ===== verification/Calendar.thy ===== *)
theory Calendar
  imports Prelude
begin

text \<open>
  The dates of the store: \<open>YYYY-MM-DD\<close> strings, read with \<open>time.Parse("2006-01-02", s)\<close>,
  printed with \<open>Format\<close> of the same layout, moved with \<open>AddDate\<close>, and compared as plain
  strings everywhere else. A date is an \<open>int\<close>, the days since 0000-01-01 of the proleptic
  Gregorian calendar \<open>package time\<close> uses.
\<close>

section \<open>The calendar\<close>

definition leap :: "int \<Rightarrow> bool" where
  "leap y \<longleftrightarrow> y mod 4 = 0 \<and> (y mod 100 \<noteq> 0 \<or> y mod 400 = 0)"

definition days_in :: "int \<Rightarrow> int \<Rightarrow> int" where
  "days_in m y = (if m = 2 then (if leap y then 29 else 28)
                  else if m = 4 \<or> m = 6 \<or> m = 9 \<or> m = 11 then 30 else 31)"

definition year_start :: "int \<Rightarrow> int" where
  "year_start y = 365 * y + (y + 3) div 4 - (y + 99) div 100 + (y + 399) div 400"

fun month_start :: "int \<Rightarrow> nat \<Rightarrow> int" where
  "month_start y 0 = 0"
| "month_start y (Suc m) = (if m = 0 then 0 else month_start y m + days_in (int m) y)"

definition day_number :: "int \<Rightarrow> int \<Rightarrow> int \<Rightarrow> int" where
  "day_number y m d = year_start y + month_start y (nat m) + (d - 1)"

definition valid_date :: "int \<Rightarrow> int \<Rightarrow> int \<Rightarrow> bool" where
  "valid_date y m d \<longleftrightarrow> 0 \<le> y \<and> y \<le> 9999 \<and> 1 \<le> m \<and> m \<le> 12 \<and> 1 \<le> d \<and> d \<le> days_in m y"

text \<open>Parsing accepts ten bytes, digits where the layout has them, and a date that exists.\<close>

definition parse_date :: "string \<Rightarrow> int option" where
  "parse_date s =
     (if length s = 10 \<and> s ! 4 = CHR ''-'' \<and> s ! 7 = CHR ''-'' \<and>
         list_all is_digit (take 4 s) \<and> list_all is_digit (take 2 (drop 5 s)) \<and>
         list_all is_digit (drop 8 s)
      then let y = decimal (take 4 s); m = decimal (take 2 (drop 5 s)); d = decimal (drop 8 s)
           in if valid_date y m d then Some (day_number y m d) else None
      else None)"

definition weekend :: "int \<Rightarrow> bool" where
  "weekend n \<longleftrightarrow> n mod 7 = 0 \<or> n mod 7 = 1"

text \<open>0000-01-01 was a Saturday, so residues 0 and 1 are Saturday and Sunday.\<close>

lemma weekend_2026: "parse_date ''2026-10-03'' = Some 740257 \<and> weekend 740257"
  by code_simp

section \<open>Order\<close>

text \<open>Go compares strings byte by byte.\<close>

fun str_lt :: "string \<Rightarrow> string \<Rightarrow> bool" where
  "str_lt s [] = False"
| "str_lt [] (c # t) = True"
| "str_lt (b # s) (c # t) = (byte b < byte c \<or> (b = c \<and> str_lt s t))"

abbreviation str_le :: "string \<Rightarrow> string \<Rightarrow> bool" where
  "str_le s t \<equiv> \<not> str_lt t s"

lemma byte_inject [simp]: "byte a = byte b \<longleftrightarrow> a = b"
  by (simp add: byte_def)

lemma str_lt_irrefl [simp]: "\<not> str_lt s s"
  by (induction s) simp_all

lemma str_lt_trans: "str_lt r s \<Longrightarrow> str_lt s t \<Longrightarrow> str_lt r t"
proof (induction r s arbitrary: t rule: str_lt.induct)
  case (3 b s c t u)
  then show ?case by (cases u) auto
qed (auto elim: str_lt.elims)

lemma str_lt_linear: "str_lt s t \<or> s = t \<or> str_lt t s"
proof (induction s t rule: str_lt.induct)
  case (1 s)
  then show ?case by (cases s) auto
next
  case (3 b s c t)
  then show ?case by (metis byte_inject linorder_neqE_nat str_lt.simps(3))
qed simp

lemma str_lt_append_same: "length s = length s' \<Longrightarrow>
    str_lt (s @ t) (s' @ t') \<longleftrightarrow> str_lt s s' \<or> (s = s' \<and> str_lt t t')"
proof (induction s s' rule: list_induct2)
  case Nil
  then show ?case by (cases "str_lt t t'") simp_all
qed auto

lemma decimal_Cons: "decimal (c # s) = digit_val c * 10 ^ length s + decimal s"
  using decimal_append [of "[c]" s] decimal_snoc [of "[]" c] by simp

lemma str_lt_digits:
  "length s = length t \<Longrightarrow> list_all is_digit s \<Longrightarrow> list_all is_digit t \<Longrightarrow>
   (str_lt s t \<longleftrightarrow> decimal s < decimal t) \<and> (s = t \<longleftrightarrow> decimal s = decimal t)"
proof (induction s t rule: list_induct2)
  case (Cons b s c t)
  define P where "P = (10 :: int) ^ length t"
  have s: "0 \<le> decimal s" "decimal s < P" and t: "0 \<le> decimal t" "decimal t < P"
    using Cons.prems Cons.hyps decimal_bounds [of s] decimal_bounds [of t] by (auto simp: P_def)
  have IH: "str_lt s t \<longleftrightarrow> decimal s < decimal t" "s = t \<longleftrightarrow> decimal s = decimal t"
    using Cons by auto
  have d: "decimal (b # s) = digit_val b * P + decimal s" "decimal (c # t) = digit_val c * P + decimal t"
    using Cons.hyps by (simp_all add: decimal_Cons P_def)
  consider "byte b < byte c" | "b = c" | "byte c < byte b"
    by (metis byte_inject linorder_neqE_nat)
  then show ?case
  proof cases
    case 1
    then have "(digit_val b + 1) * P \<le> digit_val c * P"
      using s by (intro mult_right_mono) (auto simp: digit_val_def)
    then have "decimal (b # s) < decimal (c # t)" using s t unfolding d by (simp add: distrib_right)
    with 1 show ?thesis by auto
  next
    case 2
    then show ?thesis using IH d by auto
  next
    case 3
    then have "(digit_val c + 1) * P \<le> digit_val b * P"
      using s by (intro mult_right_mono) (auto simp: digit_val_def)
    then have "decimal (c # t) < decimal (b # s)" using s t unfolding d by (simp add: distrib_right)
    with 3 show ?thesis by auto
  qed
qed simp

section \<open>Monotonicity of the day number\<close>

lemma div_step:
  assumes "0 < (k :: int)"
  shows "(y + k) div k = (y + k - 1) div k + (if y mod k = 0 then 1 else 0)"
proof -
  define q r where "q = y div k" and "r = y mod k"
  have y: "y = r + q * k" and r: "0 \<le> r" "r < k" using assms by (simp_all add: q_def r_def)
  have 1: "(y + k) div k = q + 1" using assms by (simp add: q_def div_add_self2)
  show ?thesis
  proof (cases "r = 0")
    case True
    then have "(y + k - 1) div k = ((k - 1) + q * k) div k" by (simp add: y algebra_simps)
    also have "\<dots> = q" using assms by (simp add: div_pos_pos_trivial)
    finally show ?thesis using 1 True by (simp add: r_def)
  next
    case False
    then have "(y + k - 1) div k = ((r - 1) + (q + 1) * k) div k" by (simp add: y algebra_simps)
    also have "\<dots> = q + 1" using assms r False by (subst div_mult_self1) (simp_all add: div_pos_pos_trivial)
    finally show ?thesis using 1 False by (simp add: r_def)
  qed
qed

lemma leap_mods: "(y :: int) mod 400 = 0 \<Longrightarrow> y mod 100 = 0" "(y :: int) mod 100 = 0 \<Longrightarrow> y mod 4 = 0"
proof -
  have "(4 :: int) dvd 100" "(100 :: int) dvd 400" by simp_all
  then show "y mod 400 = 0 \<Longrightarrow> y mod 100 = 0" "y mod 100 = 0 \<Longrightarrow> y mod 4 = 0"
    unfolding mod_eq_0_iff_dvd by (blast intro: dvd_trans)+
qed

lemma year_step: "year_start (y + 1) = year_start y + (if leap y then 366 else 365)"
proof -
  define A B C where "A = (y + 3) div 4" and "B = (y + 99) div 100" and "C = (y + 399) div 400"
  have e: "y + 4 - 1 = y + 3" "y + 100 - 1 = y + 99" "y + 400 - 1 = y + 399" by linarith+
  have 4: "(y + 4) div 4 = A + (if y mod 4 = 0 then 1 else 0)"
    using div_step [of 4 y] unfolding A_def e by linarith
  have 100: "(y + 100) div 100 = B + (if y mod 100 = 0 then 1 else 0)"
    using div_step [of 100 y] unfolding B_def e by linarith
  have 400: "(y + 400) div 400 = C + (if y mod 400 = 0 then 1 else 0)"
    using div_step [of 400 y] unfolding C_def e by linarith
  have s: "y + 1 + 3 = y + 4" "y + 1 + 99 = y + 100" "y + 1 + 399 = y + 400" by linarith+
  have "year_start y = 365 * y + A - B + C" by (simp only: year_start_def A_def B_def C_def)
  moreover have "year_start (y + 1) = 365 * (y + 1) + (y + 4) div 4 - (y + 100) div 100 + (y + 400) div 400"
    unfolding year_start_def s ..
  ultimately show ?thesis
    using leap_mods [of y] unfolding 4 100 400 leap_def
    by (cases "y mod 4 = 0"; cases "y mod 100 = 0"; cases "y mod 400 = 0") (simp_all only: simp_thms if_True if_False, simp_all)
qed

lemma year_start_add: "year_start y + 365 * int k \<le> year_start (y + int k)"
proof (induction k)
  case (Suc k)
  have "year_start (y + int (Suc k)) = year_start (y + int k + 1)" by (simp add: algebra_simps)
  then show ?case using Suc by (simp add: year_step)
qed simp

lemma year_start_mono: "y \<le> y' \<Longrightarrow> year_start y \<le> year_start y'"
  using year_start_add [of y "nat (y' - y)"] by simp

lemma year_start_0 [simp]: "year_start 0 = 0"
  by (simp add: year_start_def)

lemma year_start_upper: "year_start (int k) \<le> 366 * int k"
proof (induction k)
  case (Suc k)
  then show ?case using year_step [of "int k"] by (simp add: add.commute split: if_splits)
qed simp

lemma days_in_bounds: "28 \<le> days_in m y" "days_in m y \<le> 31"
  by (simp_all add: days_in_def)

lemma month_start_le: "m \<le> m' \<Longrightarrow> month_start y m \<le> month_start y m'"
proof (induction m' rule: nat_induct)
  case (Suc k)
  then show ?case using days_in_bounds(1) [of "int k" y] by (cases "m = Suc k") auto
qed simp

lemma month_start_step: "1 \<le> m \<Longrightarrow> month_start y (Suc m) = month_start y m + days_in (int m) y"
  by simp

lemma month_start_after: "1 \<le> m \<Longrightarrow> m < m' \<Longrightarrow> month_start y m + days_in (int m) y \<le> month_start y m'"
  using month_start_le [of "Suc m" m' y] by simp

lemma month_start_13: "month_start y 13 = (if leap y then 366 else 365)"
  by (simp add: eval_nat_numeral days_in_def)

lemma month_start_nonneg: "0 \<le> month_start y m"
  using month_start_le [of 0 m y] by simp

lemma day_number_bounds:
  assumes "valid_date y m d"
  shows "year_start y \<le> day_number y m d" and "day_number y m d < year_start (y + 1)"
proof -
  show "year_start y \<le> day_number y m d"
    using assms month_start_nonneg [of y "nat m"] by (simp add: day_number_def valid_date_def)
  have "month_start y (nat m) + days_in m y \<le> month_start y 13"
    using assms month_start_after [of "nat m" 13 y] unfolding valid_date_def
    by (simp add: nat_less_iff Suc_le_eq)
  then show "day_number y m d < year_start (y + 1)"
    using assms by (auto simp: day_number_def valid_date_def month_start_13 year_step)
qed

lemma day_number_less:
  assumes "valid_date y m d" and "valid_date y' m' d'"
    and "y < y' \<or> y = y' \<and> (m < m' \<or> m = m' \<and> d < d')"
  shows "day_number y m d < day_number y' m' d'"
proof -
  consider "y < y'" | "y = y'" "m < m'" | "y = y'" "m = m'" "d < d'" using assms(3) by auto
  then show ?thesis
  proof cases
    case 1
    then have "year_start (y + 1) \<le> year_start y'" by (intro year_start_mono) simp
    then show ?thesis using day_number_bounds [OF assms(1)] day_number_bounds [OF assms(2)] by linarith
  next
    case 2
    then have "month_start y (nat m) + days_in m y \<le> month_start y (nat m')"
      using assms month_start_after [of "nat m" "nat m'" y] unfolding valid_date_def
      by (simp add: nat_less_iff Suc_le_eq)
    then show ?thesis using assms 2 by (simp add: day_number_def valid_date_def)
  next
    case 3
    then show ?thesis by (simp add: day_number_def)
  qed
qed

lemma day_number_lex:
  assumes "valid_date y m d" and "valid_date y' m' d'"
  shows "day_number y m d < day_number y' m' d' \<longleftrightarrow> y < y' \<or> y = y' \<and> (m < m' \<or> m = m' \<and> d < d')"
  using day_number_less [OF assms] day_number_less [OF assms(2,1)] by (smt (verit))

section \<open>Dates as text\<close>

definition date_text :: "string \<Rightarrow> string \<Rightarrow> string \<Rightarrow> string" where
  "date_text y m d = y @ ''-'' @ m @ ''-'' @ d"

lemma parse_date_text:
  assumes "length y = 4" "length m = 2" "length d = 2"
    and "list_all is_digit y" "list_all is_digit m" "list_all is_digit d"
  shows "parse_date (date_text y m d) =
    (if valid_date (decimal y) (decimal m) (decimal d)
     then Some (day_number (decimal y) (decimal m) (decimal d)) else None)"
proof -
  have p: "take 4 (date_text y m d) = y" "take 2 (drop 5 (date_text y m d)) = m"
    "drop 8 (date_text y m d) = d" "length (date_text y m d) = 10"
    "date_text y m d ! 4 = CHR ''-''" "date_text y m d ! 7 = CHR ''-''"
    using assms by (simp_all add: date_text_def nth_append)
  show ?thesis unfolding parse_date_def p Let_def using assms by simp
qed

lemma parse_date_SomeE:
  assumes "parse_date s = Some n"
  obtains y m d where "s = date_text y m d" "length y = 4" "length m = 2" "length d = 2"
    "list_all is_digit y" "list_all is_digit m" "list_all is_digit d"
    "valid_date (decimal y) (decimal m) (decimal d)"
    "n = day_number (decimal y) (decimal m) (decimal d)"
proof -
  let ?y = "take 4 s" and ?m = "take 2 (drop 5 s)" and ?d = "drop 8 s"
  have *: "length s = 10" "s ! 4 = CHR ''-''" "s ! 7 = CHR ''-''"
    "list_all is_digit ?y" "list_all is_digit ?m" "list_all is_digit ?d"
    "valid_date (decimal ?y) (decimal ?m) (decimal ?d)"
    "n = day_number (decimal ?y) (decimal ?m) (decimal ?d)"
    using assms by (auto simp: parse_date_def Let_def split: if_splits)
  have "s = ?y @ drop 4 s" by simp
  also have "drop 4 s = s ! 4 # drop 5 s" using *(1) Cons_nth_drop_Suc [of 4 s] by simp
  also have "drop 5 s = ?m @ drop 7 s" using append_take_drop_id [of 2 "drop 5 s"] by simp
  also have "drop 7 s = s ! 7 # ?d" using *(1) Cons_nth_drop_Suc [of 7 s] by simp
  finally have "s = date_text ?y ?m ?d" using * by (simp add: date_text_def)
  then show thesis using * by (intro that) simp_all
qed

lemma parse_date_order:
  assumes "parse_date s = Some a" and "parse_date t = Some b"
  shows "(str_lt s t \<longleftrightarrow> a < b) \<and> (s = t \<longleftrightarrow> a = b)"
proof -
  obtain y m d where 1: "s = date_text y m d" "length y = 4" "length m = 2" "length d = 2"
    "list_all is_digit y" "list_all is_digit m" "list_all is_digit d"
    "valid_date (decimal y) (decimal m) (decimal d)" "a = day_number (decimal y) (decimal m) (decimal d)"
    using assms(1) by (rule parse_date_SomeE)
  obtain y' m' d' where 2: "t = date_text y' m' d'" "length y' = 4" "length m' = 2" "length d' = 2"
    "list_all is_digit y'" "list_all is_digit m'" "list_all is_digit d'"
    "valid_date (decimal y') (decimal m') (decimal d')"
    "b = day_number (decimal y') (decimal m') (decimal d')"
    using assms(2) by (rule parse_date_SomeE)
  have "str_lt s t \<longleftrightarrow> decimal y < decimal y' \<or> decimal y = decimal y' \<and>
      (decimal m < decimal m' \<or> decimal m = decimal m' \<and> decimal d < decimal d')"
    using 1 2 str_lt_digits [of y y'] str_lt_digits [of m m'] str_lt_digits [of d d']
    by (simp add: date_text_def str_lt_append_same)
  then have lt: "str_lt s t \<longleftrightarrow> a < b" using 1 2 day_number_lex by simp
  have "str_lt t s \<longleftrightarrow> decimal y' < decimal y \<or> decimal y' = decimal y \<and>
      (decimal m' < decimal m \<or> decimal m' = decimal m \<and> decimal d' < decimal d)"
    using 1 2 str_lt_digits [of y' y] str_lt_digits [of m' m] str_lt_digits [of d' d]
    by (simp add: date_text_def str_lt_append_same)
  then have gt: "str_lt t s \<longleftrightarrow> b < a" using 1 2 day_number_lex by simp
  from lt gt str_lt_linear [of s t] show ?thesis by (metis less_irrefl assms option.inject linorder_neqE)
qed

text \<open>
  Comparing two dates of the store as plain strings is exact: for every two strings that
  parse as dates, the byte order is the order of the days.
\<close>

theorem date_string_order:
  assumes "parse_date s = Some a" and "parse_date t = Some b"
  shows "(str_lt s t \<longleftrightarrow> a < b) \<and> (s = t \<longleftrightarrow> a = b)"
  by (rule parse_date_order [OF assms])

theorem date_string_order_witness: "str_lt ''2026-09-30'' ''2026-10-01'' \<longleftrightarrow> (740254 :: int) < 740255"
proof -
  have "parse_date ''2026-09-30'' = Some 740254" "parse_date ''2026-10-01'' = Some 740255"
    by code_simp+
  then show ?thesis using date_string_order by blast
qed

section \<open>Format and AddDate\<close>

text \<open>
  \<open>Format("2006-01-02")\<close> of a day: the year is found from a year that starts no later, the
  month by taking whole months off the days that are left.
\<close>

function year_from :: "int \<Rightarrow> int \<Rightarrow> int" where
  "year_from y n = (if year_start (y + 1) \<le> n then year_from (y + 1) n else y)"
  by pat_completeness auto
termination
proof (relation "measure (\<lambda>(y, n). nat (n - year_start y))")
  fix y n
  assume "year_start (y + 1) \<le> n"
  moreover have "year_start y < year_start (y + 1)" by (simp add: year_step)
  ultimately show "((y + 1, n), (y, n)) \<in> measure (\<lambda>(y, n). nat (n - year_start y))" by simp
qed simp

declare year_from.simps [simp del]

fun month_from :: "nat \<Rightarrow> int \<Rightarrow> nat \<Rightarrow> int \<Rightarrow> int \<times> int" where
  "month_from 0 y m r = (int m, r + 1)"
| "month_from (Suc k) y m r =
     (if r < days_in (int m) y then (int m, r + 1) else month_from k y (Suc m) (r - days_in (int m) y))"

definition format_date :: "int \<Rightarrow> string" where
  "format_date n =
     (let y = year_from (n div 366) n;
          (m, d) = month_from 11 y 1 (n - year_start y)
      in date_text (fmt_int 4 y) (fmt_int 2 m) (fmt_int 2 d))"

definition add_days :: "int \<Rightarrow> int \<Rightarrow> int" where
  "add_days n k = n + k"

lemma year_from_spec:
  "year_start y \<le> n \<Longrightarrow> y \<le> year_from y n \<and> year_start (year_from y n) \<le> n \<and> n < year_start (year_from y n + 1)"
proof (induction y n rule: year_from.induct)
  case (1 y n)
  show ?case
  proof (cases "year_start (y + 1) \<le> n")
    case True
    then show ?thesis using 1 by (subst (1 2 3) year_from.simps) auto
  next
    case False
    then show ?thesis using 1 by (subst (1 2 3) year_from.simps) auto
  qed
qed

lemma month_from_spec:
  assumes "1 \<le> m" "m + k = 12" "0 \<le> r" "month_start y m + r < month_start y 13"
    and "month_from k y m r = (m', d)"
  shows "int m \<le> m' \<and> m' \<le> 12 \<and> 1 \<le> d \<and> d \<le> days_in m' y \<and>
    month_start y (nat m') + (d - 1) = month_start y m + r"
  using assms
proof (induction k arbitrary: m r)
  case 0
  then have "m = 12" by simp
  then have "month_start y 13 = month_start y m + days_in 12 y"
    using month_start_step [of 12 y] by (simp add: eval_nat_numeral)
  with 0 \<open>m = 12\<close> show ?case by auto
next
  case (Suc k)
  show ?case
  proof (cases "r < days_in (int m) y")
    case True
    then show ?thesis using Suc.prems by auto
  next
    case False
    then show ?thesis
      using Suc.prems Suc.IH [of "Suc m" "r - days_in (int m) y"] by (auto simp: Suc_le_eq)
  qed
qed

lemma show_nat_len: "n < 10 ^ k \<Longrightarrow> 0 < k \<Longrightarrow> length (show_nat n) \<le> k"
proof (induction k arbitrary: n)
  case (Suc k)
  show ?case
  proof (cases "n < 10")
    case False
    then have "0 < k" using Suc.prems by (cases k) auto
    then have "length (show_nat (n div 10)) \<le> k"
      using Suc.prems by (intro Suc.IH) (simp_all add: less_mult_imp_div_less mult.commute)
    with False show ?thesis by (subst show_nat.simps) simp
  qed (subst show_nat.simps, simp)
qed simp

lemma digits_zeroes: "list_all is_digit (replicate k (CHR ''0''))"
  by (induction k) (simp_all add: is_digit_def byte_def)

lemma decimal_zeroes: "decimal (replicate k (CHR ''0'') @ s) = decimal s"
  by (induction k) (simp_all add: decimal_Cons digit_val_def byte_def)

lemma fmt_int_padded:
  assumes "0 \<le> n" "n < 10 ^ w" "0 < w"
  shows "length (fmt_int w n) = w \<and> list_all is_digit (fmt_int w n) \<and> decimal (fmt_int w n) = n"
proof -
  have "nat n < 10 ^ w" using assms by (simp add: nat_less_iff)
  then have "length (show_nat (nat n)) \<le> w" using assms(3) by (rule show_nat_len)
  then show ?thesis
    using assms show_nat_digits [of "nat n"]
    by (simp add: fmt_int_def zero_pad_def decimal_zeroes digits_zeroes)
qed

text \<open>
  Printing a day and reading it back is the identity over the years the layout can hold,
  0000 to 9999, so a date moved with \<open>AddDate\<close> and stored as text is the day it was.
\<close>

theorem date_roundtrip:
  assumes "0 \<le> n" and "n < year_start 10000"
  shows "parse_date (format_date n) = Some n"
proof -
  define y where "y = year_from (n div 366) n"
  obtain m d where md: "month_from 11 y 1 (n - year_start y) = (m, d)" by fastforce
  have "year_start (n div 366) \<le> 366 * (n div 366)"
    using assms(1) year_start_upper [of "nat (n div 366)"] by (simp add: pos_imp_zdiv_nonneg_iff)
  then have start: "year_start (n div 366) \<le> n" by linarith
  have y: "0 \<le> y" "year_start y \<le> n" "n < year_start (y + 1)"
    using year_from_spec [OF start] assms(1) unfolding y_def
    by (auto intro: order_trans [of 0 "n div 366"] simp: pos_imp_zdiv_nonneg_iff)
  have "y < 10000"
    using assms(2) y(2) year_start_mono [of 10000 y] by linarith
  have ms: "month_start y 1 + (n - year_start y) < month_start y 13"
    using y(3) by (simp add: month_start_13 year_step)
  from month_from_spec [OF _ _ _ this md] y(2)
  have m: "1 \<le> m" "m \<le> 12" "1 \<le> d" "d \<le> days_in m y"
    "month_start y (nat m) + (d - 1) = n - year_start y" by auto
  have "d < 100" using m(4) days_in_bounds(2) [of m y] by simp
  then have f: "length (fmt_int 4 y) = 4 \<and> list_all is_digit (fmt_int 4 y) \<and> decimal (fmt_int 4 y) = y"
    "length (fmt_int 2 m) = 2 \<and> list_all is_digit (fmt_int 2 m) \<and> decimal (fmt_int 2 m) = m"
    "length (fmt_int 2 d) = 2 \<and> list_all is_digit (fmt_int 2 d) \<and> decimal (fmt_int 2 d) = d"
    using y \<open>y < 10000\<close> m by (intro fmt_int_padded; simp)+
  have "format_date n = date_text (fmt_int 4 y) (fmt_int 2 m) (fmt_int 2 d)"
    unfolding format_date_def Let_def y_def [symmetric] md by simp
  then show ?thesis
    using f y \<open>y < 10000\<close> m by (simp add: parse_date_text valid_date_def day_number_def)
qed

theorem date_roundtrip_witness: "parse_date (format_date 740257) = Some 740257"
  by (rule date_roundtrip) (simp_all add: year_start_def)

end
