(* ===== verification/Money.thy ===== *)
theory Money
  imports Prelude
begin

text \<open>
  \<open>internal/money/money.go\<close>: amounts as integer cents and micro-units. Both are Go
  \<open>int64\<close> values, written as \<open>int\<close> with \<open>wrap64\<close> after every operation. The functions that
  go through \<open>float64\<close> (\<open>Float\<close>, \<open>Scale\<close>, \<open>Pct\<close>) are not here.
\<close>

type_synonym cents = int
type_synonym micros = int

section \<open>Operations\<close>

definition cents_add :: "cents \<Rightarrow> cents \<Rightarrow> cents" where
  "cents_add c d = wrap64 (c + d)"

definition cents_sub :: "cents \<Rightarrow> cents \<Rightarrow> cents" where
  "cents_sub c d = wrap64 (c - d)"

definition cents_abs :: "cents \<Rightarrow> cents" where
  "cents_abs c = (if c < 0 then wrap64 (- c) else c)"

definition cents_sum :: "cents list \<Rightarrow> cents" where
  "cents_sum vs = foldl (\<lambda>t v. wrap64 (t + v)) 0 vs"

definition cents_string :: "cents \<Rightarrow> string" where
  "cents_string c =
     (let neg = c < 0;
          v = (if neg then wrap64 (- c) else c);
          s = fmt_int 0 (v sdiv 100) @ ''.'' @ fmt_int 2 (v smod 100)
      in if neg then ''-'' @ s else s)"

definition cents_bps :: "cents \<Rightarrow> int \<Rightarrow> cents" where
  "cents_bps c bps =
     (let n = wrap64 (c * bps);
          neg = n < 0;
          n' = (if neg then wrap64 (- n) else n);
          r = wrap64 (n' + 5000) sdiv 10000
      in if neg then wrap64 (- r) else r)"

section \<open>Parsing\<close>

text \<open>
  The error values: \<open>errShape\<close> bare, \<open>errShape\<close> wrapped with the string that failed, and the
  amount that does not fit.
\<close>

datatype money_error = NotDecimal | NotDecimalIn string | DoesNotFit string

definition scaled :: "int \<Rightarrow> int \<Rightarrow> int \<Rightarrow> int option" where
  "scaled whole part unit =
     (if whole < 0 \<or> part < 0 \<or> whole > wrap64 (max64 - part) sdiv unit then None
      else Some (wrap64 (wrap64 (whole * unit) + part)))"

text \<open>
  The head both parsers share: trim, one sign, a second sign refused, split at the dot, an
  empty integer part read as zero. The result is (negative, rest of the string, whole, fraction).
\<close>

definition parse_head :: "string \<Rightarrow> money_error + (bool \<times> string \<times> int \<times> string)" where
  "parse_head s0 =
     (let s1 = trim_space s0 in
      if s1 = [] then Inl NotDecimal
      else
        let neg = (hd s1 = CHR ''-'');
            s = (if hd s1 = CHR ''-'' \<or> hd s1 = CHR ''+'' then tl s1 else s1)
        in if s = [] \<or> hd s = CHR ''-'' \<or> hd s = CHR ''+'' then Inl (NotDecimalIn s)
           else
             let (intPart, frac) = cut_at (CHR ''.'') s
             in if intPart = [] \<and> frac = [] then Inl NotDecimal
                else case parse_int64 (if intPart = [] then ''0'' else intPart) of
                       None \<Rightarrow> Inl (NotDecimalIn s)
                     | Some whole \<Rightarrow> Inr (neg, s, whole, frac))"

definition five_up :: "char \<Rightarrow> bool" where
  "five_up c \<longleftrightarrow> byte (CHR ''5'') \<le> byte c \<and> byte c \<le> byte (CHR ''9'')"

text \<open>The switch on the fraction in \<open>Parse\<close> (two places kept) and \<open>ParseMicros\<close> (six).\<close>

definition frac_cents :: "string \<Rightarrow> int option" where
  "frac_cents frac =
     (if frac = [] then Some 0
      else if length frac = 1 then map_option (\<lambda>d. wrap64 (d * 10)) (parse_int64 frac)
      else case parse_int64 (take 2 frac) of
             None \<Rightarrow> None
           | Some two \<Rightarrow>
               let c = (if length frac > 2 \<and> five_up (frac ! 2) then wrap64 (two + 1) else two)
               in if length frac > 2 \<and> parse_int64 (drop 2 frac) = None then None else Some c)"

definition frac_micros :: "string \<Rightarrow> int option" where
  "frac_micros frac =
     (if frac = [] then Some 0
      else if length frac \<le> 6 then
        map_option (\<lambda>d. ((\<lambda>x. wrap64 (x * 10)) ^^ (6 - length frac)) d) (parse_int64 frac)
      else case parse_int64 (take 6 frac) of
             None \<Rightarrow> None
           | Some head \<Rightarrow>
               let m = (if five_up (frac ! 6) then wrap64 (head + 1) else head)
               in if parse_int64 (drop 6 frac) = None then None else Some m)"

definition parse_with :: "(string \<Rightarrow> int option) \<Rightarrow> int \<Rightarrow> string \<Rightarrow> money_error + int" where
  "parse_with fracf unit s0 =
     (case parse_head s0 of
        Inl e \<Rightarrow> Inl e
      | Inr (neg, s, whole, frac) \<Rightarrow>
          (case fracf frac of
             None \<Rightarrow> Inl (NotDecimalIn s)
           | Some part \<Rightarrow>
               (case scaled whole part unit of
                  None \<Rightarrow> Inl (DoesNotFit s)
                | Some t \<Rightarrow> Inr (if neg then wrap64 (- t) else t))))"

definition money_parse :: "string \<Rightarrow> money_error + cents" where
  "money_parse = parse_with frac_cents 100"

definition parse_micros :: "string \<Rightarrow> money_error + micros" where
  "parse_micros = parse_with frac_micros 1000000"

text \<open>\<open>MustParse\<close> panics on a bad literal: None is the panic.\<close>

definition must_parse :: "string \<Rightarrow> cents option" where
  "must_parse s = (case money_parse s of Inl _ \<Rightarrow> None | Inr c \<Rightarrow> Some c)"

section \<open>Micros\<close>

definition micros_cents :: "micros \<Rightarrow> cents" where
  "micros_cents m =
     (let neg = m < 0;
          v = (if neg then wrap64 (- m) else m);
          c = wrap64 (v + 5000) sdiv 10000
      in if neg then wrap64 (- c) else c)"

definition micros_string :: "micros \<Rightarrow> string" where
  "micros_string m =
     (if m \<le> -10000 \<or> m \<ge> 10000 \<or> m = 0 then cents_string (micros_cents m)
      else
        let neg = m < 0;
            v = (if neg then wrap64 (- m) else m);
            q = wrap64 (v + 50) sdiv 100;
            s = ''0.'' @ fmt_int 4 q
        in if neg then ''-'' @ s else s)"

section \<open>Sums\<close>

lemma cents_sum_wrap: "cents_sum vs = wrap64 (sum_list vs)"
  unfolding cents_sum_def by (rule i64.fold_wrap)

lemma cents_sum_in64 [simp]: "in64 (cents_sum vs)"
  by (simp add: cents_sum_wrap)

text \<open>
  A total is the same however it was reached: \<open>Sum\<close> of two lists with the same amounts
  gives the same cent, whatever the order, also where the 64-bit sum wraps.
\<close>

theorem sum_order_independent: "mset vs = mset ws \<Longrightarrow> cents_sum vs = cents_sum ws"
  unfolding cents_sum_def by (rule i64.fold_wrap_perm)

theorem sum_order_independent_witness:
  "cents_sum [max64, 5, -7] = cents_sum [-7, max64, 5] \<and> cents_sum [max64, 5, -7] = max64 - 2"
  using sum_order_independent [of "[max64, 5, -7]" "[-7, max64, 5]"]
  by (simp add: cents_sum_wrap wrap64_def max64_def add_mset_commute)

section \<open>Rounding half away from zero\<close>

definition half_up :: "int \<Rightarrow> int \<Rightarrow> int" where
  "half_up n d = (2 * n + d) div (2 * d)"

lemma half_up_scale: "0 < c \<Longrightarrow> half_up (c * n) (c * d) = half_up n d"
proof -
  assume "0 < c"
  have "2 * (c * n) + c * d = c * (2 * n + d)" and "2 * (c * d) = c * (2 * d)"
    by (simp_all add: algebra_simps)
  with \<open>0 < c\<close> show ?thesis by (simp add: half_up_def)
qed

lemma half_up_whole: "0 < d \<Longrightarrow> half_up (a * d + n) d = a + half_up n d"
proof -
  assume "0 < d"
  have "2 * (a * d + n) + d = (2 * n + d) + a * (2 * d)" by (simp add: algebra_simps)
  with \<open>0 < d\<close> show ?thesis
    unfolding half_up_def by (simp only:) (subst div_mult_self1, auto)
qed

lemma half_up_exact: "0 < d \<Longrightarrow> half_up (a * d) d = a"
  using half_up_whole [of d a 0] by (simp add: half_up_def div_pos_pos_trivial)

lemma half_up_nearest:
  assumes "0 < d"
  shows "2 * \<bar>half_up n d * d - n\<bar> \<le> d"
proof -
  define r where "r = (2 * n + d) mod (2 * d)"
  have "half_up n d * (2 * d) + r = 2 * n + d"
    unfolding half_up_def r_def by (rule div_mult_mod_eq)
  then have "2 * (half_up n d * d - n) = d - r" by (simp add: algebra_simps)
  moreover have "0 \<le> r" "r < 2 * d" using assms by (simp_all add: r_def)
  ultimately show ?thesis by arith
qed

lemma half_up_nonneg: "0 \<le> n \<Longrightarrow> 0 < d \<Longrightarrow> 0 \<le> half_up n d"
  by (simp add: half_up_def pos_imp_zdiv_nonneg_iff)

lemma five_up_digit: "is_digit c \<Longrightarrow> five_up c \<longleftrightarrow> 5 \<le> digit_val c"
  by (auto simp: five_up_def is_digit_def digit_val_def byte_def)

lemma half_up_fraction:
  assumes "is_digit x" and "list_all is_digit r"
  shows "half_up (decimal (x # r)) (10 ^ length (x # r)) = (if five_up x then 1 else 0)"
proof -
  define M where "M = (10 :: int) ^ length r"
  define y where "y = digit_val x * M"
  have r: "0 \<le> decimal r" "decimal r < M" using decimal_bounds [OF assms(2)] by (auto simp: M_def)
  have d: "decimal (x # r) = y + decimal r"
    using decimal_append [of "[x]" r] decimal_snoc [of "[]" x] by (simp add: y_def M_def)
  have x: "0 \<le> digit_val x" "digit_val x \<le> 9" using digit_val_bounds [OF assms(1)] by auto
  have h: "half_up (decimal (x # r)) (10 ^ length (x # r)) = (2 * decimal (x # r) + 10 * M) div (20 * M)"
    by (simp add: half_up_def M_def)
  show ?thesis
  proof (cases "5 \<le> digit_val x")
    case True
    then have "5 * M \<le> y" "y \<le> 9 * M"
      using x r unfolding y_def by (intro mult_right_mono; linarith)+
    then have "(2 * decimal (x # r) + 10 * M) div (20 * M) = 1"
      using r by (intro int_div_pos_eq [where r = "2 * decimal (x # r) - 10 * M"]) (simp_all add: d)
    with True assms h show ?thesis by (simp add: five_up_digit)
  next
    case False
    then have "y \<le> 4 * M" "0 \<le> y"
      using x r unfolding y_def by (intro mult_right_mono mult_nonneg_nonneg; linarith)+
    then have "(2 * decimal (x # r) + 10 * M) div (20 * M) = 0"
      using r by (intro div_pos_pos_trivial) (simp_all add: d)
    with False assms h show ?thesis by (simp add: five_up_digit)
  qed
qed

section \<open>The fraction\<close>

lemma frac_split:
  assumes "list_all is_digit f" and "k < length f"
  shows "half_up (decimal f * 10 ^ k) (10 ^ length f) =
    decimal (take k f) + (if five_up (f ! k) then 1 else 0)"
proof -
  have g: "drop k f = (f ! k) # drop (Suc k) f" using assms(2) by (simp add: Cons_nth_drop_Suc)
  have dig: "is_digit (f ! k)" "list_all is_digit (drop (Suc k) f)"
    using assms by (auto simp: list_all_iff dest: in_set_dropD)
  have len: "length f = k + length (drop k f)" using assms(2) by simp
  have "decimal f = decimal (take k f) * 10 ^ length (drop k f) + decimal (drop k f)"
    using decimal_append [of "take k f" "drop k f"] by simp
  then have "half_up (decimal f * 10 ^ k) (10 ^ length f) =
      half_up (10 ^ k * (decimal (take k f) * 10 ^ length (drop k f) + decimal (drop k f)))
        (10 ^ k * 10 ^ length (drop k f))"
    by (subst len) (simp add: power_add mult.commute del: length_drop)
  also have "\<dots> = decimal (take k f) + half_up (decimal (drop k f)) (10 ^ length (drop k f))"
    by (simp add: half_up_scale half_up_whole del: length_drop)
  also have "half_up (decimal (drop k f)) (10 ^ length (drop k f)) = (if five_up (f ! k) then 1 else 0)"
    unfolding g by (rule half_up_fraction [OF dig])
  finally show ?thesis .
qed

lemma frac_short:
  assumes "length f \<le> k"
  shows "half_up (decimal f * 10 ^ k) (10 ^ length f) = decimal f * 10 ^ (k - length f)"
proof -
  have "(10 :: int) ^ k = 10 ^ (k - length f) * 10 ^ length f"
    using assms by (simp add: power_add [symmetric])
  then have "half_up (decimal f * 10 ^ k) (10 ^ length f) =
      half_up ((decimal f * 10 ^ (k - length f)) * 10 ^ length f) (10 ^ length f)"
    by (simp add: mult.assoc)
  also have "\<dots> = decimal f * 10 ^ (k - length f)" by (rule half_up_exact) simp
  finally show ?thesis .
qed

lemma pow10_mono: "m \<le> n \<Longrightarrow> (10 :: int) ^ m \<le> 10 ^ n"
  by (simp add: power_increasing)

lemma parse_int64_short:
  assumes "list_all is_digit s" and "s \<noteq> []" and "length s \<le> 18"
  shows "parse_int64 s = Some (decimal s)"
proof -
  have "decimal s < 10 ^ length s" using decimal_bounds [OF assms(1)] by simp
  also have "\<dots> \<le> 10 ^ 18" using assms(3) by (rule pow10_mono)
  finally have "decimal s \<le> max64" by (simp add: max64_def)
  then show ?thesis using parse_int64_digits [OF assms(1,2)] by simp
qed

lemma list_all_take_drop:
  "list_all P xs \<Longrightarrow> list_all P (take n xs)" "list_all P xs \<Longrightarrow> list_all P (drop n xs)"
  by (auto simp: list_all_iff dest: in_set_takeD in_set_dropD)

lemma small_in64: "0 \<le> (x :: int) \<Longrightarrow> x \<le> 10 ^ 18 \<Longrightarrow> wrap64 x = x"
  by (rule wrap64_id) (simp add: in64_def min64_def max64_def)

lemma decimal_take_small:
  assumes "list_all is_digit f" and "k \<le> 6"
  shows "0 \<le> decimal (take k f)" and "decimal (take k f) + 1 \<le> 10 ^ 6"
proof -
  have b: "0 \<le> decimal (take k f)" "decimal (take k f) < 10 ^ length (take k f)"
    using decimal_bounds [OF list_all_take_drop(1) [OF assms(1)]] by auto
  then show "0 \<le> decimal (take k f)" by simp
  have "(10 :: int) ^ length (take k f) \<le> 10 ^ 6" using assms(2) by (intro pow10_mono) simp
  with b show "decimal (take k f) + 1 \<le> 10 ^ 6" by linarith
qed

lemma frac_cents_rounds:
  assumes "list_all is_digit f" and "length f \<le> 20"
  shows "frac_cents f = Some (half_up (decimal f * 100) (10 ^ length f))"
proof -
  consider "f = []" | "length f = 1" | "length f = 2" | "2 < length f"
    by (cases "length f") (auto simp: le_less_Suc_eq not_less, fastforce simp: numeral_2_eq_2)
  then show ?thesis
  proof cases
    case 2
    then have "decimal f < 10" "0 \<le> decimal f" using decimal_bounds [OF assms(1)] by auto
    moreover have "parse_int64 f = Some (decimal f)"
      using assms 2 by (intro parse_int64_short) auto
    ultimately show ?thesis
      using frac_short [of f 2] 2 by (auto simp: frac_cents_def small_in64)
  next
    case 3
    then have "parse_int64 f = Some (decimal f)"
      using assms by (intro parse_int64_short) auto
    then show ?thesis using frac_short [of f 2] 3 by (auto simp: frac_cents_def)
  next
    case 4
    have "parse_int64 (take 2 f) = Some (decimal (take 2 f))"
      using assms 4 by (intro parse_int64_short list_all_take_drop) auto
    moreover have "parse_int64 (drop 2 f) = Some (decimal (drop 2 f))"
      using assms 4 by (intro parse_int64_short list_all_take_drop) auto
    ultimately show ?thesis
      using frac_split [OF assms(1) 4] decimal_take_small [OF assms(1), of 2] 4
      by (auto simp: frac_cents_def small_in64)
  qed (simp add: frac_cents_def half_up_def)
qed

lemma times_ten_loop: "0 \<le> d \<Longrightarrow> d * 10 ^ k \<le> 10 ^ 18 \<Longrightarrow> ((\<lambda>x. wrap64 (x * 10)) ^^ k) d = d * 10 ^ k"
proof (induction k)
  case (Suc k)
  have "d * 10 ^ k \<le> d * 10 ^ Suc k" using Suc.prems(1) by (intro mult_left_mono) auto
  then have "((\<lambda>x. wrap64 (x * 10)) ^^ k) d = d * 10 ^ k"
    using Suc by linarith
  then show ?case
    using Suc.prems small_in64 [of "d * 10 ^ Suc k"] by (simp add: ac_simps)
qed simp

lemma frac_micros_rounds:
  assumes "list_all is_digit f" and "length f \<le> 24"
  shows "frac_micros f = Some (half_up (decimal f * 1000000) (10 ^ length f))"
proof (cases "length f \<le> 6")
  case False
  have "parse_int64 (take 6 f) = Some (decimal (take 6 f))"
    using assms False by (intro parse_int64_short list_all_take_drop) auto
  moreover have "parse_int64 (drop 6 f) = Some (decimal (drop 6 f))"
    using assms False by (intro parse_int64_short list_all_take_drop) auto
  ultimately show ?thesis
    using frac_split [OF assms(1), of 6] decimal_take_small [OF assms(1), of 6] False
    by (auto simp: frac_micros_def small_in64)
next
  case True
  show ?thesis
  proof (cases "f = []")
    case False
    have b: "0 \<le> decimal f" "decimal f < 10 ^ length f" using decimal_bounds [OF assms(1)] by auto
    then have "decimal f * 10 ^ (6 - length f) \<le> 10 ^ length f * 10 ^ (6 - length f)"
      by (intro mult_right_mono) auto
    also have "\<dots> = 10 ^ 6" using True by (simp flip: power_add)
    finally have "((\<lambda>x. wrap64 (x * 10)) ^^ (6 - length f)) (decimal f) = decimal f * 10 ^ (6 - length f)"
      using b by (intro times_ten_loop) simp_all
    then show ?thesis
      using True False frac_short [of f 6] parse_int64_short [OF assms(1) False]
      by (simp add: frac_micros_def)
  qed (simp add: frac_micros_def half_up_def)
qed

section \<open>Parsing a decimal\<close>

lemma div_greater_iff:
  assumes "0 < (u :: int)"
  shows "a div u < n \<longleftrightarrow> a < n * u"
proof -
  define q r where "q = a div u" and "r = a mod u"
  have a: "a = q * u + r" and r: "0 \<le> r" "r < u" using assms by (simp_all add: q_def r_def)
  show ?thesis
  proof (cases "q < n")
    case True
    then have "(q + 1) * u \<le> n * u" using assms by (intro mult_right_mono) auto
    then have "q * u + u \<le> n * u" by (simp add: distrib_right)
    then have "a < n * u" using r unfolding a by linarith
    with True show ?thesis by (simp add: q_def)
  next
    case False
    then have "n * u \<le> q * u" using assms by (intro mult_right_mono) auto
    then have "\<not> a < n * u" using r unfolding a by linarith
    with False show ?thesis by (simp add: q_def)
  qed
qed

lemma scaled_eq:
  assumes "0 \<le> whole" "0 \<le> part" "part \<le> max64" "0 < unit"
  shows "scaled whole part unit = (if whole * unit + part \<le> max64 then Some (whole * unit + part) else None)"
proof -
  have w: "wrap64 (max64 - part) = max64 - part"
    using assms by (intro wrap64_id) (simp add: in64_def min64_def max64_def)
  have "(max64 - part) sdiv unit = (max64 - part) div unit"
    using assms by (auto simp: signed_divide_int_def sgn_if)
  then have iff: "whole > wrap64 (max64 - part) sdiv unit \<longleftrightarrow> max64 < whole * unit + part"
    unfolding w using div_greater_iff [OF assms(4), of "max64 - part" whole] by auto
  have "wrap64 (wrap64 (whole * unit) + part) = whole * unit + part" if "whole * unit + part \<le> max64"
  proof -
    have "0 \<le> whole * unit + part" using assms by simp
    then show ?thesis
      using that unfolding wrap64_add_left by (intro wrap64_id) (simp add: in64_def min64_def)
  qed
  with iff assms show ?thesis by (auto simp: scaled_def)
qed

lemma scaled_bounds:
  assumes "scaled whole part unit = Some t" "0 < unit" "part \<le> max64"
  shows "0 \<le> t" and "t \<le> max64"
  using assms scaled_eq [of whole part unit] by (auto simp: scaled_def split: if_splits)

text \<open>The text \<open>i.f\<close> of a decimal amount and what the parsers make of its head.\<close>

definition amount_text :: "bool \<Rightarrow> string \<Rightarrow> string \<Rightarrow> string" where
  "amount_text neg i f = (if neg then ''-'' else []) @ i @ ''.'' @ f"

lemma digits_no_dot: "list_all is_digit s \<Longrightarrow> CHR ''.'' \<notin> set s"
  by (auto simp: list_all_iff is_digit_def byte_def)

lemma amount_text_trim:
  assumes "list_all is_digit i" "list_all is_digit f"
  shows "trim_space (amount_text neg i f) = amount_text neg i f"
proof (rule trim_space_solid)
  have dot: "solid (CHR ''.'')" "solid (CHR ''-'')" by (simp_all add: solid_def byte_def)
  show "amount_text neg i f \<noteq> []" by (simp add: amount_text_def)
  show "solid (hd (amount_text neg i f))"
    using assms dot by (cases i) (auto simp: amount_text_def digit_solid)
  show "solid (last (amount_text neg i f))"
    using assms dot by (cases f rule: rev_cases) (auto simp: amount_text_def digit_solid)
qed

lemma parse_head_amount:
  assumes "list_all is_digit i" "list_all is_digit f" "i \<noteq> [] \<or> f \<noteq> []" "decimal i \<le> max64"
  shows "parse_head (amount_text neg i f) = Inr (neg, i @ ''.'' @ f, decimal i, f)"
proof -
  have z: "parse_int64 (if i = [] then ''0'' else i) = Some (decimal i)"
    using assms parse_int64_digits [of i] parse_int64_digits [of "''0''"]
    by (auto simp: is_digit_def byte_def digit_val_def decimal_def max64_def)
  have h: "hd (i @ ''.'' @ f) \<noteq> CHR ''-'' \<and> hd (i @ ''.'' @ f) \<noteq> CHR ''+''"
    using assms(1) digit_not_sign by (cases i) auto
  have c: "cut_at (CHR ''.'') (i @ ''.'' @ f) = (i, f)"
    using digits_no_dot [OF assms(1)] by simp
  show ?thesis
    unfolding parse_head_def amount_text_trim [OF assms(1,2)] Let_def
    using assms(3) h z c by (cases neg) (auto simp: amount_text_def)
qed

definition go_sign :: "bool \<Rightarrow> int \<Rightarrow> int" where
  "go_sign neg x = (if neg then - x else x)"

lemma parse_with_rounds:
  assumes dig: "list_all is_digit i" "list_all is_digit f" "i \<noteq> [] \<or> f \<noteq> []"
    and frac: "fracf f = Some (half_up (decimal f * unit) (10 ^ length f))"
    and unit: "0 < unit"
    and fits: "half_up (decimal (i @ f) * unit) (10 ^ length f) \<le> max64"
  shows "parse_with fracf unit (amount_text neg i f) =
    Inr (go_sign neg (half_up (decimal (i @ f) * unit) (10 ^ length f)))"
proof -
  let ?p = "half_up (decimal f * unit) (10 ^ length f)"
  let ?t = "half_up (decimal (i @ f) * unit) (10 ^ length f)"
  have i: "0 \<le> decimal i" and f: "0 \<le> decimal f" using decimal_bounds dig by auto
  have "decimal (i @ f) * unit = (decimal i * unit) * 10 ^ length f + decimal f * unit"
    by (simp add: decimal_append algebra_simps)
  then have t: "?t = decimal i * unit + ?p" by (simp add: half_up_whole)
  have p: "0 \<le> ?p" using f unit by (intro half_up_nonneg) auto
  have "decimal i * 1 \<le> decimal i * unit" using i unit by (intro mult_left_mono) auto
  with fits t p have small: "decimal i \<le> max64" "?p \<le> max64" using i unit
    by (linarith, smt (verit) mult_nonneg_nonneg)
  have s: "scaled (decimal i) ?p unit = Some ?t"
    using scaled_eq [OF i p small(2) unit] fits t by simp
  have "0 \<le> ?t" using t p i unit by simp
  then have "wrap64 (- ?t) = - ?t"
    using fits by (intro wrap64_id) (simp add: in64_def min64_def max64_def)
  then show ?thesis
    using frac s by (simp add: parse_with_def parse_head_amount [OF dig small(1)] go_sign_def)
qed

lemma shift_2: "decimal f * (100 :: int) = decimal f * 10 ^ 2"
  and shift_6: "decimal f * (1000000 :: int) = decimal f * 10 ^ 6"
  by simp_all

lemma money_parse_amount:
  assumes "list_all is_digit i" and "list_all is_digit f" and "i \<noteq> [] \<or> f \<noteq> []"
    and "length f \<le> 20"
    and "half_up (decimal (i @ f) * 100) (10 ^ length f) \<le> max64"
  shows "money_parse (amount_text neg i f) =
    Inr (go_sign neg (half_up (decimal (i @ f) * 100) (10 ^ length f)))"
  unfolding money_parse_def using assms frac_cents_rounds by (intro parse_with_rounds) auto

text \<open>
  \<open>Parse\<close> reads every unsigned or negative decimal with up to twenty fraction digits as the
  nearest cent, half away from zero, whenever that amount fits in 64 bits.
\<close>

theorem money_parse_rounds:
  assumes "list_all is_digit i" and "list_all is_digit f" and "i \<noteq> [] \<or> f \<noteq> []"
    and "length f \<le> 20"
    and "half_up (decimal (i @ f) * 100) (10 ^ length f) \<le> max64"
  shows "money_parse (amount_text neg i f) =
    Inr (go_sign neg (half_up (decimal (i @ f) * 100) (10 ^ length f)))"
  using assms by (rule money_parse_amount)

theorem money_parse_rounds_witness:
  "money_parse (amount_text True ''482'' ''535'') = Inr (- 48254)"
proof -
  have "list_all is_digit ''482''" "list_all is_digit ''535''"
    "half_up (decimal (''482'' @ ''535'') * 100) (10 ^ length ''535'') = 48254"
    by code_simp+
  then show ?thesis
    using money_parse_rounds [of "''482''" "''535''" True] by (simp add: go_sign_def max64_def)
qed

text \<open>
  \<open>ParseMicros\<close> is the same rule six places down: the nearest micro-unit, half away from
  zero, for up to twenty-four fraction digits.
\<close>

theorem parse_micros_rounds:
  assumes "list_all is_digit i" and "list_all is_digit f" and "i \<noteq> [] \<or> f \<noteq> []"
    and "length f \<le> 24"
    and "half_up (decimal (i @ f) * 1000000) (10 ^ length f) \<le> max64"
  shows "parse_micros (amount_text neg i f) =
    Inr (go_sign neg (half_up (decimal (i @ f) * 1000000) (10 ^ length f)))"
  unfolding parse_micros_def using assms frac_micros_rounds by (intro parse_with_rounds) auto

theorem parse_micros_rounds_witness:
  "parse_micros (amount_text False ''0'' ''0034995'') = Inr 3500"
proof -
  have "list_all is_digit ''0''" "list_all is_digit ''0034995''"
    "half_up (decimal (''0'' @ ''0034995'') * 1000000) (10 ^ length ''0034995'') = 3500"
    by code_simp+
  then show ?thesis
    using parse_micros_rounds [of "''0''" "''0034995''" False] by (simp add: go_sign_def max64_def)
qed

lemma frac_cents_max: "frac_cents f = Some p \<Longrightarrow> p \<le> max64"
  and frac_micros_max: "frac_micros f = Some p \<Longrightarrow> p \<le> max64"
proof -
  have w: "wrap64 x \<le> max64" for x using in64_wrap64 [of x] by (simp only: in64_def)
  have q: "parse_int64 s = Some v \<Longrightarrow> v \<le> max64" for s v
    using parse_int64_in64 [of s v] by (simp add: in64_def)
  have l: "v \<le> max64 \<Longrightarrow> ((\<lambda>x. wrap64 (x * 10)) ^^ k) v \<le> max64" for k v
    by (cases k) (simp_all add: w)
  show "frac_cents f = Some p \<Longrightarrow> p \<le> max64"
    using w q by (auto simp: frac_cents_def Let_def max64_def split: if_splits option.splits)
  show "frac_micros f = Some p \<Longrightarrow> p \<le> max64"
    using w q l by (auto simp: frac_micros_def Let_def max64_def split: if_splits option.splits)
qed

text \<open>
  An amount \<open>Parse\<close> or \<open>ParseMicros\<close> returns, from any text at all, is within plus or minus
  the largest \<open>int64\<close>: never the most negative one, so no negation downstream of a parsed amount
  can wrap.
\<close>

theorem parsed_amount_negates:
  assumes "money_parse s = Inr c \<or> parse_micros s = Inr c"
  shows "- max64 \<le> c \<and> c \<le> max64 \<and> wrap64 (- c) = - c"
proof -
  have "- max64 \<le> c \<and> c \<le> max64"
    if h: "parse_with fracf unit s = Inr c" and u: "0 < unit"
      and f: "\<And>f p. fracf f = Some p \<Longrightarrow> p \<le> max64" for fracf unit
  proof -
    obtain neg s' whole frac part t where
      *: "fracf frac = Some part" "scaled whole part unit = Some t"
         "c = (if neg then wrap64 (- t) else t)"
      using h by (auto simp: parse_with_def split: sum.splits option.splits)
    have t: "0 \<le> t" "t \<le> max64" using scaled_bounds [OF *(2) u f [OF *(1)]] by auto
    then have "wrap64 (- t) = - t" by (intro wrap64_id) (simp add: in64_def min64_def max64_def)
    with *(3) t show ?thesis by auto
  qed
  then have "- max64 \<le> c \<and> c \<le> max64"
    using assms frac_cents_max frac_micros_max unfolding money_parse_def parse_micros_def
    by (metis zero_less_numeral)
  then show ?thesis by (auto intro!: wrap64_id simp: in64_def min64_def max64_def)
qed

theorem parsed_amount_negates_witness:
  "money_parse ''-0.05'' = Inr (-5) \<and> wrap64 (- (-5)) = 5"
proof -
  have p: "money_parse ''-0.05'' = Inr (-5)" by code_simp
  show ?thesis using p parsed_amount_negates [of "''-0.05''" "-5"] by simp
qed

section \<open>Printing\<close>

lemma show_nat_one: "n < 10 \<Longrightarrow> show_nat n = [digit_char n]"
  and show_nat_two: "10 \<le> n \<Longrightarrow> n < 100 \<Longrightarrow> show_nat n = [digit_char (n div 10), digit_char (n mod 10)]"
proof -
  show *: "n < 10 \<Longrightarrow> show_nat n = [digit_char n]" for n by (subst show_nat.simps) simp
  show "10 \<le> n \<Longrightarrow> n < 100 \<Longrightarrow> show_nat n = [digit_char (n div 10), digit_char (n mod 10)]"
    by (subst show_nat.simps) (simp add: *)
qed

lemma zero_pad_two:
  assumes "n < 100"
  shows "list_all is_digit (zero_pad 2 (show_nat n)) \<and> length (zero_pad 2 (show_nat n)) = 2 \<and>
    decimal (zero_pad 2 (show_nat n)) = int n"
proof (cases "n < 10")
  case True
  then show ?thesis
    by (simp add: zero_pad_def show_nat_one numeral_2_eq_2)
      (simp add: decimal_def is_digit_def byte_def digit_val_def digit_char_def of_char_of)
next
  case False
  with assms show ?thesis using show_nat_digits [of n] by (simp add: zero_pad_def show_nat_two)
qed

lemma cents_string_text:
  assumes "- max64 \<le> c" and "c \<le> max64"
  shows "cents_string c =
    amount_text (c < 0) (show_nat (nat \<bar>c\<bar> div 100)) (zero_pad 2 (show_nat (nat \<bar>c\<bar> mod 100)))"
proof -
  have v: "(if c < 0 then wrap64 (- c) else c) = \<bar>c\<bar>"
    using assms by (auto intro!: wrap64_id simp: in64_def min64_def max64_def)
  have d: "\<bar>c\<bar> sdiv 100 = int (nat \<bar>c\<bar> div 100)" "\<bar>c\<bar> smod 100 = int (nat \<bar>c\<bar> mod 100)"
    by (simp_all add: signed_divide_int_def signed_modulo_int_def sgn_if of_nat_div of_nat_mod
        minus_div_mult_eq_mod [symmetric])
  show ?thesis
    unfolding cents_string_def Let_def v d
    by (simp add: fmt_int_def amount_text_def zero_pad_def)
qed

text \<open>
  What \<open>String\<close> prints, \<open>Parse\<close> reads back: the round trip is the identity on every amount
  but the most negative \<open>int64\<close>.
\<close>

theorem cents_roundtrip:
  assumes "- max64 \<le> c" and "c \<le> max64"
  shows "money_parse (cents_string c) = Inr c"
proof -
  let ?i = "show_nat (nat \<bar>c\<bar> div 100)" and ?f = "zero_pad 2 (show_nat (nat \<bar>c\<bar> mod 100))"
  have f: "list_all is_digit ?f" "length ?f = 2" "decimal ?f = int (nat \<bar>c\<bar> mod 100)"
    using zero_pad_two [of "nat \<bar>c\<bar> mod 100"] by auto
  have "decimal (?i @ ?f) = int (nat \<bar>c\<bar> div 100 * 100 + nat \<bar>c\<bar> mod 100)"
    unfolding of_nat_add of_nat_mult decimal_append f(2) f(3) by simp
  then have "decimal (?i @ ?f) = \<bar>c\<bar>" by (simp only: div_mult_mod_eq) simp
  then have h: "half_up (decimal (?i @ ?f) * 100) (10 ^ length ?f) = \<bar>c\<bar>"
    using f(2) half_up_exact [of 100 "\<bar>c\<bar>"] by simp
  have "\<bar>c\<bar> \<le> max64" using assms by simp
  then have "money_parse (amount_text (c < 0) ?i ?f) = Inr (go_sign (c < 0) \<bar>c\<bar>)"
    using f(1,2) money_parse_amount [of ?i ?f "c < 0", unfolded h] by simp
  moreover have "go_sign (c < 0) \<bar>c\<bar> = c" by (simp add: go_sign_def)
  ultimately show ?thesis unfolding cents_string_text [OF assms] by simp
qed

theorem cents_roundtrip_witness: "money_parse (cents_string (-387135)) = Inr (-387135)"
  by (rule cents_roundtrip) (simp_all add: max64_def)

section \<open>Rates and sub-cent sums\<close>

lemma sdiv_nonneg: "0 \<le> a \<Longrightarrow> 0 < b \<Longrightarrow> a sdiv b = a div (b :: int)"
  by (auto simp: signed_divide_int_def sgn_if)

lemma half_step:
  assumes "0 \<le> a" "a \<le> max64 - d" "0 < d"
  shows "wrap64 (a + d) sdiv (2 * d) = half_up a (2 * d)"
proof -
  have "wrap64 (a + d) = a + d"
    using assms by (intro wrap64_id) (simp add: in64_def min64_def)
  moreover have "(a + d) div (2 * d) = (2 * (a + d)) div (2 * (2 * d))"
    by (subst div_mult_mult1) simp_all
  ultimately show ?thesis
    using assms by (simp add: sdiv_nonneg half_up_def algebra_simps)
qed

lemma half_up_le: "0 \<le> a \<Longrightarrow> 1 < d \<Longrightarrow> half_up a d \<le> a + 1"
proof -
  assume a: "0 \<le> a" "1 < d"
  have "2 * a + d < (a + 2) * (2 * d)"
    using a mult_left_mono [of 1 d "2 * a"] by (simp add: algebra_simps)
  then have "half_up a d < a + 2"
    using a div_greater_iff [of "2 * d" "2 * a + d" "a + 2"] by (simp add: half_up_def)
  then show ?thesis by simp
qed

lemma away_from_zero:
  assumes "\<bar>n\<bar> \<le> max64 - 5000"
  shows "(if n < 0 then wrap64 (- (wrap64 (wrap64 (- n) + 5000) sdiv 10000))
          else wrap64 (n + 5000) sdiv 10000) = go_sign (n < 0) (half_up \<bar>n\<bar> 10000)"
proof (cases "n < 0")
  case True
  then have w: "wrap64 (- n) = \<bar>n\<bar>"
    using assms by (intro trans [OF wrap64_id]) (simp_all add: in64_def min64_def max64_def)
  have h: "wrap64 (\<bar>n\<bar> + 5000) sdiv 10000 = half_up \<bar>n\<bar> 10000"
    using half_step [of "\<bar>n\<bar>" 5000] assms by simp
  have "0 \<le> half_up \<bar>n\<bar> 10000" "half_up \<bar>n\<bar> 10000 \<le> \<bar>n\<bar> + 1"
    by (simp_all add: half_up_nonneg half_up_le)
  then have "wrap64 (- half_up \<bar>n\<bar> 10000) = - half_up \<bar>n\<bar> 10000"
    using assms by (intro wrap64_id) (simp add: in64_def min64_def max64_def)
  with True show ?thesis unfolding w h go_sign_def by simp
next
  case False
  then show ?thesis using half_step [of n 5000] assms by (simp add: go_sign_def)
qed

lemma go_sign_nearest: "2 * \<bar>go_sign (n < 0) (half_up \<bar>n\<bar> 10000) * 10000 - n\<bar> \<le> 10000"
  using half_up_nearest [of 10000 "\<bar>n\<bar>"] by (auto simp: go_sign_def)

lemma go_sign_neg: "n \<noteq> 0 \<Longrightarrow> go_sign (- n < 0) (half_up \<bar>n\<bar> d) = - go_sign (n < 0) (half_up \<bar>n\<bar> d)"
  by (auto simp: go_sign_def)

text \<open>
  A rate in basis points is applied exactly: whenever the product stays inside 64 bits (less
  the half the rounding adds), \<open>Bps\<close> is the product divided by ten thousand, rounded half away
  from zero, at most half a cent from the true value.
\<close>

theorem bps_nearest:
  assumes "\<bar>c * bps\<bar> \<le> max64 - 5000"
  shows "cents_bps c bps = go_sign (c * bps < 0) (half_up \<bar>c * bps\<bar> 10000) \<and>
    2 * \<bar>cents_bps c bps * 10000 - c * bps\<bar> \<le> 10000"
proof -
  have "wrap64 (c * bps) = c * bps"
    using assms unfolding abs_le_iff by (intro wrap64_id) (simp add: in64_def min64_def max64_def)
  then have "cents_bps c bps = go_sign (c * bps < 0) (half_up \<bar>c * bps\<bar> 10000)"
    using away_from_zero [OF assms] by (simp add: cents_bps_def Let_def split: if_splits)
  then show ?thesis using go_sign_nearest by simp
qed

theorem bps_nearest_witness: "2 * \<bar>cents_bps 12345 10600 * 10000 - 12345 * 10600\<bar> \<le> 10000"
  using bps_nearest [of 12345 10600] unfolding max64_def by force

text \<open>
  The one place a sub-cent amount rounds: \<open>Micros.Cents\<close> of a sum of calls is within half a
  cent of the sum, rounded half away from zero, symmetric in the sign; ten calls at 0.35 cent
  come to three and a half cents, rounded up to four, and not to zero.
\<close>

theorem micros_cents_nearest:
  assumes "\<bar>m\<bar> \<le> max64 - 5000"
  shows "micros_cents m = go_sign (m < 0) (half_up \<bar>m\<bar> 10000) \<and>
    2 * \<bar>micros_cents m * 10000 - m\<bar> \<le> 10000 \<and> micros_cents (- m) = - micros_cents m"
proof -
  have *: "micros_cents k = go_sign (k < 0) (half_up \<bar>k\<bar> 10000)" if "\<bar>k\<bar> \<le> max64 - 5000" for k
    using away_from_zero [OF that] by (simp add: micros_cents_def Let_def split: if_splits)
  have "micros_cents (- m) = - micros_cents m"
    using * [OF assms] * [of "- m"] assms go_sign_neg [of m 10000]
    by (cases "m = 0") (simp_all add: go_sign_def half_up_def)
  then show ?thesis using * [OF assms] go_sign_nearest by simp
qed

theorem micros_cents_nearest_witness:
  "micros_cents (cents_sum (replicate 10 3500)) = 4 \<and> cents_sum (replicate 10 (micros_cents 3500)) = 0"
  using micros_cents_nearest [of 35000] by (simp add: cents_sum_wrap max64_def go_sign_def half_up_def
      micros_cents_def wrap64_def signed_divide_int_def sum_list_replicate)

section \<open>A sign inside the fraction\<close>

text \<open>
  The parser refuses a second sign before the number and not one after the dot: because
  \<open>ParseInt\<close> reads a sign of its own, \<open>Parse\<close> takes a plus followed by one digit as a
  two-digit fraction, and \<open>12.+5\<close> comes back as 12.05 rather than being refused.
\<close>

theorem parse_takes_inner_sign:
  assumes "list_all is_digit i" and "i \<noteq> []" and "is_digit d" and "decimal i \<le> 10 ^ 15"
  shows "money_parse (i @ ''.+'' @ [d]) = Inr (decimal i * 100 + digit_val d)"
proof -
  have i: "0 \<le> decimal i" using decimal_bounds [OF assms(1)] by simp
  have d: "0 \<le> digit_val d" "digit_val d \<le> 9" using digit_val_bounds [OF assms(3)] by auto
  have hi: "solid (hd i)" "hd i \<noteq> CHR ''-''" "hd i \<noteq> CHR ''+''"
    using assms(1,2) digit_not_sign digit_solid by (cases i; force)+
  have t: "trim_space (i @ ''.+'' @ [d]) = i @ ''.+'' @ [d]"
    using assms hi digit_solid [OF assms(3)] by (intro trim_space_solid) auto
  have c: "cut_at (CHR ''.'') (i @ ''.+'' @ [d]) = (i, CHR ''+'' # [d])"
    using digits_no_dot [OF assms(1)] by simp
  have "parse_int64 i = Some (decimal i)"
    using parse_int64_digits [OF assms(1,2)] assms(4) by (simp add: max64_def)
  then have h: "parse_head (i @ ''.+'' @ [d]) = Inr (False, i @ ''.+'' @ [d], decimal i, CHR ''+'' # [d])"
    unfolding parse_head_def t Let_def using c hi assms(2) by simp
  have "frac_cents (CHR ''+'' # [d]) = Some (digit_val d)"
    using assms(3) d by (simp add: frac_cents_def parse_int64_def parse_uint_def decimal_def in64_def
        min64_def max64_def)
  moreover have "scaled (decimal i) (digit_val d) 100 = Some (decimal i * 100 + digit_val d)"
    using scaled_eq [OF i d(1), of 100] d assms(4) by (simp add: max64_def)
  ultimately show ?thesis unfolding money_parse_def parse_with_def h by simp
qed

theorem parse_takes_inner_sign_witness: "money_parse ''12.+5'' = Inr 1205"
proof -
  have "list_all is_digit ''12''" "is_digit (CHR ''5'')" "decimal ''12'' = 12" "digit_val (CHR ''5'') = 5"
    by code_simp+
  then show ?thesis using parse_takes_inner_sign [of "''12''" "CHR ''5''"] by simp
qed

end
