(* ===== verification/Runes.thy ===== *)
theory Runes
  imports Prelude
begin

text \<open>
  UTF-8 as Go decodes it (\<open>for _, r := range s\<close>, \<open>utf8.ValidString\<close>) and the Unicode classes
  the code asks about; then \<open>internal/plainname/plainname.go\<close>, the one rule for a name the
  console prints after reading it from a file it does not control.
\<close>

section \<open>Decoding\<close>

text \<open>
  One step of the decoder: the rune and the rest, or None for a byte that starts no valid
  encoding, which Go reads as U+FFFD of width one.
\<close>

definition cont :: "int \<Rightarrow> bool" where
  "cont b \<longleftrightarrow> 0x80 \<le> b \<and> b \<le> 0xBF"

fun next_rune :: "int list \<Rightarrow> (int \<times> int list) option" where
  "next_rune [] = None"
| "next_rune (a # s) =
     (if a < 0x80 then Some (a, s)
      else if 0xC2 \<le> a \<and> a \<le> 0xDF then
        (case s of b # s' \<Rightarrow> if cont b then Some ((a - 0xC0) * 64 + (b - 0x80), s') else None | _ \<Rightarrow> None)
      else if 0xE0 \<le> a \<and> a \<le> 0xEF then
        (case s of b # c # s' \<Rightarrow>
           if cont b \<and> cont c \<and> (a = 0xE0 \<longrightarrow> 0xA0 \<le> b) \<and> (a = 0xED \<longrightarrow> b \<le> 0x9F)
           then Some ((a - 0xE0) * 4096 + (b - 0x80) * 64 + (c - 0x80), s') else None | _ \<Rightarrow> None)
      else if 0xF0 \<le> a \<and> a \<le> 0xF4 then
        (case s of b # c # d # s' \<Rightarrow>
           if cont b \<and> cont c \<and> cont d \<and> (a = 0xF0 \<longrightarrow> 0x90 \<le> b) \<and> (a = 0xF4 \<longrightarrow> b \<le> 0x8F)
           then Some ((a - 0xF0) * 262144 + (b - 0x80) * 4096 + (c - 0x80) * 64 + (d - 0x80), s')
           else None | _ \<Rightarrow> None)
      else None)"

lemma next_rune_Cons:
  assumes "next_rune (a # s) = Some (r, t)"
  shows "\<exists>p. s = p @ t \<and> (a < 0x80 \<and> p = [] \<and> r = a \<or> 0x80 \<le> a \<and> list_all cont p)"
proof -
  consider "a < 0x80" | "0x80 \<le> a" "a \<le> 0xDF" | "0xDF < a" "a \<le> 0xEF" | "0xEF < a" by linarith
  then show ?thesis
  proof cases
    case 1
    then show ?thesis using assms by auto
  next
    case 2
    then show ?thesis using assms by (auto split: if_splits list.splits)
  next
    case 3
    then show ?thesis using assms by (auto split: if_splits list.splits)
  next
    case 4
    then show ?thesis using assms by (auto split: if_splits list.splits)
  qed
qed

declare next_rune.simps [simp del]

lemma next_rune_suffix: "next_rune (a # s) = Some (r, t) \<Longrightarrow> length t < Suc (length s)"
  using next_rune_Cons [of a s r t] by auto

text \<open>The runes of a byte sequence: None marks each invalid byte.\<close>

function rune_list :: "int list \<Rightarrow> int option list" where
  "rune_list s =
     (case s of [] \<Rightarrow> []
      | a # rest \<Rightarrow> (case next_rune s of
                      Some (r, t) \<Rightarrow> Some r # rune_list t
                    | None \<Rightarrow> None # rune_list rest))"
  by pat_completeness auto
termination
  by (relation "measure length") (auto dest: next_rune_suffix)

declare rune_list.simps [simp del]

definition runes :: "string \<Rightarrow> int option list" where
  "runes s = rune_list (map of_char s)"

definition valid_text :: "string \<Rightarrow> bool" where
  "valid_text s \<longleftrightarrow> list_all (\<lambda>r. r \<noteq> None) (runes s)"

section \<open>Classes\<close>

definition is_control :: "int \<Rightarrow> bool" where
  "is_control r \<longleftrightarrow> r < 0x20 \<or> (0x7F \<le> r \<and> r < 0xA0)"

definition in_ranges :: "(int \<times> int) list \<Rightarrow> int \<Rightarrow> bool" where
  "in_ranges rs r \<longleftrightarrow> list_ex (\<lambda>(lo, hi). lo \<le> r \<and> r \<le> hi) rs"

text \<open>The Unicode category Cf (format): the ranges of the standard's table.\<close>

definition cf_ranges :: "(int \<times> int) list" where
  "cf_ranges =
     [(0xAD, 0xAD), (0x600, 0x605), (0x61C, 0x61C), (0x6DD, 0x6DD), (0x70F, 0x70F),
      (0x890, 0x891), (0x8E2, 0x8E2), (0x180E, 0x180E), (0x200B, 0x200F), (0x202A, 0x202E),
      (0x2060, 0x2064), (0x2066, 0x206F), (0xFEFF, 0xFEFF), (0xFFF9, 0xFFFB),
      (0x110BD, 0x110BD), (0x110CD, 0x110CD), (0x13430, 0x1343F), (0x1BCA0, 0x1BCA3),
      (0x1D173, 0x1D17A), (0xE0001, 0xE0001), (0xE0020, 0xE007F)]"

definition is_space_rune :: "int \<Rightarrow> bool" where
  "is_space_rune r \<longleftrightarrow> in_ranges [(9, 13), (0x20, 0x20), (0x85, 0x85), (0xA0, 0xA0), (0x1680, 0x1680),
     (0x2000, 0x200A), (0x2028, 0x2029), (0x202F, 0x202F), (0x205F, 0x205F), (0x3000, 0x3000)] r"

text \<open>A \<open>range\<close> loop sees an invalid byte as U+FFFD, which is in none of these classes.\<close>

definition rune_value :: "int option \<Rightarrow> int" where
  "rune_value r = (case r of None \<Rightarrow> 0xFFFD | Some v \<Rightarrow> v)"

definition has_rune :: "(int \<Rightarrow> bool) \<Rightarrow> string \<Rightarrow> bool" where
  "has_rune P s \<longleftrightarrow> list_ex (P \<circ> rune_value) (runes s)"

section \<open>plainname.Check\<close>

definition unit_max_bytes :: nat where "unit_max_bytes = 128"

datatype name_fault = OverLimit nat | NotText | HiddenCharacter | FormulaStart char

definition hidden_rune :: "int \<Rightarrow> bool" where
  "hidden_rune r \<longleftrightarrow> is_control r \<or> in_ranges cf_ranges r \<or> r = 0x2028 \<or> r = 0x2029"

definition plain_check :: "string \<Rightarrow> nat \<Rightarrow> name_fault option" where
  "plain_check s limit =
     (if length s > limit then Some (OverLimit (length s))
      else if \<not> valid_text s then Some NotText
      else if has_rune hidden_rune s then Some HiddenCharacter
      else if s \<noteq> [] \<and> hd s \<in> set ''=+-@'' then Some (FormulaStart (hd s))
      else None)"

text \<open>An ASCII byte of any byte sequence is decoded as itself.\<close>

lemma next_rune_keeps_ascii:
  "next_rune (a # s) = Some (r, t) \<Longrightarrow> b < 0x80 \<Longrightarrow> b \<in> set (a # s) \<Longrightarrow> b = r \<or> b \<in> set t"
  using next_rune_Cons [of a s r t] by (fastforce simp: list_all_iff cont_def)

lemma rune_list_ascii: "b \<in> set s \<Longrightarrow> b < 0x80 \<Longrightarrow> Some b \<in> set (rune_list s)"
proof (induction s rule: rune_list.induct)
  case (1 s)
  obtain a rest where s: "s = a # rest" using "1.prems"(1) by (cases s) auto
  show ?case
  proof (cases "next_rune s")
    case None
    then have "b \<in> set rest" using "1.prems" by (auto simp: s next_rune.simps split: if_splits)
    then have "Some b \<in> set (rune_list rest)" using "1.IH"(1) [OF s None] "1.prems"(2) by simp
    with None show ?thesis by (subst rune_list.simps) (simp add: s)
  next
    case (Some p)
    obtain r t where p: "p = (r, t)" by fastforce
    then have "b = r \<or> b \<in> set t" using next_rune_keeps_ascii Some "1.prems" unfolding s by blast
    then have "b = r \<or> Some b \<in> set (rune_list t)" using "1.IH"(2) [OF s Some p [symmetric]] "1.prems"(2) by blast
    with Some p show ?thesis by (subst rune_list.simps) (auto simp: s)
  qed
qed

text \<open>
  A name \<open>Check\<close> passes carries no byte that could break the line or the cell it is printed
  in: whatever else its bytes decode to, none of them is a control byte, and the first one does
  not open a formula.
\<close>

theorem plain_name_is_one_cell:
  assumes "plain_check s limit = None"
  shows "length s \<le> limit \<and> (\<forall>c \<in> set s. 32 \<le> byte c \<and> byte c \<noteq> 127) \<and>
    (s = [] \<or> hd s \<notin> set ''=+-@'')"
proof -
  have ok: "length s \<le> limit" "\<not> has_rune hidden_rune s" "s = [] \<or> hd s \<notin> set ''=+-@''"
    using assms by (auto simp: plain_check_def split: if_splits)
  have "32 \<le> byte c \<and> byte c \<noteq> 127" if "c \<in> set s" for c
  proof (rule ccontr)
    assume bad: "\<not> (32 \<le> byte c \<and> byte c \<noteq> 127)"
    have b: "(of_char c :: int) = int (byte c)" by (simp add: byte_def of_nat_of_char)
    from bad have "int (byte c) < 0x80" by auto
    then have "Some (int (byte c)) \<in> set (runes s)"
      using that unfolding runes_def b [symmetric] by (intro rune_list_ascii) auto
    moreover have "hidden_rune (int (byte c))" using bad by (auto simp: hidden_rune_def is_control_def)
    ultimately have "has_rune hidden_rune s"
      unfolding has_rune_def list_ex_iff by (force simp: rune_value_def)
    with ok(2) show False by simp
  qed
  with ok show ?thesis by blast
qed

theorem plain_name_is_one_cell_witness:
  "plain_check ''checkout-eu'' 128 = None \<and> list_all (\<lambda>c. 32 \<le> byte c \<and> byte c \<noteq> 127) ''checkout-eu''"
proof -
  have p: "plain_check ''checkout-eu'' 128 = None" by code_simp
  from plain_name_is_one_cell [OF p] show ?thesis using p by (simp only: list_all_iff) blast
qed

end
