(* ===== verification/Roles.thy ===== *)
theory Roles
  imports Calendar Runes
begin

text \<open>
  The mandate: \<open>internal/crew/roles.go\<close> and the data it embeds, \<open>internal/crew/roles.yaml\<close>
  (every field the code decides by; the prose fields are display text). The operations take the
  loaded file as an argument, where the code reads the package variable \<open>roles\<close>, so that the
  lemmas hold of any file the loader accepts; \<open>roles_yaml\<close> is the one in the repository.
\<close>

section \<open>Types\<close>

record job_class =
  jc_id :: string
  jc_owner :: string
  jc_up_to :: string

record threshold =
  th_name :: string
  th_value :: string
  th_cents :: int
  th_provenance :: string

record job_description =
  jd_family :: string
  jd_link :: string
  jd_matches :: "string list"
  jd_decides_alone :: "string list"
  jd_hands_up :: "string list"
  jd_hands_to_owner :: "string list"

record never_binding =
  nb_verb :: string
  nb_test :: string

record roles_file =
  rf_never :: "string list"
  rf_never_bound :: "never_binding list"
  rf_thresholds :: "threshold list"
  rf_classes :: "job_class list"
  rf_roles :: "job_description list"

section \<open>ValidProvenance\<close>

datatype provenance_fault =
  ProvenanceEmpty | ProvenancePadded | ProvenanceLong nat | ProvenanceControl
| DecidedNeedsDate | MeasuredNeedsHow | NotAMarker

definition max_provenance_len :: nat where "max_provenance_len = 200"

definition is_date :: "string \<Rightarrow> bool" where
  "is_date d \<longleftrightarrow> parse_date d \<noteq> None"

text \<open>\<open>strings.LastIndex(s, " ")\<close>: what stands before and after the last blank.\<close>

definition cut_last_blank :: "string \<Rightarrow> (string \<times> string) option" where
  "cut_last_blank s =
     (if CHR '' '' \<in> set s
      then Some (rev (drop 1 (dropWhile (\<lambda>c. c \<noteq> CHR '' '') (rev s))),
                 rev (takeWhile (\<lambda>c. c \<noteq> CHR '' '') (rev s)))
      else None)"

definition valid_provenance :: "string \<Rightarrow> provenance_fault option" where
  "valid_provenance s =
     (if s = [] then Some ProvenanceEmpty
      else if s \<noteq> trim_space s then Some ProvenancePadded
      else if length s > max_provenance_len then Some (ProvenanceLong (length s))
      else if has_rune is_control s then Some ProvenanceControl
      else if s = ''@claude'' \<or> prefix ''@claude '' s then None
      else if prefix ''@decided '' s then
        (let rest = drop 9 s in
         if length rest \<ge> 10 \<and> is_date (take 10 rest)
            \<and> (length rest = 10 \<or> rest ! 10 = CHR '','' \<or> rest ! 10 = CHR '' '')
         then None else Some DecidedNeedsDate)
      else if prefix ''@measured '' s then
        (let rest = drop 10 s in
         case cut_last_blank rest of
           None \<Rightarrow> Some MeasuredNeedsHow
         | Some (how, date) \<Rightarrow>
             if how \<noteq> [] \<and> trim_space how \<noteq> [] \<and> is_date date then None
             else Some MeasuredNeedsHow)
      else Some NotAMarker)"

section \<open>mustLoadRoles\<close>

datatype roles_panic =
  ClassTwice string | BadProvenance string provenance_fault | UnknownThreshold string string
| UnlistedNever string | NoTestNamed string | UnknownRoleClass string string

text \<open>The first entry a loop of the loader stops at.\<close>

fun first_fault :: "('a \<Rightarrow> 'e option) \<Rightarrow> 'a list \<Rightarrow> 'e option" where
  "first_fault f [] = None"
| "first_fault f (x # xs) = (case f x of None \<Rightarrow> first_fault f xs | Some e \<Rightarrow> Some e)"

lemma first_fault_None: "first_fault f xs = None \<longleftrightarrow> (\<forall>x \<in> set xs. f x = None)"
  by (induction xs) (auto split: option.splits)

fun class_twice :: "string set \<Rightarrow> job_class list \<Rightarrow> roles_panic option" where
  "class_twice seen [] = None"
| "class_twice seen (c # cs) =
     (if jc_id c \<in> seen then Some (ClassTwice (jc_id c))
      else class_twice (insert (jc_id c) seen) cs)"

lemma class_twice_None:
  "class_twice seen cs = None \<longleftrightarrow> distinct (map jc_id cs) \<and> set (map jc_id cs) \<inter> seen = {}"
  by (induction cs arbitrary: seen) auto

definition must_load_roles :: "roles_file \<Rightarrow> roles_panic + roles_file" where
  "must_load_roles rf =
     (let class_ids = set (map jc_id (rf_classes rf));
          threshold_names = set (map th_name (rf_thresholds rf));
          never_clauses = set (rf_never rf)
      in case class_twice {} (rf_classes rf) of Some e \<Rightarrow> Inl e
      | None \<Rightarrow>
        (case first_fault (\<lambda>t. map_option (BadProvenance (th_name t)) (valid_provenance (th_provenance t)))
                (rf_thresholds rf) of Some e \<Rightarrow> Inl e
      | None \<Rightarrow>
        (case first_fault (\<lambda>c. if jc_up_to c \<noteq> [] \<and> jc_up_to c \<notin> threshold_names
                               then Some (UnknownThreshold (jc_id c) (jc_up_to c)) else None)
                (rf_classes rf) of Some e \<Rightarrow> Inl e
      | None \<Rightarrow>
        (case first_fault (\<lambda>nb. if nb_verb nb \<notin> never_clauses then Some (UnlistedNever (nb_verb nb))
                                else if nb_test nb = [] then Some (NoTestNamed (nb_verb nb)) else None)
                (rf_never_bound rf) of Some e \<Rightarrow> Inl e
      | None \<Rightarrow>
        (case first_fault (\<lambda>r. first_fault (\<lambda>c. if c \<notin> class_ids then Some (UnknownRoleClass (jd_family r) c) else None)
                                 (jd_decides_alone r @ jd_hands_up r @ jd_hands_to_owner r))
                (rf_roles rf) of Some e \<Rightarrow> Inl e
      | None \<Rightarrow> Inr rf)))))"

section \<open>Lookups\<close>

text \<open>
  \<open>path.Match\<close> on a pattern of literal characters and \<open>*\<close>, which matches any run of bytes
  without a slash. The other metacharacters stand in no pattern of the file
  (\<open>patterns_are_plain\<close>).
\<close>

fun path_match :: "string \<Rightarrow> string \<Rightarrow> bool" where
  "path_match [] s = (s = [])"
| "path_match (p # ps) [] = (p = CHR ''*'' \<and> path_match ps [])"
| "path_match (p # ps) (c # s) =
     (if p = CHR ''*'' then path_match ps (c # s) \<or> (c \<noteq> CHR ''/'' \<and> path_match (p # ps) s)
      else p = c \<and> path_match ps s)"

definition role_for :: "roles_file \<Rightarrow> string \<Rightarrow> job_description option" where
  "role_for rf name =
     (case find (\<lambda>r. jd_family r = name) (rf_roles rf) of
        Some r \<Rightarrow> Some r
      | None \<Rightarrow> find (\<lambda>r. list_ex (\<lambda>m. path_match m name) (jd_matches r)) (rf_roles rf))"

definition class_for :: "roles_file \<Rightarrow> string \<Rightarrow> job_class option" where
  "class_for rf c = find (\<lambda>jc. jc_id jc = c) (rf_classes rf)"

definition threshold_for :: "roles_file \<Rightarrow> string \<Rightarrow> threshold option" where
  "threshold_for rf name = find (\<lambda>t. th_name t = name) (rf_thresholds rf)"

section \<open>MayDecide, SupervisorMaySelect, Escalates\<close>

text \<open>None is \<open>true, ""\<close>; Some is \<open>false\<close> and the reason the code prints.\<close>

datatype refusal =
  NotADecisionClass string
| NobodyDecides string
| NotTheLinks string string string
| NotARole string
| HandsUpTo string string string
| NoSupervisor
| NoOptionSelect string

definition may_decide :: "roles_file \<Rightarrow> string \<Rightarrow> string \<Rightarrow> refusal option" where
  "may_decide rf role c =
     (case class_for rf c of
        None \<Rightarrow> Some (NotADecisionClass c)
      | Some jc \<Rightarrow>
          if jc_owner jc = ''nobody'' then Some (NobodyDecides c)
          else if role = ''owner'' then None
          else if role = ''analyst'' \<or> role = ''supervisor'' then
            (if jc_owner jc = role then None else Some (NotTheLinks c (jc_owner jc) role))
          else (case role_for rf role of
                  None \<Rightarrow> Some (NotARole role)
                | Some r \<Rightarrow> if c \<in> set (jd_decides_alone r) then None
                            else Some (HandsUpTo (jd_family r) c (jc_owner jc))))"

definition supervisor_may_select :: "roles_file \<Rightarrow> string \<Rightarrow> refusal option" where
  "supervisor_may_select rf c =
     (case class_for rf c of
        None \<Rightarrow> Some (NotADecisionClass c)
      | Some jc \<Rightarrow>
          if jc_owner jc \<noteq> ''analyst'' then may_decide rf ''supervisor'' c
          else (case role_for rf ''supervisor'' of
                  None \<Rightarrow> Some NoSupervisor
                | Some r \<Rightarrow> if ''option.select'' \<in> set (jd_decides_alone r) then None
                            else Some (NoOptionSelect c)))"

definition escalates :: "roles_file \<Rightarrow> string \<Rightarrow> string \<Rightarrow> string option" where
  "escalates rf role c =
     (if may_decide rf role c = None then None
      else (case class_for rf c of
              None \<Rightarrow> None
            | Some jc \<Rightarrow> if jc_owner jc = ''nobody'' then None else Some (jc_owner jc)))"

section \<open>The classes a deliverable may name\<close>

text \<open>\<open>ValidClassesFor\<close> and \<open>AllowsNoOptions\<close> of \<open>internal/crew/options.go\<close>.\<close>

definition valid_classes_for :: "job_description \<Rightarrow> string set" where
  "valid_classes_for r = set (jd_decides_alone r) \<union> set (jd_hands_up r)"

definition prose_classes :: "string list" where
  "prose_classes = [''commentary.variance'', ''commentary.showback'', ''forecast.project'', ''data.halt'']"

definition allows_no_options :: "job_description \<Rightarrow> bool" where
  "allows_no_options r \<longleftrightarrow> valid_classes_for r \<subseteq> set prose_classes"

section \<open>The file in the repository\<close>

definition yaml_never :: "string list" where
  "yaml_never =
     [''commit money'',
      ''change a resource'',
      ''contact a vendor'',
      ''send a message to a person outside the crew'',
      ''invent a number it was not given'',
      ''act on a task somebody blocked'']"

definition yaml_never_bound :: "never_binding list" where
  "yaml_never_bound =
     [\<lparr>nb_verb = ''act on a task somebody blocked'',
           nb_test = ''TestABlockedTaskIsNotWorkedAround''\<rparr>]"

definition yaml_thresholds :: "threshold list" where
  "yaml_thresholds =
     [\<lparr>th_name = ''T.anomaly'', th_value = ''USD 2,500 per anomaly'', th_cents = 250000,
         th_provenance = ''@decided 2026-10-04, halved from the draft'' @
           [CHR 0x27] @ ''s USD 5,000''\<rparr>,
      \<lparr>th_name = ''T.firstpass'', th_value = ''80% over two sprints'', th_cents = 0,
         th_provenance = ''@decided 2026-10-04, the draft value kept''\<rparr>,
      \<lparr>th_name = ''T.stale'', th_value = ''3'', th_cents = 0,
         th_provenance = ''@decided 2026-10-04, the draft value kept''\<rparr>,
      \<lparr>th_name = ''T.stale_days'', th_value = ''7'', th_cents = 0,
         th_provenance = ''@decided 2026-10-04, the draft value kept''\<rparr>,
      \<lparr>th_name = ''T.untagged'', th_value = ''10% of the desk'' @ [CHR 0x27] @ ''s month'', th_cents = 0,
         th_provenance = ''@decided 2026-10-04, the draft value kept''\<rparr>,
      \<lparr>th_name = ''T.migration'', th_value = ''15%'', th_cents = 0,
         th_provenance = ''@decided 2026-10-04, the draft value kept''\<rparr>,
      \<lparr>th_name = ''T.urgent'', th_value = ''USD 12,500'', th_cents = 1250000,
         th_provenance = ''@decided 2026-10-04, halved from the draft'' @
           [CHR 0x27] @ ''s USD 25,000''\<rparr>]"

definition yaml_classes :: "job_class list" where
  "yaml_classes =
     [\<lparr>jc_id = ''anomaly.explain'', jc_owner = ''analyst'', jc_up_to = ''T.anomaly''\<rparr>,
      \<lparr>jc_id = ''anomaly.dismiss'', jc_owner = ''analyst'', jc_up_to = ''T.anomaly''\<rparr>,
      \<lparr>jc_id = ''anomaly.accept'', jc_owner = ''supervisor'', jc_up_to = ''''\<rparr>,
      \<lparr>jc_id = ''driver.one-time'', jc_owner = ''analyst'', jc_up_to = ''''\<rparr>,
      \<lparr>jc_id = ''driver.recurring'', jc_owner = ''supervisor'', jc_up_to = ''''\<rparr>,
      \<lparr>jc_id = ''driver.announced'', jc_owner = ''owner'', jc_up_to = ''''\<rparr>,
      \<lparr>jc_id = ''commentary.variance'', jc_owner = ''analyst'', jc_up_to = ''''\<rparr>,
      \<lparr>jc_id = ''commentary.showback'', jc_owner = ''analyst'', jc_up_to = ''''\<rparr>,
      \<lparr>jc_id = ''forecast.project'', jc_owner = ''analyst'', jc_up_to = ''''\<rparr>,
      \<lparr>jc_id = ''forecast.freeze'', jc_owner = ''supervisor'', jc_up_to = ''''\<rparr>,
      \<lparr>jc_id = ''period.close'', jc_owner = ''owner'', jc_up_to = ''''\<rparr>,
      \<lparr>jc_id = ''period.reopen'', jc_owner = ''owner'', jc_up_to = ''''\<rparr>,
      \<lparr>jc_id = ''allocation.rule'', jc_owner = ''owner'', jc_up_to = ''''\<rparr>,
      \<lparr>jc_id = ''budget.set'', jc_owner = ''owner'', jc_up_to = ''''\<rparr>,
      \<lparr>jc_id = ''recommendation.rightsizing'', jc_owner = ''analyst'', jc_up_to = ''''\<rparr>,
      \<lparr>jc_id = ''recommendation.commitment'', jc_owner = ''analyst'', jc_up_to = ''''\<rparr>,
      \<lparr>jc_id = ''recommendation.renewal'', jc_owner = ''analyst'', jc_up_to = ''''\<rparr>,
      \<lparr>jc_id = ''option.select'', jc_owner = ''supervisor'', jc_up_to = ''''\<rparr>,
      \<lparr>jc_id = ''explainer.publish'', jc_owner = ''supervisor'', jc_up_to = ''''\<rparr>,
      \<lparr>jc_id = ''message.team'', jc_owner = ''owner'', jc_up_to = ''''\<rparr>,
      \<lparr>jc_id = ''purchase'', jc_owner = ''nobody'', jc_up_to = ''''\<rparr>,
      \<lparr>jc_id = ''infra.change'', jc_owner = ''nobody'', jc_up_to = ''''\<rparr>,
      \<lparr>jc_id = ''vendor.negotiate'', jc_owner = ''nobody'', jc_up_to = ''''\<rparr>,
      \<lparr>jc_id = ''sprint.plan'', jc_owner = ''supervisor'', jc_up_to = ''''\<rparr>,
      \<lparr>jc_id = ''sprint.approve'', jc_owner = ''owner'', jc_up_to = ''''\<rparr>,
      \<lparr>jc_id = ''sprint.close'', jc_owner = ''supervisor'', jc_up_to = ''''\<rparr>,
      \<lparr>jc_id = ''task.assign'', jc_owner = ''supervisor'', jc_up_to = ''''\<rparr>,
      \<lparr>jc_id = ''task.return'', jc_owner = ''supervisor'', jc_up_to = ''''\<rparr>,
      \<lparr>jc_id = ''task.accept'', jc_owner = ''supervisor'', jc_up_to = ''''\<rparr>,
      \<lparr>jc_id = ''task.block'', jc_owner = ''analyst'', jc_up_to = ''''\<rparr>,
      \<lparr>jc_id = ''agent.*'', jc_owner = ''owner'', jc_up_to = ''''\<rparr>,
      \<lparr>jc_id = ''kpi.define'', jc_owner = ''owner'', jc_up_to = ''''\<rparr>,
      \<lparr>jc_id = ''kpi.refuse'', jc_owner = ''analyst'', jc_up_to = ''''\<rparr>,
      \<lparr>jc_id = ''data.halt'', jc_owner = ''supervisor'', jc_up_to = ''''\<rparr>,
      \<lparr>jc_id = ''policy.exception'', jc_owner = ''owner'', jc_up_to = ''''\<rparr>,
      \<lparr>jc_id = ''escalation.request'', jc_owner = ''supervisor'', jc_up_to = ''''\<rparr>]"

definition yaml_roles :: "job_description list" where
  "yaml_roles =
     [\<lparr>jd_family = ''investigator'', jd_link = ''analyst'',
         jd_matches = [''investigator-aws'', ''investigator-gcp'', ''investigator-azure''],
         jd_decides_alone = [''anomaly.explain'', ''anomaly.dismiss'', ''driver.one-time'', ''task.block''],
         jd_hands_up = [''purchase'', ''infra.change'', ''message.team''],
         jd_hands_to_owner = []\<rparr>,
      \<lparr>jd_family = ''anomaly-triage'', jd_link = ''analyst'',
         jd_matches = [''triage-aws'', ''triage-gcp'', ''triage-azure'', ''triage-ai''],
         jd_decides_alone = [''anomaly.dismiss'', ''driver.one-time'', ''task.block''],
         jd_hands_up = [''anomaly.explain'', ''purchase'', ''infra.change'', ''message.team'',
           ''kpi.define''],
         jd_hands_to_owner = []\<rparr>,
      \<lparr>jd_family = ''optimizer'', jd_link = ''analyst'',
         jd_matches = [''optimizer-aws'', ''optimizer-gcp'', ''optimizer-azure''],
         jd_decides_alone = [''recommendation.rightsizing''],
         jd_hands_up = [''infra.change'', ''driver.announced''],
         jd_hands_to_owner = []\<rparr>,
      \<lparr>jd_family = ''reporter'', jd_link = ''analyst'',
         jd_matches = [''reporter-aws'', ''reporter-gcp'', ''reporter-azure''],
         jd_decides_alone = [''commentary.variance'', ''commentary.showback''],
         jd_hands_up = [''explainer.publish'', ''message.team''],
         jd_hands_to_owner = []\<rparr>,
      \<lparr>jd_family = ''capacity-analyst'', jd_link = ''analyst'',
         jd_matches = [''capacity-aws'', ''capacity-gcp'', ''capacity-azure''],
         jd_decides_alone = [''forecast.project''],
         jd_hands_up = [''forecast.freeze'', ''purchase''],
         jd_hands_to_owner = []\<rparr>,
      \<lparr>jd_family = ''finops-partner'', jd_link = ''analyst'',
         jd_matches = [''partner-aws'', ''partner-gcp'', ''partner-azure''],
         jd_decides_alone = [''commentary.variance'', ''commentary.showback''],
         jd_hands_up = [''message.team'', ''policy.exception''],
         jd_hands_to_owner = []\<rparr>,
      \<lparr>jd_family = ''ai-spend-analyst'', jd_link = ''analyst'',
         jd_matches = [''ai-spend''],
         jd_decides_alone = [''commentary.variance''],
         jd_hands_up = [''infra.change'', ''driver.announced''],
         jd_hands_to_owner = []\<rparr>,
      \<lparr>jd_family = ''unit-economics-ai'', jd_link = ''analyst'',
         jd_matches = [''unit-econ-ai''],
         jd_decides_alone = [''kpi.refuse''],
         jd_hands_up = [''kpi.define''],
         jd_hands_to_owner = []\<rparr>,
      \<lparr>jd_family = ''saas-portfolio-manager'', jd_link = ''analyst'',
         jd_matches = [''saas-manager''],
         jd_decides_alone = [''driver.one-time''],
         jd_hands_up = [''purchase'', ''vendor.negotiate''],
         jd_hands_to_owner = []\<rparr>,
      \<lparr>jd_family = ''renewals-analyst'', jd_link = ''analyst'',
         jd_matches = [''renewals''],
         jd_decides_alone = [''recommendation.renewal''],
         jd_hands_up = [''vendor.negotiate''],
         jd_hands_to_owner = []\<rparr>,
      \<lparr>jd_family = ''chargeback-analyst'', jd_link = ''analyst'',
         jd_matches = [''chargeback''],
         jd_decides_alone = [''commentary.showback''],
         jd_hands_up = [''period.close'', ''period.reopen'', ''allocation.rule''],
         jd_hands_to_owner = []\<rparr>,
      \<lparr>jd_family = ''commitment-analyst'', jd_link = ''analyst'',
         jd_matches = [''commitments''],
         jd_decides_alone = [''recommendation.commitment''],
         jd_hands_up = [''purchase''],
         jd_hands_to_owner = []\<rparr>,
      \<lparr>jd_family = ''forecaster'', jd_link = ''analyst'',
         jd_matches = [''forecaster''],
         jd_decides_alone = [''forecast.project''],
         jd_hands_up = [''forecast.freeze'', ''driver.announced''],
         jd_hands_to_owner = []\<rparr>,
      \<lparr>jd_family = ''kpi-steward'', jd_link = ''analyst'',
         jd_matches = [''kpi-steward''],
         jd_decides_alone = [''kpi.refuse''],
         jd_hands_up = [''kpi.define''],
         jd_hands_to_owner = []\<rparr>,
      \<lparr>jd_family = ''executive-reporter'', jd_link = ''analyst'',
         jd_matches = [''exec-reporter''],
         jd_decides_alone = [''commentary.variance''],
         jd_hands_up = [''explainer.publish'', ''message.team''],
         jd_hands_to_owner = []\<rparr>,
      \<lparr>jd_family = ''governance-analyst'', jd_link = ''analyst'',
         jd_matches = [''governance''],
         jd_decides_alone = [],
         jd_hands_up = [''policy.exception''],
         jd_hands_to_owner = []\<rparr>,
      \<lparr>jd_family = ''data-quality-analyst'', jd_link = ''analyst'',
         jd_matches = [''data-quality''],
         jd_decides_alone = [],
         jd_hands_up = [''data.halt''],
         jd_hands_to_owner = []\<rparr>,
      \<lparr>jd_family = ''benchmarking-analyst'', jd_link = ''analyst'',
         jd_matches = [''benchmarking''],
         jd_decides_alone = [],
         jd_hands_up = [],
         jd_hands_to_owner = []\<rparr>,
      \<lparr>jd_family = ''sustainability-analyst'', jd_link = ''analyst'',
         jd_matches = [''sustainability''],
         jd_decides_alone = [],
         jd_hands_up = [''explainer.publish''],
         jd_hands_to_owner = []\<rparr>,
      \<lparr>jd_family = ''deep-analysis'', jd_link = ''analyst'',
         jd_matches = [''deep-analysis''],
         jd_decides_alone = [''task.block''],
         jd_hands_up = [''agent.*''],
         jd_hands_to_owner = []\<rparr>,
      \<lparr>jd_family = ''intake-triage'', jd_link = ''analyst'',
         jd_matches = [''intake-triage''],
         jd_decides_alone = [],
         jd_hands_up = [],
         jd_hands_to_owner = []\<rparr>,
      \<lparr>jd_family = ''migration-watch'', jd_link = ''analyst'',
         jd_matches = [''migration-watch''],
         jd_decides_alone = [''driver.one-time''],
         jd_hands_up = [''anomaly.accept''],
         jd_hands_to_owner = []\<rparr>,
      \<lparr>jd_family = ''investigator-onprem'', jd_link = ''analyst'',
         jd_matches = [''investigator-onprem''],
         jd_decides_alone = [''anomaly.explain'', ''anomaly.dismiss'', ''driver.one-time'', ''task.block''],
         jd_hands_up = [''purchase'', ''infra.change'', ''message.team''],
         jd_hands_to_owner = []\<rparr>,
      \<lparr>jd_family = ''optimizer-onprem'', jd_link = ''analyst'',
         jd_matches = [''optimizer-onprem''],
         jd_decides_alone = [''recommendation.rightsizing''],
         jd_hands_up = [''infra.change'', ''driver.announced''],
         jd_hands_to_owner = []\<rparr>,
      \<lparr>jd_family = ''reporter-onprem'', jd_link = ''analyst'',
         jd_matches = [''reporter-onprem''],
         jd_decides_alone = [''commentary.variance'', ''commentary.showback''],
         jd_hands_up = [''explainer.publish'', ''message.team''],
         jd_hands_to_owner = []\<rparr>,
      \<lparr>jd_family = ''supervisor'', jd_link = ''supervisor'',
         jd_matches = [''supervisor''],
         jd_decides_alone = [''sprint.plan'', ''sprint.close'', ''task.assign'', ''task.return'',
           ''task.accept'', ''option.select'', ''anomaly.accept'', ''driver.recurring'',
           ''forecast.freeze'', ''explainer.publish'', ''data.halt'', ''escalation.request''],
         jd_hands_up = [],
         jd_hands_to_owner = [''sprint.approve'', ''period.close'', ''period.reopen'',
           ''allocation.rule'', ''budget.set'', ''driver.announced'', ''message.team'', ''agent.*'',
           ''kpi.define'', ''policy.exception'']\<rparr>]"

definition roles_yaml :: roles_file where
  "roles_yaml = \<lparr>rf_never = yaml_never, rf_never_bound = yaml_never_bound,
     rf_thresholds = yaml_thresholds, rf_classes = yaml_classes, rf_roles = yaml_roles\<rparr>"

section \<open>What the mandate says\<close>

lemma class_for_SomeD: "class_for rf c = Some jc \<Longrightarrow> jc \<in> set (rf_classes rf) \<and> jc_id jc = c"
  by (auto simp: class_for_def find_Some_iff)

lemma class_for_defined: "c \<in> set (map jc_id (rf_classes rf)) \<Longrightarrow> class_for rf c \<noteq> None"
  by (auto simp: class_for_def find_None_iff)

lemma threshold_for_defined: "n \<in> set (map th_name (rf_thresholds rf)) \<Longrightarrow> threshold_for rf n \<noteq> None"
  by (auto simp: threshold_for_def find_None_iff)

lemma patterns_are_plain:
  "list_all (\<lambda>r. list_all (list_all (\<lambda>c. c \<noteq> CHR ''?'' \<and> c \<noteq> CHR ''['' \<and> c \<noteq> CHR 0x5C)) (jd_matches r))
     (rf_roles roles_yaml)"
  by code_simp

lemma may_decide_cases:
  "may_decide rf role c = None \<longleftrightarrow>
     (\<exists>jc. class_for rf c = Some jc \<and> jc_owner jc \<noteq> ''nobody'' \<and>
        (role = ''owner'' \<or> (role \<in> {''analyst'', ''supervisor''} \<and> jc_owner jc = role) \<or>
         (role \<notin> {''owner'', ''analyst'', ''supervisor''} \<and>
            (\<exists>r. role_for rf role = Some r \<and> c \<in> set (jd_decides_alone r)))))"
  by (auto simp: may_decide_def split: option.splits if_splits)

lemma yaml_owners:
  "list_all (\<lambda>jc. jc_owner jc \<in> {''analyst'', ''supervisor'', ''owner'', ''nobody''}) (rf_classes roles_yaml)"
  by code_simp

lemma yaml_analysts:
  "list_all (\<lambda>c. may_decide roles_yaml ''analyst'' c = None)
     (concat (map jd_decides_alone (filter (\<lambda>r. jd_link r = ''analyst'') (rf_roles roles_yaml))))"
  by code_simp

lemma yaml_supervisor:
  "(case role_for roles_yaml ''supervisor'' of None \<Rightarrow> False
    | Some r \<Rightarrow> set (jd_decides_alone r) =
        set (map jc_id (filter (\<lambda>jc. jc_owner jc = ''supervisor'') (rf_classes roles_yaml))))"
  by code_simp

lemma stop_at_fault:
  "(case x of None \<Rightarrow> y | Some e \<Rightarrow> Inl e) = Inr z \<longleftrightarrow> x = None \<and> y = Inr z"
  by (cases x) auto

lemma load_faults:
  "class_twice {} cs = None \<longleftrightarrow> distinct (map jc_id cs)"
  "first_fault f xs = None \<longleftrightarrow> (\<forall>x \<in> set xs. f x = None)"
  for f :: "'x \<Rightarrow> roles_panic option"
  by (auto simp: class_twice_None first_fault_None)

lemma load_checks:
  "must_load_roles rf = Inr rf' \<longleftrightarrow> rf' = rf \<and>
     distinct (map jc_id (rf_classes rf)) \<and>
     (\<forall>t \<in> set (rf_thresholds rf). valid_provenance (th_provenance t) = None) \<and>
     (\<forall>jc \<in> set (rf_classes rf). jc_up_to jc = [] \<or> jc_up_to jc \<in> th_name ` set (rf_thresholds rf)) \<and>
     (\<forall>nb \<in> set (rf_never_bound rf). nb_verb nb \<in> set (rf_never rf) \<and> nb_test nb \<noteq> []) \<and>
     (\<forall>r \<in> set (rf_roles rf).
        \<forall>c \<in> set (jd_decides_alone r @ jd_hands_up r @ jd_hands_to_owner r). c \<in> jc_id ` set (rf_classes rf))"
  unfolding must_load_roles_def Let_def
  by (simp add: stop_at_fault load_faults split: if_splits cong: conj_cong) (auto 0 3)

text \<open>A decision marker: the date, and after it a comma or a blank and any plain text.\<close>

lemma decided_mark:
  assumes "is_date d" and "length d = 10" and "t = [] \<or> hd t = CHR '','' \<or> hd t = CHR '' ''"
    and "solid (last (d @ t))" and "\<not> has_rune is_control (''@decided '' @ d @ t)" and "length t \<le> 181"
  shows "valid_provenance (''@decided '' @ d @ t) = None"
proof -
  have "trim_space (''@decided '' @ d @ t) = ''@decided '' @ d @ t"
    using assms(2,4) by (intro trim_space_solid) (auto simp: solid_def byte_def split: if_splits)
  moreover have "(d @ t) ! 10 = hd t" if "t \<noteq> []"
    using that assms(2) by (cases t) (auto simp: nth_append)
  ultimately show ?thesis
    using assms by (cases t) (simp_all add: valid_provenance_def max_provenance_len_def)
qed

lemma yaml_provenances: "list_all (\<lambda>t. valid_provenance (th_provenance t) = None) yaml_thresholds"
proof -
  define kept halved where "kept = '', the draft value kept''"
    and "halved = (\<lambda>n. '', halved from the draft'' @ [CHR 0x27] @ ''s USD '' @ n)"
  have d: "is_date ''2026-10-04''" by code_simp
  have "valid_provenance (''@decided '' @ ''2026-10-04'' @ kept) = None"
    by (rule decided_mark [OF d]) (simp_all add: kept_def solid_def byte_def, code_simp)
  moreover have "valid_provenance (''@decided '' @ ''2026-10-04'' @ halved ''5,000'') = None"
    by (rule decided_mark [OF d]) (simp_all add: halved_def solid_def byte_def, code_simp)
  moreover have "valid_provenance (''@decided '' @ ''2026-10-04'' @ halved ''25,000'') = None"
    by (rule decided_mark [OF d]) (simp_all add: halved_def solid_def byte_def, code_simp)
  ultimately show ?thesis
    by (simp add: yaml_thresholds_def kept_def halved_def)
qed

lemma yaml_references:
  "distinct (map jc_id yaml_classes)"
  "list_all (\<lambda>jc. jc_up_to jc = [] \<or> jc_up_to jc \<in> set (map th_name yaml_thresholds)) yaml_classes"
  "list_all (\<lambda>nb. nb_verb nb \<in> set yaml_never \<and> nb_test nb \<noteq> []) yaml_never_bound"
  "list_all (\<lambda>r. list_all (\<lambda>c. c \<in> set (map jc_id yaml_classes))
     (jd_decides_alone r @ jd_hands_up r @ jd_hands_to_owner r)) yaml_roles"
  by code_simp+

lemma yaml_loads: "must_load_roles roles_yaml = Inr roles_yaml"
  using yaml_provenances yaml_references
  unfolding load_checks list_all_iff roles_yaml_def by simp

text \<open>
  What the loader accepts holds together: class ids are distinct, every class a role names
  under any of its three lists resolves, every threshold a class names resolves, every threshold
  has a valid provenance, and every clause bound to a test is on the never list and names one.
\<close>

theorem loaded_roles_resolve:
  "must_load_roles rf = Inr rf' \<longleftrightarrow> rf' = rf \<and>
     distinct (map jc_id (rf_classes rf)) \<and>
     (\<forall>t \<in> set (rf_thresholds rf). valid_provenance (th_provenance t) = None) \<and>
     (\<forall>jc \<in> set (rf_classes rf). jc_up_to jc = [] \<or> threshold_for rf (jc_up_to jc) \<noteq> None) \<and>
     (\<forall>nb \<in> set (rf_never_bound rf). nb_verb nb \<in> set (rf_never rf) \<and> nb_test nb \<noteq> []) \<and>
     (\<forall>r \<in> set (rf_roles rf).
        \<forall>c \<in> set (jd_decides_alone r @ jd_hands_up r @ jd_hands_to_owner r). class_for rf c \<noteq> None)"
proof -
  have th: "threshold_for rf n \<noteq> None \<longleftrightarrow> n \<in> th_name ` set (rf_thresholds rf)" for n
    by (auto simp: threshold_for_def find_None_iff)
  have cl: "class_for rf c \<noteq> None \<longleftrightarrow> c \<in> jc_id ` set (rf_classes rf)" for c
    by (auto simp: class_for_def find_None_iff)
  show ?thesis
    unfolding load_checks th cl by simp
qed

theorem loaded_roles_resolve_witness:
  "distinct (map jc_id (rf_classes roles_yaml)) \<and>
   list_all (\<lambda>t. valid_provenance (th_provenance t) = None) (rf_thresholds roles_yaml)"
  using loaded_roles_resolve [of roles_yaml roles_yaml] yaml_loads by (simp add: list_all_iff)

text \<open>
  The repository's own file loads, and the mandate in it is coherent: each class belongs to
  one of the four links the code knows, an analyst family decides alone only classes of the
  analyst link, and the supervisor's job description decides alone exactly the classes whose owner
  is the supervisor.
\<close>

theorem repository_mandate_coherent:
  "must_load_roles roles_yaml = Inr roles_yaml \<and>
   list_all (\<lambda>jc. jc_owner jc \<in> {''analyst'', ''supervisor'', ''owner'', ''nobody''}) (rf_classes roles_yaml) \<and>
   list_all (\<lambda>c. may_decide roles_yaml ''analyst'' c = None)
     (concat (map jd_decides_alone (filter (\<lambda>r. jd_link r = ''analyst'') (rf_roles roles_yaml)))) \<and>
   (\<exists>r. role_for roles_yaml ''supervisor'' = Some r \<and>
       set (jd_decides_alone r) =
         {jc_id jc |jc. jc \<in> set (rf_classes roles_yaml) \<and> jc_owner jc = ''supervisor''})"
proof -
  have "{jc_id jc |jc. jc \<in> set (rf_classes roles_yaml) \<and> jc_owner jc = ''supervisor''} =
      set (map jc_id (filter (\<lambda>jc. jc_owner jc = ''supervisor'') (rf_classes roles_yaml)))"
    by auto
  with yaml_supervisor show ?thesis
    by (intro conjI yaml_loads yaml_owners yaml_analysts) (simp split: option.splits)
qed

text \<open>
  The supervisor's pass may take exactly two kinds of class: the ones the supervisor link owns,
  and the analysts' own when its job description lists \<open>option.select\<close>. So no class of the
  owner's, and none that nobody decides, is ever its to select, whatever the file says.
\<close>

theorem supervisor_select_boundary:
  "supervisor_may_select rf c = None \<longleftrightarrow>
     (\<exists>jc. class_for rf c = Some jc \<and>
        (jc_owner jc = ''supervisor'' \<or>
         jc_owner jc = ''analyst'' \<and>
         (\<exists>r. role_for rf ''supervisor'' = Some r \<and> ''option.select'' \<in> set (jd_decides_alone r))))"
  by (auto simp: supervisor_may_select_def may_decide_def split: option.splits if_splits)

text \<open>
  Deciding, handing up and refusing are three disjoint answers that cover every question, and
  handing up leads to somebody: where a role must hand a class up, the link it names may decide it.
\<close>

theorem handing_up_reaches_a_decider:
  assumes "list_all (\<lambda>jc. jc_owner jc \<in> {''analyst'', ''supervisor'', ''owner'', ''nobody''}) (rf_classes rf)"
    and "class_for rf c = Some jc"
  shows "((may_decide rf role c = None) \<noteq> (jc_owner jc = ''nobody'' \<or> (\<exists>l. escalates rf role c = Some l))) \<and>
    (\<forall>l. escalates rf role c = Some l \<longrightarrow> may_decide rf l c = None \<and> l \<noteq> role)"
proof -
  have "jc_owner jc \<in> {''analyst'', ''supervisor'', ''owner'', ''nobody''}"
    using assms class_for_SomeD [of rf c jc] by (auto simp: list_all_iff)
  then show ?thesis
    using assms(2) by (auto simp: escalates_def may_decide_def split: option.splits if_splits)
qed

lemma yaml_message_team:
  "class_for roles_yaml ''message.team'' = Some \<lparr>jc_id = ''message.team'', jc_owner = ''owner'', jc_up_to = []\<rparr>"
  "escalates roles_yaml ''investigator-aws'' ''message.team'' = Some ''owner''"
  by code_simp+

theorem handing_up_reaches_a_decider_witness:
  "may_decide roles_yaml ''owner'' ''message.team'' = None \<and>
   may_decide roles_yaml ''investigator-aws'' ''message.team'' \<noteq> None"
  using handing_up_reaches_a_decider [OF yaml_owners yaml_message_team(1), of "''investigator-aws''"]
    yaml_message_team(2) by auto

end
