(* ===== verification/Store.thy ===== *)
theory Store
  imports Complex_Main "HOL-Library.List_Lexorder" Money Roles
begin

text \<open>
  The console's store as the code uses it: one record whose fields are the tables of
  \<open>internal/crew\<close>, \<open>internal/anomaly\<close>, \<open>internal/finops\<close> and \<open>internal/estate\<close>, each a list of
  rows in rowid order, and the journal the recorder appends to. A nullable text column that every
  reader wraps in \<open>COALESCE(c,'')\<close> is a string with the empty string for NULL; the two columns a
  \<open>WHERE\<close> clause compares raw (a task's assignee and its anomaly) keep NULL apart as an option.
  An operation is a function from a store to an error or a result and the store it leaves: there
  is no rollback, so what was written before an error stays, as in the code outside its explicit
  transactions. Failures of the SQL driver itself are not modelled. The wall clock is a field. The
  error \<open>NeverReturns\<close> stands for a call that does not return: nothing after it runs.
\<close>

section \<open>What an event carries\<close>

text \<open>The values of an event's \<open>map[string]any\<close>. (The JSON text an option's target is stored as is a string.)\<close>

datatype json = JNull | JBool bool | JInt int | JFloat rat | JString string
  | JArray "json list" | JObject "(string \<times> json) list"

section \<open>Rows\<close>

datatype task_state = Queued | Active | Blocked | Returned | Done | Posted

datatype artifact_state = Draft | ReturnedDraft | PostedDraft

datatype option_state = OptionOpen | OptionCarried | OptionApplied | OptionRefused | OptionNotChosen

datatype anomaly_state = Open | Triaged | Explained | Accepted | Dismissed

datatype sprint_state = SprintPlanned | SprintActive | SprintClosed

record sprint =
  sp_id :: int
  sp_label :: string
  sp_start :: string
  sp_end :: string
  sp_state :: sprint_state
  sp_goal :: string

record task =
  tk_id :: int
  tk_sprint :: int
  tk_title :: string
  tk_goal :: string
  tk_assignee :: "string option"
  tk_desk :: string
  tk_state :: task_state
  tk_reason :: string
  tk_budget :: cents
  tk_spent :: cents
  tk_anomaly :: "string option"
  tk_created :: string
  tk_updated :: string
  tk_owner :: string
  tk_micros :: int
  tk_live :: cents
  tk_tokens :: int
  tk_ceiling :: int

record artifact =
  ar_id :: int
  ar_task :: int
  ar_author :: string
  ar_title :: string
  ar_body :: string
  ar_state :: artifact_state
  ar_reason :: string
  ar_created :: string
  ar_stamped :: string
  ar_stamper :: string

record comment =
  cm_task :: int
  cm_author :: string
  cm_body :: string
  cm_created :: string

record option_row =
  op_artifact :: int
  op_ordinal :: int
  op_class :: string
  op_summary :: string
  op_figure :: int
  op_saving :: int
  op_risk :: string
  op_needs :: string
  op_evidence :: "string list"
  op_target :: string
  op_state :: option_state
  op_decided_by :: string
  op_decided_at :: string
  op_reason :: string
  op_on_behalf_of :: string
  op_behalf_reason :: string

record request =
  rq_artifact :: int
  rq_sprint :: int
  rq_owner :: string
  rq_lapses :: string

record analyst =
  an_name :: string
  an_role :: string
  an_mission :: string
  an_desk :: string
  an_engine :: string
  an_state :: string
  an_reason :: string
  an_skills :: "string list"
  an_rights :: "string list"
  an_per_task :: cents
  an_monthly :: cents
  an_cadence :: string
  an_audience :: string
  an_owner :: string
  an_parent :: string
  an_attestation :: string
  an_detail :: string
  an_hired :: string

record desk_halt =
  dh_desk :: string
  dh_reason :: string
  dh_started :: string
  dh_applied_by :: string
  dh_owner :: string
  dh_suspended :: "string list"

record plan_ask =
  pa_label :: string
  pa_month :: string
  pa_analyst :: string
  pa_micros :: int
  pa_cents :: cents
  pa_outcome :: string
  pa_reason :: string
  pa_created :: string

record explainer =
  ex_id :: int
  ex_team :: string
  ex_topic :: string
  ex_audience :: string
  ex_author :: string
  ex_body :: string
  ex_state :: string
  ex_reason :: string
  ex_amount :: cents
  ex_created :: string
  ex_published :: string
  ex_publisher :: string

record anomaly =
  ay_id :: string
  ay_source :: string
  ay_team :: string
  ay_service :: string
  ay_day :: string
  ay_direction :: string
  ay_amount :: cents
  ay_baseline :: cents
  ay_excess :: cents
  ay_z :: rat
  ay_rule :: string
  ay_rule_version :: string
  ay_driver :: string
  ay_caused_by :: string
  ay_caused_by_kind :: string
  ay_handled_by :: string
  ay_state :: anomaly_state
  ay_reason :: string
  ay_detected_at :: string
  ay_closed_at :: string

record charge =
  ch_source :: string
  ch_day :: string
  ch_service :: string
  ch_team :: string
  ch_category :: string
  ch_billed :: cents
  ch_provenance :: string

record driver =
  dr_start :: string
  dr_end :: string
  dr_scope :: string
  dr_label :: string
  dr_kind :: string
  dr_source :: string
  dr_expected :: "cents option"
  dr_team :: string

record rule =
  ru_id :: int
  ru_source :: string
  ru_category :: string
  ru_method :: string
  ru_note :: string

record frozen =
  fz_period :: string
  fz_source :: string
  fz_team :: string
  fz_direct :: cents
  fz_allocated :: cents
  fz_frozen_at :: string
  fz_closed_by :: string

record unit_rule =
  ur_unit :: string
  ur_business_unit :: string
  ur_decided_by :: string
  ur_artifact :: int
  ur_ordinal :: int
  ur_applied_at :: string

record forecast =
  fc_period :: string
  fc_source :: string
  fc_cents :: cents
  fc_basis :: string
  fc_frozen_at :: string
  fc_frozen_by :: string

record attribution =
  at_source :: string
  at_team :: string
  at_service :: string
  at_from :: string
  at_to :: string
  at_agent :: "string option"
  at_confidence :: "string option"

section \<open>The journal\<close>

record event =
  ev_kind :: string
  ev_actor :: string
  ev_severity :: string
  ev_data :: "(string \<times> json) list"

record store =
  st_now :: string
  st_sprints :: "sprint list"
  st_tasks :: "task list"
  st_artifacts :: "artifact list"
  st_comments :: "comment list"
  st_options :: "option_row list"
  st_requests :: "request list"
  st_analysts :: "analyst list"
  st_halts :: "desk_halt list"
  st_plan_asks :: "plan_ask list"
  st_explainers :: "explainer list"
  st_anomalies :: "anomaly list"
  st_teams :: "(string \<times> string) list"
  st_charges :: "charge list"
  st_drivers :: "driver list"
  st_rules :: "rule list"
  st_chargeback :: "frozen list"
  st_unit_rules :: "unit_rule list"
  st_forecasts :: "forecast list"
  st_attribution :: "attribution list"
  st_settings :: "(string \<times> string) list"
  st_journal :: "event list"

section \<open>Errors and operations\<close>

datatype answer_fault =
  ReasonForNobody | MustBeMarked string string | BehalfReasonMissing | BehalfReasonLong nat
| BehalfReasonNotText | BehalfReasonControl | BehalfReasonLine | BehalfReasonDirection

text \<open>Why an options block, or one option's target, is refused.\<close>

datatype target_fault =
  BlockTooLong nat | BlockNotJSON | TooManyOptions nat | NamesNoClass nat | FigureNotCents nat
| FigureNegative nat | SavingNotCents nat | NoBlock string | NoRoleOnFile string | ZeroOptions string
| ClassNotListed string string | ClassUndefined string
| TargetTooLong nat | TargetMissing | TargetNotJSON | RuleIdBad | NoMethod | ShareBad
| UnitAndRule string | UnitOddField string | UnitNotString | UnitPadded | UnitNotPlain name_fault
| NoBusinessUnit | BusinessNotString | BusinessPadded | BusinessNotPlain name_fault
| WindowNotNeeded | StartBad string | EndBad string | EndBeforeStart | WindowTooLong
| TrailingData | ScopeBad | NoExpectedMove | TeamPadded | TeamNotPlain name_fault
| UnitIsTeam string | UnitHasNoRows string | NothingToMeasure | LargerSaving cents cents

datatype err =
  ErrNotFound | ErrNeedReason | ErrSettled | ErrClosed | ErrNotExplained | NoSuchAnomaly
| ErrSuspended string | NoSuchAnalyst string | ErrMayNotDecide refusal | EmptyComment
| NothingToPlan | AlreadyOnBoard string | NoSuchSprint | SprintAlreadyClosed
| BadAnswer answer_fault
| NoSuchState string | OffRotaNeedsReason | BadName string | NoRole | GuardsNotPositive
| GuardsInverted | BadAttestation string | BadCadence | AlreadyOnCrew string | OwnParent
| IsSupervisor | ErrHasWork nat | HasChildren nat | NothingWouldChange | UnderItself
| NoSuchParent string | ParentLoop string | NegativeCeiling
| HaltNamesNoDesk | NotHalted string
| NeedsTeamAndTopic | NoAuthor | NoSuchExplainer | AlreadyPublished
| NoSuchMethod string | NoSuchRule | AlreadyClosedPeriod string | NothingToCharge string
| ReopenNeedsReason | WasNotClosed string | NothingClosed
| AlreadyFrozen string | NoChargeData string
| OptionNamesNoDesk int | NoDeskForDriver string | NoDriverWindow string | TargetUndecodable
| EmptyWindow | OwnersAlone refusal | TargetRefused target_fault | SavingRefused target_fault
| UnitRefused target_fault | RecorderFailed | BadDay string | DuplicateKey | NotCounted string string
| NeverReturns | SumOverflows | NullScanned

type_synonym 'a op = "store \<Rightarrow> (err + 'a) \<times> store"

definition ok :: "'a \<Rightarrow> 'a op" where
  "ok x = (\<lambda>s. (Inr x, s))"

definition fail :: "err \<Rightarrow> 'a op" where
  "fail e = (\<lambda>s. (Inl e, s))"

definition andthen :: "'a op \<Rightarrow> ('a \<Rightarrow> 'b op) \<Rightarrow> 'b op" where
  "andthen m f = (\<lambda>s. case m s of (Inl e, t) \<Rightarrow> (Inl e, t) | (Inr x, t) \<Rightarrow> f x t)"

definition query :: "(store \<Rightarrow> 'a) \<Rightarrow> 'a op" where
  "query f = (\<lambda>s. (Inr (f s), s))"

definition exec :: "(store \<Rightarrow> store) \<Rightarrow> unit op" where
  "exec f = (\<lambda>s. (Inr (), f s))"

definition ensure :: "bool \<Rightarrow> err \<Rightarrow> unit op" where
  "ensure c e = (if c then ok () else fail e)"

definition found :: "'a option \<Rightarrow> err \<Rightarrow> 'a op" where
  "found x e = (case x of None \<Rightarrow> fail e | Some y \<Rightarrow> ok y)"

definition fetch :: "(store \<Rightarrow> 'a option) \<Rightarrow> err \<Rightarrow> 'a op" where
  "fetch f e = (\<lambda>s. (case f s of None \<Rightarrow> Inl e | Some y \<Rightarrow> Inr y, s))"

text \<open>A read that may fail.\<close>

definition attempt :: "(store \<Rightarrow> err + 'a) \<Rightarrow> 'a op" where
  "attempt f = (\<lambda>s. (f s, s))"

fun each :: "('a \<Rightarrow> unit op) \<Rightarrow> 'a list \<Rightarrow> unit op" where
  "each f [] = ok ()"
| "each f (x # xs) = andthen (f x) (\<lambda>_. each f xs)"

text \<open>\<open>for ...: if err := f(x); err != nil { return err }; out = append(out, ...)\<close>.\<close>

fun collect :: "('a \<Rightarrow> 'b op) \<Rightarrow> 'a list \<Rightarrow> 'b list op" where
  "collect f [] = ok []"
| "collect f (x # xs) = andthen (f x) (\<lambda>y. andthen (collect f xs) (\<lambda>ys. ok (y # ys)))"

named_theorems op_run \<open>running an operation\<close>

lemma ok_run [op_run]: "ok x s = (Inr x, s)"
  by (simp add: ok_def)

lemma fail_run [op_run]: "fail e s = (Inl e, s)"
  by (simp add: fail_def)

lemma query_run [op_run]: "query f s = (Inr (f s), s)"
  by (simp add: query_def)

lemma exec_run [op_run]: "exec f s = (Inr (), f s)"
  by (simp add: exec_def)

lemma ensure_run [op_run]: "ensure c e s = (if c then Inr () else Inl e, s)"
  by (simp add: ensure_def ok_def fail_def)

lemma found_run [op_run]: "found x e s = (case x of None \<Rightarrow> Inl e | Some y \<Rightarrow> Inr y, s)"
  by (simp add: found_def ok_def fail_def split: option.split)

lemma fetch_run [op_run]: "fetch f e s = (case f s of None \<Rightarrow> Inl e | Some y \<Rightarrow> Inr y, s)"
  by (simp add: fetch_def)

lemma attempt_run [op_run]: "attempt f s = (f s, s)"
  by (simp add: attempt_def)

lemma andthen_run [op_run]:
  "andthen m f s = (case m s of (Inl e, t) \<Rightarrow> (Inl e, t) | (Inr x, t) \<Rightarrow> f x t)"
  by (simp add: andthen_def)

text \<open>What a run that returns must have been; as rewrite rules, the steps in order.\<close>

named_theorems op_ok \<open>when an operation returns\<close>

lemma andthen_ok [op_ok]: "andthen m f s = (Inr y, u) \<longleftrightarrow> (\<exists>x t. m s = (Inr x, t) \<and> f x t = (Inr y, u))"
  by (auto simp: andthen_def split: prod.splits sum.splits)

lemma basic_ok [op_ok]:
  "ok x s = (Inr y, u) \<longleftrightarrow> y = x \<and> u = s"
  "fail e s = (Inr y, u) \<longleftrightarrow> False"
  "query g s = (Inr y, u) \<longleftrightarrow> y = g s \<and> u = s"
  "exec h s = (Inr z, u) \<longleftrightarrow> u = h s"
  "ensure c e s = (Inr z, u) \<longleftrightarrow> c \<and> u = s"
  "fetch k e s = (Inr y, u) \<longleftrightarrow> k s = Some y \<and> u = s"
  "found w e s = (Inr y, u) \<longleftrightarrow> w = Some y \<and> u = s"
  "attempt l s = (Inr y, u) \<longleftrightarrow> l s = Inr y \<and> u = s"
  by (auto simp: op_run split: option.splits)

lemma run_fst: "fst (m s) = Inr x \<Longrightarrow> m s = (Inr x, snd (m s))"
  by (cases "m s") simp

lemma andthen_okE:
  assumes "andthen m f s = (Inr y, u)"
  obtains x t where "m s = (Inr x, t)" and "f x t = (Inr y, u)"
  using assms by (auto simp: andthen_ok)

section \<open>What every run of an operation keeps\<close>

text \<open>
  A relation between the store before and the store after an operation, error or not. Where the
  relation is a preorder, the combinators carry it; each component proves it of its own writes.
\<close>

definition keeps :: "(store \<Rightarrow> store \<Rightarrow> bool) \<Rightarrow> 'a op \<Rightarrow> bool" where
  "keeps R m \<longleftrightarrow> (\<forall>s. R s (snd (m s)))"

lemma keepsI: "(\<And>s. R s (snd (m s))) \<Longrightarrow> keeps R m"
  by (simp add: keeps_def)

lemma keepsD: "keeps R m \<Longrightarrow> m s = (r, t) \<Longrightarrow> R s t"
  by (metis keeps_def snd_conv)

lemma keeps_mono: "keeps R m \<Longrightarrow> (\<And>s t. R s t \<Longrightarrow> Q s t) \<Longrightarrow> keeps Q m"
  by (simp add: keeps_def)

locale frame =
  fixes R :: "store \<Rightarrow> store \<Rightarrow> bool"
  assumes refl: "R s s"
    and trans: "R s t \<Longrightarrow> R t u \<Longrightarrow> R s u"
begin

lemma ok_keeps [intro!, simp]: "keeps R (ok x)"
  by (simp add: keeps_def ok_run refl)

lemma fail_keeps [intro!, simp]: "keeps R (fail e)"
  by (simp add: keeps_def fail_run refl)

lemma query_keeps [intro!, simp]: "keeps R (query f)"
  by (simp add: keeps_def query_run refl)

lemma ensure_keeps [intro!, simp]: "keeps R (ensure c e)"
  by (simp add: keeps_def ensure_run refl)

lemma found_keeps [intro!, simp]: "keeps R (found x e)"
  by (simp add: keeps_def found_run refl)

lemma fetch_keeps [intro!, simp]: "keeps R (fetch f e)"
  by (simp add: keeps_def fetch_run refl)

lemma attempt_keeps [intro!, simp]: "keeps R (attempt f)"
  by (simp add: keeps_def attempt_run refl)

lemma exec_keeps [intro]: "(\<And>s. R s (f s)) \<Longrightarrow> keeps R (exec f)"
  by (simp add: keeps_def exec_run)

lemma andthen_keeps [intro!]:
  assumes "keeps R m" and "\<And>x. keeps R (f x)"
  shows "keeps R (andthen m f)"
proof (rule keepsI)
  fix s
  show "R s (snd (andthen m f s))"
  proof (cases "m s")
    case (Pair r t)
    then have "R s t" using assms(1) by (metis keepsD)
    with assms(2) Pair show ?thesis
      by (cases r) (auto simp: andthen_run keeps_def intro: trans)
  qed
qed

lemma each_keeps [intro!]: "(\<And>x. x \<in> set xs \<Longrightarrow> keeps R (f x)) \<Longrightarrow> keeps R (each f xs)"
  by (induction xs) auto

lemma collect_keeps [intro!]: "(\<And>x. x \<in> set xs \<Longrightarrow> keeps R (f x)) \<Longrightarrow> keeps R (collect f xs)"
  by (induction xs) auto

lemma if_keeps [intro!]: "(c \<Longrightarrow> keeps R m) \<Longrightarrow> (\<not> c \<Longrightarrow> keeps R n) \<Longrightarrow> keeps R (if c then m else n)"
  by simp

lemma option_keeps [intro!]:
  "keeps R m \<Longrightarrow> (\<And>y. x = Some y \<Longrightarrow> keeps R (f y)) \<Longrightarrow> keeps R (case x of None \<Rightarrow> m | Some y \<Rightarrow> f y)"
  by (cases x) auto

lemma sum_keeps [intro!]:
  "(\<And>y. x = Inl y \<Longrightarrow> keeps R (f y)) \<Longrightarrow> (\<And>y. x = Inr y \<Longrightarrow> keeps R (g y)) \<Longrightarrow>
   keeps R (case x of Inl y \<Rightarrow> f y | Inr y \<Rightarrow> g y)"
  by (cases x) auto

lemma prod_keeps [intro!]: "(\<And>a b. x = (a, b) \<Longrightarrow> keeps R (f a b)) \<Longrightarrow> keeps R (case x of (a, b) \<Rightarrow> f a b)"
  by (cases x) auto

lemma let_keeps [intro!]: "keeps R (f v) \<Longrightarrow> keeps R (let x = v in f x)"
  by simp

end

section \<open>The clock and the recorder\<close>

text \<open>\<open>st_now\<close> is the RFC 3339 text of the clock; the date and SQLite's \<open>datetime('now')\<close> are cut from it.\<close>

definition today :: "store \<Rightarrow> string" where
  "today s = take 10 (st_now s)"

definition sql_now :: "store \<Rightarrow> string" where
  "sql_now s = take 10 (st_now s) @ '' '' @ take 8 (drop 11 (st_now s))"

text \<open>
  A recorder is absent (\<open>rec == nil\<close>) or answers whether it took the event; one it took is in
  the journal. Most callers discard its error.
\<close>

type_synonym recorder = "(event \<Rightarrow> bool) option"

definition mk_event :: "string \<Rightarrow> string \<Rightarrow> string \<Rightarrow> (string \<times> json) list \<Rightarrow> event" where
  "mk_event k a sev d = \<lparr>ev_kind = k, ev_actor = a, ev_severity = sev, ev_data = d\<rparr>"

definition journal :: "recorder \<Rightarrow> event \<Rightarrow> store \<Rightarrow> store" where
  "journal rec e s =
     (case rec of None \<Rightarrow> s
      | Some takes \<Rightarrow> if takes e then s\<lparr>st_journal := st_journal s @ [e]\<rparr> else s)"

definition emit :: "recorder \<Rightarrow> event \<Rightarrow> unit op" where
  "emit rec e = exec (journal rec e)"

lemma journal_tables [simp]:
  "st_tasks (journal rec e s) = st_tasks s" "st_artifacts (journal rec e s) = st_artifacts s"
  "st_options (journal rec e s) = st_options s" "st_anomalies (journal rec e s) = st_anomalies s"
  "st_requests (journal rec e s) = st_requests s" "st_analysts (journal rec e s) = st_analysts s"
  "st_halts (journal rec e s) = st_halts s" "st_drivers (journal rec e s) = st_drivers s"
  "st_sprints (journal rec e s) = st_sprints s" "st_now (journal rec e s) = st_now s"
  "st_charges (journal rec e s) = st_charges s" "st_chargeback (journal rec e s) = st_chargeback s"
  "st_forecasts (journal rec e s) = st_forecasts s" "st_rules (journal rec e s) = st_rules s"
  "st_explainers (journal rec e s) = st_explainers s" "st_unit_rules (journal rec e s) = st_unit_rules s"
  "st_attribution (journal rec e s) = st_attribution s"
  by (auto simp: journal_def split: option.splits)

section \<open>Rows and keys\<close>

text \<open>The rowid SQLite gives an insert into an \<open>INTEGER PRIMARY KEY\<close> table.\<close>

definition next_id :: "int list \<Rightarrow> int" where
  "next_id ids = (if ids = [] then 1 else Max (set ids) + 1)"

lemma next_id_fresh: "next_id ids \<notin> set ids"
proof
  assume a: "next_id ids \<in> set ids"
  then have "next_id ids \<le> Max (set ids)" by simp
  moreover have "next_id ids = Max (set ids) + 1" using a by (auto simp: next_id_def)
  ultimately show False by simp
qed

text \<open>\<open>UPDATE ... WHERE p\<close>, and a nullable column as its reader sees it.\<close>

definition update_where :: "('a \<Rightarrow> bool) \<Rightarrow> ('a \<Rightarrow> 'a) \<Rightarrow> 'a list \<Rightarrow> 'a list" where
  "update_where p f = map (\<lambda>r. if p r then f r else r)"

definition coalesce :: "string option \<Rightarrow> string" where
  "coalesce x = (case x of None \<Rightarrow> [] | Some v \<Rightarrow> v)"

definition null_if :: "string \<Rightarrow> string option" where
  "null_if v = (if v = [] then None else Some v)"

lemma coalesce_null_if [simp]: "coalesce (null_if v) = v"
  by (simp add: coalesce_def null_if_def)

lemma update_where_keeps:
  assumes "\<And>r. k (f r) = k r"
  shows "map k (update_where p f rs) = map k rs"
  using assms by (simp add: update_where_def)

lemma update_where_none: "\<not> (\<exists>r \<in> set rs. p r) \<Longrightarrow> update_where p f rs = rs"
  by (auto simp: update_where_def intro: map_idI)

lemma update_where_cases:
  assumes "x \<in> set (update_where p f rs)"
  shows "(\<exists>r \<in> set rs. p r \<and> x = f r) \<or> x \<in> set rs \<and> \<not> p x"
  using assms by (induction rs) (auto simp: update_where_def split: if_splits)

lemma find_update_where:
  assumes "\<And>r. q (f r) = q r"
  shows "find q (update_where p f rs) = map_option (\<lambda>r. if p r then f r else r) (find q rs)"
  using assms by (induction rs) (auto simp: update_where_def)

text \<open>A store with nothing in it, for concrete runs.\<close>

definition empty_store :: store where
  "empty_store = \<lparr>st_now = ''2026-10-05T09:00:00Z'', st_sprints = [], st_tasks = [], st_artifacts = [],
     st_comments = [], st_options = [], st_requests = [], st_analysts = [], st_halts = [],
     st_plan_asks = [], st_explainers = [], st_anomalies = [], st_teams = [], st_charges = [],
     st_drivers = [], st_rules = [], st_chargeback = [], st_unit_rules = [], st_forecasts = [], st_attribution = [],
     st_settings = [], st_journal = []\<rparr>"

end
