(* ===== verification/Board.thy ===== *)
theory Board
  imports Store
begin

text \<open>
  The board: \<open>internal/crew/crew.go\<close> (tasks, deliverables, the stamp, sprints) and the parts of
  \<open>roster.go\<close>, \<open>ownership.go\<close>, \<open>explainer.go\<close> and \<open>owner_of_anomaly.go\<close> that read or change who
  does the work and who answers for it.
\<close>

section \<open>Reads\<close>

definition open_states :: "task_state set" where
  "open_states = {Queued, Active, Blocked, Returned}"

definition task_open :: "task \<Rightarrow> bool" where
  "task_open t \<longleftrightarrow> tk_state t \<in> open_states"

definition over_guard :: "task \<Rightarrow> bool" where
  "over_guard t \<longleftrightarrow> tk_budget t > 0 \<and> tk_spent t > tk_budget t"

record task_filter =
  tf_sprint :: int
  tf_assignee :: string
  tf_desk :: string
  tf_state :: "task_state option"
  tf_anomaly :: string
  tf_open_only :: bool

definition no_filter :: task_filter where
  "no_filter = \<lparr>tf_sprint = 0, tf_assignee = [], tf_desk = [], tf_state = None, tf_anomaly = [], tf_open_only = False\<rparr>"

definition task_matches :: "task_filter \<Rightarrow> task \<Rightarrow> bool" where
  "task_matches f t \<longleftrightarrow>
     (tf_sprint f > 0 \<longrightarrow> tk_sprint t = tf_sprint f) \<and>
     (tf_assignee f \<noteq> [] \<longrightarrow> tk_assignee t = Some (tf_assignee f)) \<and>
     (tf_desk f \<noteq> [] \<longrightarrow> tk_desk t = tf_desk f) \<and>
     (\<forall>st \<in> set_option (tf_state f). tk_state t = st) \<and>
     (tf_anomaly f \<noteq> [] \<longrightarrow> tk_anomaly t = Some (tf_anomaly f)) \<and>
     (tf_open_only f \<longrightarrow> task_open t)"

definition tasks :: "task_filter \<Rightarrow> store \<Rightarrow> task list" where
  "tasks f s = rev (sort_key tk_id (filter (task_matches f) (st_tasks s)))"

definition get_task :: "int \<Rightarrow> store \<Rightarrow> task option" where
  "get_task i s = find (\<lambda>t. tk_id t = i) (tasks no_filter s)"

definition artifact_row :: "int \<Rightarrow> store \<Rightarrow> artifact option" where
  "artifact_row i s = find (\<lambda>a. ar_id a = i) (st_artifacts s)"

definition artifacts :: "int \<Rightarrow> store \<Rightarrow> artifact list" where
  "artifacts task s = sort_key ar_id (filter (\<lambda>a. ar_task a = task) (st_artifacts s))"

definition task_of_artifact :: "int \<Rightarrow> store \<Rightarrow> int option" where
  "task_of_artifact i s = map_option ar_task (artifact_row i s)"

definition get_artifact :: "int \<Rightarrow> store \<Rightarrow> artifact option" where
  "get_artifact i s =
     (case task_of_artifact i s of None \<Rightarrow> None
      | Some task \<Rightarrow> find (\<lambda>a. ar_id a = i) (artifacts task s))"

definition task_owner :: "int \<Rightarrow> store \<Rightarrow> string option" where
  "task_owner i s = map_option tk_owner (find (\<lambda>t. tk_id t = i) (st_tasks s))"

definition awaiting_stamp :: "store \<Rightarrow> task list" where
  "awaiting_stamp s =
     List.map_filter (\<lambda>i. get_task i s)
       (rev (sorted_list_of_set {tk_id t |t. t \<in> set (st_tasks s) \<and>
          (\<exists>a \<in> set (st_artifacts s). ar_task a = tk_id t \<and> ar_state a = Draft)}))"

lemma task_matches_all [simp]: "task_matches no_filter t"
  by (simp add: task_matches_def no_filter_def)

lemma set_tasks [simp]: "set (tasks f s) = {t \<in> set (st_tasks s). task_matches f t}"
  by (simp add: tasks_def)

lemma get_task_SomeD: "get_task i s = Some t \<Longrightarrow> t \<in> set (st_tasks s) \<and> tk_id t = i"
  by (auto simp: get_task_def find_Some_iff in_set_conv_nth dest: nth_mem)

lemma get_task_None: "get_task i s = None \<longleftrightarrow> i \<notin> tk_id ` set (st_tasks s)"
  by (auto simp: get_task_def find_None_iff)

lemma artifact_row_SomeD: "artifact_row i s = Some a \<Longrightarrow> a \<in> set (st_artifacts s) \<and> ar_id a = i"
  by (auto simp: artifact_row_def find_Some_iff)

section \<open>The roster, as the board reads it\<close>

definition roster :: "store \<Rightarrow> analyst list" where
  "roster s = sort_key (\<lambda>a. map byte (an_name a)) (st_analysts s)"

definition analyst_row :: "string \<Rightarrow> store \<Rightarrow> analyst option" where
  "analyst_row n s = find (\<lambda>a. an_name a = n) (st_analysts s)"

definition get_analyst :: "string \<Rightarrow> store \<Rightarrow> analyst option" where
  "get_analyst n s = find (\<lambda>a. an_name a = n) (roster s)"

definition owner_of :: "string \<Rightarrow> store \<Rightarrow> string" where
  "owner_of n s = (case analyst_row n s of None \<Rightarrow> [] | Some a \<Rightarrow> an_owner a)"

definition active_names :: "store \<Rightarrow> string list" where
  "active_names s = map an_name (filter (\<lambda>a. an_state a = ''active'') (roster s))"

definition assignable_to :: "string \<Rightarrow> unit op" where
  "assignable_to n =
     (if blank n then ok ()
      else andthen (fetch (analyst_row n) (NoSuchAnalyst n)) (\<lambda>a.
             ensure (an_state a \<noteq> ''suspended'') (ErrSuspended n)))"

section \<open>Writes\<close>

definition update_task :: "int \<Rightarrow> (task \<Rightarrow> task) \<Rightarrow> store \<Rightarrow> store" where
  "update_task i f s = s\<lparr>st_tasks := update_where (\<lambda>t. tk_id t = i) f (st_tasks s)\<rparr>"

definition update_artifact :: "int \<Rightarrow> (artifact \<Rightarrow> artifact) \<Rightarrow> store \<Rightarrow> store" where
  "update_artifact i f s = s\<lparr>st_artifacts := update_where (\<lambda>a. ar_id a = i) f (st_artifacts s)\<rparr>"

definition assign :: "int \<Rightarrow> string \<Rightarrow> unit op" where
  "assign i analyst =
     andthen (fetch (get_task i) ErrNotFound) (\<lambda>t.
     andthen (ensure (tk_state t \<noteq> Posted) ErrSettled) (\<lambda>_.
     andthen (assignable_to analyst) (\<lambda>_.
     exec (\<lambda>s. update_task i (\<lambda>r. r\<lparr>tk_assignee := Some analyst, tk_state := Active, tk_reason := [],
                                     tk_updated := st_now s\<rparr>) s))))"

definition block :: "int \<Rightarrow> string \<Rightarrow> unit op" where
  "block i reason =
     andthen (ensure (\<not> blank reason) ErrNeedReason) (\<lambda>_.
     andthen (fetch (get_task i) ErrNotFound) (\<lambda>t.
     andthen (ensure (tk_state t \<noteq> Posted) ErrSettled) (\<lambda>_.
     exec (\<lambda>s. update_task i (\<lambda>r. r\<lparr>tk_state := Blocked, tk_reason := reason, tk_updated := st_now s\<rparr>) s))))"

definition comment_on :: "int \<Rightarrow> string \<Rightarrow> string \<Rightarrow> unit op" where
  "comment_on i author body =
     andthen (ensure (\<not> blank body) EmptyComment) (\<lambda>_.
     andthen (fetch (get_task i) ErrNotFound) (\<lambda>_.
     exec (\<lambda>s. s\<lparr>st_comments := st_comments s @
        [\<lparr>cm_task = i, cm_author = author, cm_body = body, cm_created = st_now s\<rparr>]\<rparr>)))"

text \<open>The link check \<open>Post\<close>, \<open>Return\<close> and \<open>Approve\<close> share.\<close>

definition must_decide :: "string \<Rightarrow> string \<Rightarrow> unit op" where
  "must_decide link c =
     (case may_decide roles_yaml link c of None \<Rightarrow> ok () | Some why \<Rightarrow> fail (ErrMayNotDecide why))"

definition post :: "int \<Rightarrow> string \<Rightarrow> string \<Rightarrow> unit op" where
  "post i stamper link =
     andthen (must_decide link ''task.accept'') (\<lambda>_.
     andthen (fetch (artifact_row i) ErrNotFound) (\<lambda>a.
     andthen (ensure (ar_state a \<noteq> PostedDraft) ErrSettled) (\<lambda>_.
     andthen (exec (\<lambda>s. update_artifact i (\<lambda>r. r\<lparr>ar_state := PostedDraft, ar_stamped := st_now s,
                                                  ar_stamper := stamper, ar_reason := []\<rparr>) s)) (\<lambda>_.
     exec (\<lambda>s. update_task (ar_task a) (\<lambda>r. r\<lparr>tk_state := Posted, tk_updated := st_now s\<rparr>) s)))))"

definition return_artifact :: "int \<Rightarrow> string \<Rightarrow> string \<Rightarrow> unit op" where
  "return_artifact i reason link =
     andthen (ensure (\<not> blank reason) ErrNeedReason) (\<lambda>_.
     andthen (must_decide link ''task.return'') (\<lambda>_.
     andthen (fetch (artifact_row i) ErrNotFound) (\<lambda>a.
     andthen (ensure (ar_state a \<noteq> PostedDraft) ErrSettled) (\<lambda>_.
     andthen (exec (update_artifact i (\<lambda>r. r\<lparr>ar_state := ReturnedDraft, ar_reason := reason\<rparr>))) (\<lambda>_.
     exec (\<lambda>s. update_task (ar_task a) (\<lambda>r. r\<lparr>tk_state := Returned, tk_reason := reason,
                                              tk_updated := st_now s\<rparr>) s))))))"

definition state_for :: "string \<Rightarrow> task_state" where
  "state_for assignee = (if assignee = [] then Queued else Active)"

text \<open>\<open>ORDER BY label DESC LIMIT 1\<close>.\<close>

fun last_label :: "sprint list \<Rightarrow> sprint option" where
  "last_label [] = None"
| "last_label (p # ps) =
     (case last_label ps of None \<Rightarrow> Some p
      | Some q \<Rightarrow> if str_lt (sp_label p) (sp_label q) then Some q else Some p)"

definition current_sprint :: "store \<Rightarrow> int" where
  "current_sprint s =
     (case last_label (filter (\<lambda>p. sp_state p = SprintActive) (st_sprints s)) of
        Some p \<Rightarrow> sp_id p
      | None \<Rightarrow> (case last_label (st_sprints s) of Some p \<Rightarrow> sp_id p | None \<Rightarrow> 0))"

definition new_task :: "int \<Rightarrow> string \<Rightarrow> string \<Rightarrow> string \<Rightarrow> string \<Rightarrow> task_state \<Rightarrow> cents \<Rightarrow>
    string option \<Rightarrow> store \<Rightarrow> task" where
  "new_task sprint title goal assignee desk st budget anomaly s =
     \<lparr>tk_id = next_id (map tk_id (st_tasks s)), tk_sprint = sprint, tk_title = title, tk_goal = goal,
      tk_assignee = null_if assignee, tk_desk = desk, tk_state = st, tk_reason = [],
      tk_budget = budget, tk_spent = 0, tk_anomaly = anomaly, tk_created = st_now s,
      tk_updated = st_now s, tk_owner = owner_of assignee s,
      tk_micros = 0, tk_live = 0, tk_tokens = 0, tk_ceiling = 0\<rparr>"

definition insert_task :: "task \<Rightarrow> store \<Rightarrow> store" where
  "insert_task t s = s\<lparr>st_tasks := st_tasks s @ [t]\<rparr>"

definition from_anomaly :: "string \<Rightarrow> string \<Rightarrow> string \<Rightarrow> string \<Rightarrow> string \<Rightarrow> cents \<Rightarrow> int op" where
  "from_anomaly a title goal assignee desk budget = (\<lambda>s.
     case find (\<lambda>t. tk_anomaly t = Some a) (st_tasks s) of
       Some t \<Rightarrow> (Inr (tk_id t), s)
     | None \<Rightarrow>
         let t = new_task (current_sprint s) title goal assignee desk (state_for assignee) budget (Some a) s
         in (Inr (tk_id t), insert_task t s))"

definition desks :: "store \<Rightarrow> string list" where
  "desks s = sort_key (map byte) (remdups (filter (\<lambda>d. d \<noteq> []) (map tk_desk (st_tasks s))))"

section \<open>Approve and CloseSprint\<close>

record plan_item =
  pi_title :: string
  pi_goal :: string
  pi_assignee :: string
  pi_desk :: string
  pi_budget :: cents

record plan =
  pl_label :: string
  pl_start :: string
  pl_end :: string
  pl_goal :: string
  pl_items :: "plan_item list"
  pl_existing :: bool

definition insert_item :: "int \<Rightarrow> plan_item \<Rightarrow> store \<Rightarrow> store" where
  "insert_item sid it s =
     insert_task (new_task sid (pi_title it) (pi_goal it) (pi_assignee it) (pi_desk it)
       (if pi_assignee it \<noteq> [] then Active else Queued) (pi_budget it) None s) s"

definition approve :: "plan \<Rightarrow> string \<Rightarrow> nat op" where
  "approve p link =
     andthen (must_decide link ''sprint.approve'') (\<lambda>_.
     andthen (ensure (pl_items p \<noteq> []) NothingToPlan) (\<lambda>_.
     andthen (ensure (\<not> pl_existing p) (AlreadyOnBoard (pl_label p))) (\<lambda>_.
     (\<lambda>s. let sid = next_id (map sp_id (st_sprints s));
              s1 = s\<lparr>st_sprints := st_sprints s @
                [\<lparr>sp_id = sid, sp_label = pl_label p, sp_start = pl_start p, sp_end = pl_end p,
                  sp_state = SprintPlanned, sp_goal = pl_goal p\<rparr>]\<rparr>
          in (Inr (length (pl_items p)), fold (insert_item sid) (pl_items p) s1)))))"

definition close_sprint :: "int \<Rightarrow> nat op" where
  "close_sprint i =
     andthen (fetch (\<lambda>s. find (\<lambda>p. sp_id p = i) (st_sprints s)) NoSuchSprint) (\<lambda>p.
     andthen (ensure (sp_state p \<noteq> SprintClosed) SprintAlreadyClosed) (\<lambda>_.
     andthen (query (\<lambda>s. length (filter (\<lambda>t. tk_sprint t = i \<and> task_open t) (st_tasks s)))) (\<lambda>n.
     andthen (exec (\<lambda>s. s\<lparr>st_sprints := update_where (\<lambda>p. sp_id p = i)
                            (\<lambda>p. p\<lparr>sp_state := SprintClosed\<rparr>) (st_sprints s)\<rparr>)) (\<lambda>_.
     ok n))))"

section \<open>SpendInMonth\<close>

definition task_spend :: "string \<Rightarrow> string \<Rightarrow> store \<Rightarrow> cents" where
  "task_spend period who s =
     sum_list [tk_spent t. t \<leftarrow> st_tasks s, p \<leftarrow> st_sprints s,
       sp_id p = tk_sprint t \<and> take 7 (sp_start p) = period \<and> coalesce (tk_assignee t) = who]"

definition ask_spend :: "string \<Rightarrow> string \<Rightarrow> store \<Rightarrow> cents" where
  "ask_spend period who s =
     sum_list [pa_cents a. a \<leftarrow> st_plan_asks s, pa_month a = period \<and> pa_analyst a = who]"

definition spend_in_month :: "string \<Rightarrow> store \<Rightarrow> string \<Rightarrow> cents" where
  "spend_in_month period s who = wrap64 (task_spend period who s + ask_spend period who s)"

section \<open>Changing the roster\<close>

definition analyst_states :: "string list" where
  "analyst_states = [''active'', ''suspended'', ''restricted'', ''probation'', ''onboarding'']"

definition cadences :: "string list" where
  "cadences = [''daily'', ''weekly'', ''fortnightly'', ''monthly'', ''on-request'']"

definition update_analyst :: "string \<Rightarrow> (analyst \<Rightarrow> analyst) \<Rightarrow> store \<Rightarrow> store" where
  "update_analyst n f s = s\<lparr>st_analysts := update_where (\<lambda>a. an_name a = n) f (st_analysts s)\<rparr>"

definition set_state :: "string \<Rightarrow> string \<Rightarrow> string \<Rightarrow> unit op" where
  "set_state n st reason =
     andthen (ensure (st \<in> set analyst_states) (NoSuchState st)) (\<lambda>_.
     andthen (ensure (st = ''active'' \<or> \<not> blank reason) OffRotaNeedsReason) (\<lambda>_.
     andthen (fetch (get_analyst n) (NoSuchAnalyst n)) (\<lambda>_.
     exec (update_analyst n (\<lambda>a. a\<lparr>an_state := st,
             an_reason := (if st = ''active'' then [] else reason)\<rparr>)))))"

definition rebrief :: "analyst \<Rightarrow> unit op" where
  "rebrief b =
     andthen (fetch (get_analyst (an_name b)) (NoSuchAnalyst (an_name b))) (\<lambda>cur.
     andthen (ensure (an_per_task b > 0 \<and> an_monthly b > 0 \<and> an_per_task b \<le> an_monthly b) GuardsInverted) (\<lambda>_.
     andthen (ensure (an_cadence b \<in> set cadences) BadCadence) (\<lambda>_.
     exec (update_analyst (an_name cur) (\<lambda>a. a\<lparr>an_role := an_role b, an_mission := an_mission b,
       an_desk := an_desk b, an_engine := an_engine b, an_skills := an_skills b, an_rights := an_rights b,
       an_per_task := an_per_task b, an_monthly := an_monthly b, an_cadence := an_cadence b,
       an_audience := an_audience b\<rparr>)))))"

definition open_work :: "string \<Rightarrow> store \<Rightarrow> nat" where
  "open_work n s = length (filter (\<lambda>t. tk_assignee t = Some n \<and> task_open t) (st_tasks s))"

definition remove_analyst :: "string \<Rightarrow> unit op" where
  "remove_analyst n =
     andthen (fetch (get_analyst n) (NoSuchAnalyst n)) (\<lambda>_.
     andthen (ensure (n \<noteq> ''supervisor'') IsSupervisor) (\<lambda>_.
     andthen (query (open_work n)) (\<lambda>k.
     andthen (ensure (k = 0) (ErrHasWork k)) (\<lambda>_.
     andthen (query (\<lambda>s. length (filter (\<lambda>a. an_parent a = n) (st_analysts s)))) (\<lambda>c.
     andthen (ensure (c = 0) (HasChildren c)) (\<lambda>_.
     exec (\<lambda>s. s\<lparr>st_analysts := filter (\<lambda>a. an_name a \<noteq> n) (st_analysts s)\<rparr>)))))))"

text \<open>The parent a transfer leaves the analyst with, when the caller named none.\<close>

definition parent_after :: "analyst \<Rightarrow> string \<Rightarrow> string \<Rightarrow> store \<Rightarrow> string" where
  "parent_after a to_desk to_parent s =
     (if to_parent \<noteq> [] then to_parent
      else if to_desk \<noteq> an_desk a \<and> an_parent a = ''partner-'' @ an_desk a then
        (if \<exists>b \<in> set (st_analysts s). an_name b = ''partner-'' @ to_desk
         then ''partner-'' @ to_desk else ''supervisor'')
      else an_parent a)"

definition parent_check :: "string \<Rightarrow> analyst \<Rightarrow> string \<Rightarrow> unit op" where
  "parent_check n a to_parent =
     (if to_parent \<noteq> [] \<and> to_parent \<noteq> an_parent a
      then andthen (fetch (get_analyst to_parent) (NoSuchParent to_parent)) (\<lambda>p.
             ensure (an_parent p \<noteq> n) (ParentLoop to_parent))
      else ok ())"

definition move_work :: "string \<Rightarrow> string \<Rightarrow> string \<Rightarrow> store \<Rightarrow> store" where
  "move_work n desk owner s =
     s\<lparr>st_tasks := update_where (\<lambda>t. tk_assignee t = Some n \<and> task_open t)
                     (\<lambda>t. t\<lparr>tk_desk := desk, tk_owner := owner\<rparr>) (st_tasks s)\<rparr>"

definition transfer_checked :: "string \<Rightarrow> analyst \<Rightarrow> string \<Rightarrow> string \<Rightarrow> string \<Rightarrow> nat op" where
  "transfer_checked n a to_desk to_owner to_parent =
     andthen (ensure (\<not> (to_desk = an_desk a \<and> to_owner = an_owner a \<and>
                         (to_parent = [] \<or> to_parent = an_parent a))) NothingWouldChange) (\<lambda>_.
     andthen (ensure (to_parent \<noteq> n) UnderItself) (\<lambda>_.
     andthen (parent_check n a to_parent) (\<lambda>_.
     andthen (query (parent_after a to_desk to_parent)) (\<lambda>parent.
     andthen (exec (update_analyst n (\<lambda>b. b\<lparr>an_desk := to_desk, an_owner := to_owner, an_parent := parent\<rparr>))) (\<lambda>_.
     andthen (query (open_work n)) (\<lambda>moved.
     andthen (exec (move_work n to_desk to_owner)) (\<lambda>_. ok moved)))))))"

text \<open>An empty desk or owner means the present one.\<close>

definition transfer :: "string \<Rightarrow> string \<Rightarrow> string \<Rightarrow> string \<Rightarrow> nat op" where
  "transfer n to_desk to_owner to_parent =
     andthen (fetch (get_analyst n) (NoSuchAnalyst n)) (\<lambda>a.
     transfer_checked n a (if to_desk = [] then an_desk a else to_desk)
       (if to_owner = [] then an_owner a else to_owner) to_parent)"

section \<open>Whose anomaly it is\<close>

definition owner_of_anomaly :: "string \<Rightarrow> store \<Rightarrow> string" where
  "owner_of_anomaly i s =
     (let team = (case find (\<lambda>a. ay_id a = i) (st_anomalies s) of None \<Rightarrow> [] | Some a \<Rightarrow> ay_team a);
          team_owner = (case map_of (st_teams s) team of None \<Rightarrow> [] | Some o' \<Rightarrow> o');
          by_task = (case find (\<lambda>t. tk_anomaly t = Some i) (st_tasks s) of None \<Rightarrow> [] | Some t \<Rightarrow> tk_owner t)
      in if team \<noteq> [] \<and> team_owner \<noteq> [] then team_owner
         else if by_task \<noteq> [] then by_task
         else ''unclaimed'')"

section \<open>Explainers\<close>

definition get_explainer :: "int \<Rightarrow> store \<Rightarrow> explainer option" where
  "get_explainer i s = find (\<lambda>e. ex_id e = i) (rev (sort_key ex_id (st_explainers s)))"

definition draft_explainer :: "string \<Rightarrow> string \<Rightarrow> string \<Rightarrow> string \<Rightarrow> string \<Rightarrow> cents \<Rightarrow> int op" where
  "draft_explainer team topic audience author body amount = (\<lambda>s.
     let i = next_id (map ex_id (st_explainers s)) in
     (Inr i, s\<lparr>st_explainers := st_explainers s @
        [\<lparr>ex_id = i, ex_team = team, ex_topic = topic, ex_audience = audience, ex_author = author,
          ex_body = body, ex_state = ''draft'', ex_reason = [], ex_amount = amount,
          ex_created = today s, ex_published = [], ex_publisher = []\<rparr>]\<rparr>))"

definition publish :: "int \<Rightarrow> string \<Rightarrow> unit op" where
  "publish i by' =
     andthen (fetch (get_explainer i) NoSuchExplainer) (\<lambda>e.
     andthen (ensure (ex_state e \<noteq> ''published'') AlreadyPublished) (\<lambda>_.
     exec (\<lambda>s. s\<lparr>st_explainers := update_where (\<lambda>e. ex_id e = i)
        (\<lambda>e. e\<lparr>ex_state := ''published'', ex_published := st_now s, ex_publisher := by', ex_reason := []\<rparr>)
        (st_explainers s)\<rparr>)))"

definition publish_artifact :: "string \<Rightarrow> string \<Rightarrow> string \<Rightarrow> string \<Rightarrow> string \<Rightarrow> cents \<Rightarrow> string \<Rightarrow> int op" where
  "publish_artifact team topic audience author body amount by' =
     andthen (ensure (\<not> blank team \<and> \<not> blank topic) NeedsTeamAndTopic) (\<lambda>_.
     andthen (ensure (\<not> blank author) NoAuthor) (\<lambda>_.
     andthen (draft_explainer team topic audience author body amount) (\<lambda>i.
     andthen (publish i by') (\<lambda>_. ok i))))"

definition return_explainer :: "int \<Rightarrow> string \<Rightarrow> unit op" where
  "return_explainer i reason =
     andthen (ensure (\<not> blank reason) ErrNeedReason) (\<lambda>_.
     andthen (fetch (get_explainer i) NoSuchExplainer) (\<lambda>e.
     andthen (ensure (ex_state e \<noteq> ''published'') AlreadyPublished) (\<lambda>_.
     exec (\<lambda>s. s\<lparr>st_explainers := update_where (\<lambda>e. ex_id e = i)
        (\<lambda>e. e\<lparr>ex_state := ''returned'', ex_reason := reason\<rparr>) (st_explainers s)\<rparr>))))"

section \<open>The board as a transition system\<close>

text \<open>
  One move of a person or of the runner on the board, and the clock moving between them. The two
  writes of a decision request are the supervisor's (\<open>Answers\<close>): they are steps of the whole desk.
\<close>

inductive board_step :: "store \<Rightarrow> store \<Rightarrow> bool" where
  assign_step: "board_step s (snd (assign i who s))"
| block_step: "board_step s (snd (block i reason s))"
| comment_step: "board_step s (snd (comment_on i author body s))"
| post_step: "board_step s (snd (post i stamper link s))"
| return_step: "board_step s (snd (return_artifact i reason link s))"
| anomaly_step: "board_step s (snd (from_anomaly a title goal who desk budget s))"
| approve_step: "board_step s (snd (approve p link s))"
| close_step: "board_step s (snd (close_sprint i s))"
| state_step: "board_step s (snd (set_state n st reason s))"
| rebrief_step: "board_step s (snd (rebrief b s))"
| remove_step: "board_step s (snd (remove_analyst n s))"
| transfer_step: "board_step s (snd (transfer n d o' p' s))"
| clock_step: "board_step s (s\<lparr>st_now := now\<rparr>)"

inductive_cases board_stepE: "board_step s t"

lemma board_step_keeps:
  assumes step: "board_step s t"
    and "\<And>i who. keeps R (assign i who)" "\<And>i r. keeps R (block i r)"
    and "\<And>i a b. keeps R (comment_on i a b)" "\<And>i a l. keeps R (post i a l)"
    and "\<And>i r l. keeps R (return_artifact i r l)"
    and "\<And>a ti g w d b. keeps R (from_anomaly a ti g w d b)" "\<And>p l. keeps R (approve p l)"
    and "\<And>i. keeps R (close_sprint i)" "\<And>n st r. keeps R (set_state n st r)"
    and "\<And>b. keeps R (rebrief b)" "\<And>n. keeps R (remove_analyst n)"
    and "\<And>n d o' p'. keeps R (transfer n d o' p')"
    and "\<And>now s. R s (s\<lparr>st_now := now\<rparr>)"
  shows "R s t"
  using step by cases (simp_all only: assms(2-) [unfolded keeps_def, rule_format])

text \<open>
  What the board does to the deliverables: none is added or lost, what each is of and by whom stays,
  and the row of a posted one stays in every column. Ids are a primary key, so the last is stated of
  stores whose artifact ids are distinct.
\<close>

definition artifact_mark :: "artifact \<Rightarrow> int \<times> int \<times> string \<times> string \<times> string" where
  "artifact_mark a = (ar_id a, ar_task a, ar_author a, ar_title a, ar_created a)"

definition posted_kept :: "store \<Rightarrow> store \<Rightarrow> bool" where
  "posted_kept s t \<longleftrightarrow>
     st_requests t = st_requests s \<and>
     map artifact_mark (st_artifacts t) = map artifact_mark (st_artifacts s) \<and>
     (distinct (map ar_id (st_artifacts s)) \<longrightarrow>
        (\<forall>a \<in> set (st_artifacts s). ar_state a = PostedDraft \<longrightarrow> a \<in> set (st_artifacts t)))"

lemma mark_ids: "map artifact_mark xs = map artifact_mark ys \<Longrightarrow> map ar_id xs = map ar_id ys"
proof -
  assume "map artifact_mark xs = map artifact_mark ys"
  then have "map fst (map artifact_mark xs) = map fst (map artifact_mark ys)" by simp
  then show ?thesis by (simp add: artifact_mark_def comp_def)
qed

interpretation pk: frame posted_kept
  by unfold_locales (auto simp: posted_kept_def dest: mark_ids)

lemma posted_kept_same: "st_artifacts t = st_artifacts s \<Longrightarrow> st_requests t = st_requests s \<Longrightarrow> posted_kept s t"
  by (simp add: posted_kept_def)

lemma distinct_key_eq: "distinct (map k xs) \<Longrightarrow> x \<in> set xs \<Longrightarrow> y \<in> set xs \<Longrightarrow> k x = k y \<Longrightarrow> x = y"
  by (metis distinct_map inj_onD)

lemma posted_kept_settle:
  assumes "artifact_row i s = Some a" and "ar_state a \<noteq> PostedDraft" and "\<And>r. artifact_mark (f r) = artifact_mark r"
  shows "posted_kept s (update_task k g (update_artifact i f s))" (is "posted_kept s ?t")
  unfolding posted_kept_def
proof (intro impI conjI ballI)
  show "st_requests ?t = st_requests s" by (simp add: update_task_def update_artifact_def)
  show "map artifact_mark (st_artifacts ?t) = map artifact_mark (st_artifacts s)"
    using assms(3) by (simp add: update_task_def update_artifact_def update_where_keeps)
  assume d: "distinct (map ar_id (st_artifacts s))"
  fix b
  assume b: "b \<in> set (st_artifacts s)" "ar_state b = PostedDraft"
  have "ar_id b \<noteq> i"
  proof
    assume "ar_id b = i"
    then have "b = a" using artifact_row_SomeD [OF assms(1)] b(1) d by (intro distinct_key_eq [OF d]) auto
    with b(2) assms(2) show False by simp
  qed
  with b(1) show "b \<in> set (st_artifacts ?t)"
    unfolding update_task_def update_artifact_def update_where_def by force
qed

lemmas task_writes = update_task_def insert_task_def update_analyst_def

lemma insert_item_same [simp]:
  "st_artifacts (insert_item sid it s) = st_artifacts s" "st_requests (insert_item sid it s) = st_requests s"
  "st_anomalies (insert_item sid it s) = st_anomalies s"
  by (simp_all add: insert_item_def insert_task_def)

lemma fold_insert_item_same [simp]:
  "st_artifacts (fold (insert_item sid) its s) = st_artifacts s"
  "st_requests (fold (insert_item sid) its s) = st_requests s"
  by (induction its arbitrary: s) simp_all

lemma board_ops_keep_posted:
  "keeps posted_kept (assign i who)" "keeps posted_kept (block i reason)"
  "keeps posted_kept (comment_on i author body)" "keeps posted_kept (from_anomaly a title goal w d b)"
  "keeps posted_kept (approve p link)" "keeps posted_kept (close_sprint i)"
  "keeps posted_kept (set_state n st reason)" "keeps posted_kept (rebrief br)"
  "keeps posted_kept (remove_analyst n)" "keeps posted_kept (transfer n dd oo pp)"
  unfolding assign_def block_def comment_on_def from_anomaly_def approve_def close_sprint_def
    set_state_def rebrief_def remove_analyst_def transfer_def transfer_checked_def parent_check_def move_work_def assignable_to_def must_decide_def Let_def
  by (auto intro!: posted_kept_same keepsI simp: task_writes Let_def op_run split: option.splits)

lemma post_keeps_posted: "keeps posted_kept (post i stamper link)"
proof (rule keepsI)
  fix s
  show "posted_kept s (snd (post i stamper link s))"
  proof (cases "artifact_row i s")
    case (Some a)
    then show ?thesis
      by (auto simp: post_def must_decide_def op_run pk.refl posted_kept_settle artifact_mark_def
          split: option.splits)
  qed (auto simp: post_def must_decide_def op_run pk.refl split: option.splits)
qed

lemma return_keeps_posted: "keeps posted_kept (return_artifact i reason link)"
proof (rule keepsI)
  fix s
  show "posted_kept s (snd (return_artifact i reason link s))"
  proof (cases "artifact_row i s")
    case (Some a)
    then show ?thesis
      by (auto simp: return_artifact_def must_decide_def op_run pk.refl posted_kept_settle artifact_mark_def
          split: option.splits)
  qed (auto simp: return_artifact_def must_decide_def op_run pk.refl split: option.splits)
qed

lemma board_step_posted:
  assumes "board_step s t"
  shows "posted_kept s t"
  by (rule board_step_keeps [OF assms])
    (rule board_ops_keep_posted post_keeps_posted return_keeps_posted | simp add: posted_kept_same)+

text \<open>A board of one analyst, one task and its posted deliverable, for the witnesses.\<close>

definition demo_task :: task where
  "demo_task = \<lparr>tk_id = 1, tk_sprint = 1, tk_title = ''t'', tk_goal = [], tk_assignee = Some ''ann'',
     tk_desk = ''aws'', tk_state = Active, tk_reason = [], tk_budget = 500, tk_spent = 120,
     tk_anomaly = Some ''A-1'', tk_created = [], tk_updated = [], tk_owner = ''boss'',
     tk_micros = 0, tk_live = 0, tk_tokens = 0, tk_ceiling = 0\<rparr>"

definition demo_artifact :: artifact where
  "demo_artifact = \<lparr>ar_id = 1, ar_task = 1, ar_author = ''ann'', ar_title = ''t'', ar_body = ''b'',
     ar_state = PostedDraft, ar_reason = [], ar_created = [], ar_stamped = [], ar_stamper = ''boss''\<rparr>"

definition demo_analyst :: analyst where
  "demo_analyst = \<lparr>an_name = ''ann'', an_role = ''r'', an_mission = [], an_desk = ''aws'', an_engine = [],
     an_state = ''active'', an_reason = [], an_skills = [], an_rights = [], an_per_task = 100,
     an_monthly = 1000, an_cadence = ''daily'', an_audience = [], an_owner = ''boss'', an_parent = [],
     an_attestation = ''none'', an_detail = [], an_hired = []\<rparr>"

definition demo_board :: store where
  "demo_board = empty_store\<lparr>st_tasks := [demo_task], st_artifacts := [demo_artifact],
     st_analysts := [demo_analyst]\<rparr>"

section \<open>Who may stamp\<close>

lemma role_for_member: "role_for rf n = Some r \<Longrightarrow>
    r \<in> set (rf_roles rf) \<and> (jd_family r = n \<or> list_ex (\<lambda>m. path_match m n) (jd_matches r))"
  by (auto simp: role_for_def find_Some_iff in_set_conv_nth split: option.splits)

lemma path_match_plain: "CHR ''*'' \<notin> set m \<Longrightarrow> path_match m n \<longleftrightarrow> m = n"
  by (induction m n rule: path_match.induct) auto

lemma yaml_board_classes:
  "list_all (\<lambda>r. set (jd_decides_alone r) \<inter> {''task.accept'', ''task.return''} \<noteq> {} \<longrightarrow>
       jd_family r = ''supervisor'' \<and> jd_matches r = [''supervisor'']) (rf_roles roles_yaml)"
  "list_all (\<lambda>r. ''sprint.approve'' \<notin> set (jd_decides_alone r)) (rf_roles roles_yaml)"
  "list_all (\<lambda>c. map_option jc_owner (class_for roles_yaml c) = Some ''supervisor'') [''task.accept'', ''task.return'']"
  "map_option jc_owner (class_for roles_yaml ''sprint.approve'') = Some ''owner''"
  by code_simp+

lemma stamp_links:
  assumes "c \<in> {''task.accept'', ''task.return''}"
  shows "may_decide roles_yaml link c = None \<longleftrightarrow> link \<in> {''owner'', ''supervisor''}"
proof -
  obtain jc where jc: "class_for roles_yaml c = Some jc" "jc_owner jc = ''supervisor''"
    using assms yaml_board_classes(3) by auto
  have "link = ''supervisor''" if "role_for roles_yaml link = Some r" "c \<in> set (jd_decides_alone r)" for r
  proof -
    from that(1) have r: "r \<in> set (rf_roles roles_yaml)"
        "jd_family r = link \<or> list_ex (\<lambda>m. path_match m link) (jd_matches r)"
      using role_for_member by blast+
    then have "jd_family r = ''supervisor''" "jd_matches r = [''supervisor'']"
      using yaml_board_classes(1) assms that(2) unfolding list_all_iff by blast+
    with r(2) show ?thesis by (auto simp: path_match_plain)
  qed
  with jc show ?thesis unfolding may_decide_cases by auto
qed

lemma approve_link: "may_decide roles_yaml link ''sprint.approve'' = None \<longleftrightarrow> link = ''owner''"
proof -
  obtain jc where jc: "class_for roles_yaml ''sprint.approve'' = Some jc" "jc_owner jc = ''owner''"
    using yaml_board_classes(4) by auto
  have "''sprint.approve'' \<notin> set (jd_decides_alone r)" if "role_for roles_yaml link = Some r" for r
    using that yaml_board_classes(2) role_for_member unfolding list_all_iff by blast
  with jc show ?thesis unfolding may_decide_cases by auto
qed

text \<open>
  No analyst stamps: posting or returning a deliverable is refused to every link but the
  owner's and the supervisor's, whatever roster name or role family is passed, materialising a
  sprint plan is refused to all but the owner's, and a refusal changes nothing at all.
\<close>

theorem only_links_stamp:
  assumes "link \<notin> {''owner'', ''supervisor''}"
  shows "(\<exists>e. post i stamper link s = (Inl e, s)) \<and> (\<exists>e. return_artifact i reason link s = (Inl e, s)) \<and>
    (\<exists>e. approve p link s = (Inl e, s)) \<and> (\<exists>e. approve p ''supervisor'' s = (Inl e, s))"
proof -
  have no: "\<exists>w. may_decide roles_yaml link c = Some w" if "c \<in> {''task.accept'', ''task.return''}" for c
    using stamp_links [OF that, of link] assms by (cases "may_decide roles_yaml link c") auto
  have na: "\<exists>w. may_decide roles_yaml l ''sprint.approve'' = Some w" if "l \<noteq> ''owner''" for l
    using approve_link [of l] that by (cases "may_decide roles_yaml l ''sprint.approve''") auto
  obtain w1 w2 w3 w4 where "may_decide roles_yaml link ''task.accept'' = Some w1"
      "may_decide roles_yaml link ''task.return'' = Some w2"
      "may_decide roles_yaml link ''sprint.approve'' = Some w3"
      "may_decide roles_yaml ''supervisor'' ''sprint.approve'' = Some w4"
    using no [of "''task.accept''"] no [of "''task.return''"] na [of link] na [of "''supervisor''"] assms by auto
  then show ?thesis
    by (simp add: post_def return_artifact_def approve_def must_decide_def op_run)
qed

theorem only_links_stamp_witness:
  "\<exists>e. post 1 ''ann'' ''investigator-aws'' demo_board = (Inl e, demo_board)"
  using only_links_stamp [of "''investigator-aws''" 1 "''ann''" demo_board "''late''"] by simp

section \<open>Handing an analyst over\<close>

lemma parent_check_ok: "parent_check n a p s = (Inr x, u) \<Longrightarrow> u = s"
  by (auto simp: parent_check_def op_ok split: if_splits)

lemma closed_tasks_stay:
  "filter (\<lambda>w. \<not> task_open w) (update_where (\<lambda>w. tk_assignee w = Some n \<and> task_open w)
     (\<lambda>w. w\<lparr>tk_desk := desk, tk_owner := owner\<rparr>) ws) = filter (\<lambda>w. \<not> task_open w) ws"
  by (induction ws) (auto simp: update_where_def task_open_def)

text \<open>
  A transfer moves the open work and leaves the history: a finished task keeps every column,
  so what each owner answered for stays what it was; each open task of the analyst changes its
  desk and its owner and nothing else; the count it returns is how many moved.
\<close>

theorem transfer_keeps_history:
  assumes "transfer n to_desk to_owner to_parent s = (Inr k, t)"
  shows "\<exists>desk owner.
      st_tasks t = map (\<lambda>w. if tk_assignee w = Some n \<and> task_open w then w\<lparr>tk_desk := desk, tk_owner := owner\<rparr> else w) (st_tasks s)
      \<and> k = length (filter (\<lambda>w. tk_assignee w = Some n \<and> task_open w) (st_tasks s))
      \<and> filter (\<lambda>w. \<not> task_open w) (st_tasks t) = filter (\<lambda>w. \<not> task_open w) (st_tasks s)
      \<and> st_artifacts t = st_artifacts s
      \<and> (\<forall>a \<in> set (st_analysts t). an_name a = n \<longrightarrow> an_desk a = desk \<and> an_owner a = owner)"
proof -
  obtain a desk owner where "transfer_checked n a desk owner to_parent s = (Inr k, t)"
    using assms unfolding transfer_def op_ok by blast
  then obtain parent where
    t: "t = move_work n desk owner (update_analyst n
          (\<lambda>b. b\<lparr>an_desk := desk, an_owner := owner, an_parent := parent\<rparr>) s)"
    and k: "k = open_work n (update_analyst n
          (\<lambda>b. b\<lparr>an_desk := desk, an_owner := owner, an_parent := parent\<rparr>) s)"
    unfolding transfer_checked_def op_ok by (blast dest: parent_check_ok)
  let ?f = "\<lambda>b. b\<lparr>an_desk := desk, an_owner := owner, an_parent := parent\<rparr>"
  have same: "st_tasks (update_analyst n ?f s) = st_tasks s" "st_artifacts (update_analyst n ?f s) = st_artifacts s"
    by (simp_all add: update_analyst_def)
  have ws: "st_tasks t = update_where (\<lambda>w. tk_assignee w = Some n \<and> task_open w)
      (\<lambda>w. w\<lparr>tk_desk := desk, tk_owner := owner\<rparr>) (st_tasks s)"
    unfolding t move_work_def by (simp add: same)
  show ?thesis
  proof (intro exI conjI)
    show "st_tasks t = map (\<lambda>w. if tk_assignee w = Some n \<and> task_open w
        then w\<lparr>tk_desk := desk, tk_owner := owner\<rparr> else w) (st_tasks s)"
      unfolding ws update_where_def ..
    show "k = length (filter (\<lambda>w. tk_assignee w = Some n \<and> task_open w) (st_tasks s))"
      unfolding k open_work_def same ..
    show "filter (\<lambda>w. \<not> task_open w) (st_tasks t) = filter (\<lambda>w. \<not> task_open w) (st_tasks s)"
      unfolding ws by (rule closed_tasks_stay)
    show "st_artifacts t = st_artifacts s"
      unfolding t move_work_def by (simp add: same)
    have as: "st_analysts t = update_where (\<lambda>a. an_name a = n) ?f (st_analysts s)"
      unfolding t move_work_def update_analyst_def by simp
    show "\<forall>a \<in> set (st_analysts t). an_name a = n \<longrightarrow> an_desk a = desk \<and> an_owner a = owner"
    proof (intro ballI impI)
      fix a
      assume "a \<in> set (st_analysts t)" and n: "an_name a = n"
      from update_where_cases [OF this(1) [unfolded as]] n obtain b where "a = ?f b" by blast
      then show "an_desk a = desk \<and> an_owner a = owner" by simp
    qed
  qed
qed

theorem transfer_keeps_history_witness:
  "filter (\<lambda>w. \<not> task_open w) (st_tasks (snd (transfer ''ann'' ''gcp'' [] [] demo_board))) =
   filter (\<lambda>w. \<not> task_open w) (st_tasks demo_board)"
proof -
  have "fst (transfer ''ann'' ''gcp'' [] [] demo_board) = Inr 1" by code_simp
  then have "transfer ''ann'' ''gcp'' [] [] demo_board =
      (Inr 1, snd (transfer ''ann'' ''gcp'' [] [] demo_board))"
    by (rule run_fst)
  from transfer_keeps_history [OF this] show ?thesis by blast
qed

section \<open>One task per anomaly\<close>

definition task_keys_ok :: "store \<Rightarrow> bool" where
  "task_keys_ok s \<longleftrightarrow> distinct (map tk_id (st_tasks s)) \<and>
     distinct (List.map_filter tk_anomaly (st_tasks s))"

definition keys_kept :: "store \<Rightarrow> store \<Rightarrow> bool" where
  "keys_kept s t \<longleftrightarrow> (task_keys_ok s \<longrightarrow> task_keys_ok t)"

interpretation kk: frame keys_kept
  by unfold_locales (auto simp: keys_kept_def)

lemma keys_kept_same:
  "map tk_id (st_tasks t) = map tk_id (st_tasks s) \<Longrightarrow> map tk_anomaly (st_tasks t) = map tk_anomaly (st_tasks s)
   \<Longrightarrow> keys_kept s t"
proof -
  have mf: "List.map_filter tk_anomaly ws = List.map_filter id (map tk_anomaly ws)" for ws
    by (induction ws) (auto simp: List.map_filter_def)
  show "map tk_id (st_tasks t) = map tk_id (st_tasks s) \<Longrightarrow> map tk_anomaly (st_tasks t) = map tk_anomaly (st_tasks s)
   \<Longrightarrow> keys_kept s t"
    by (simp add: keys_kept_def task_keys_ok_def mf)
qed

lemma insert_task_keys:
  assumes "tk_id t \<notin> tk_id ` set (st_tasks s)"
    and "\<forall>a. tk_anomaly t = Some a \<longrightarrow> a \<notin> set (List.map_filter tk_anomaly (st_tasks s))"
  shows "keys_kept s (insert_task t s)"
  using assms by (auto simp: keys_kept_def task_keys_ok_def insert_task_def List.map_filter_def split: option.splits)

lemma new_task_fresh: "tk_id (new_task sp ti g w d st b a s) \<notin> tk_id ` set (st_tasks s)"
  using next_id_fresh [of "map tk_id (st_tasks s)"] by (simp add: new_task_def)

lemma insert_item_keys: "keys_kept s (insert_item sid it s)"
  unfolding insert_item_def by (intro insert_task_keys new_task_fresh) (simp add: new_task_def)

lemma fold_insert_item_keys: "keys_kept s (fold (insert_item sid) its s)"
proof (induction its arbitrary: s)
  case (Cons it its)
  show ?case using kk.trans [OF insert_item_keys Cons.IH] by simp
qed (simp add: kk.refl)

lemma update_task_keys: "(\<And>r. tk_id (f r) = tk_id r \<and> tk_anomaly (f r) = tk_anomaly r) \<Longrightarrow> keys_kept s (update_task i f s)"
  by (rule keys_kept_same) (simp_all add: update_task_def update_where_keeps)

lemma anomaly_in_tasks: "a \<in> set (List.map_filter tk_anomaly ws) \<longleftrightarrow> (\<exists>w \<in> set ws. tk_anomaly w = Some a)"
  by (induction ws) (auto simp: List.map_filter_def)

lemma from_anomaly_keys: "keys_kept s (snd (from_anomaly a ti g w d b s))"
proof (cases "find (\<lambda>t. tk_anomaly t = Some a) (st_tasks s)")
  case None
  then have "\<not> (\<exists>w \<in> set (st_tasks s). tk_anomaly w = Some a)" by (auto simp: find_None_iff)
  then show ?thesis
    unfolding from_anomaly_def None
    by (simp add: Let_def insert_task_keys new_task_fresh new_task_def anomaly_in_tasks next_id_fresh [of "map tk_id (st_tasks s)", simplified])
qed (simp add: from_anomaly_def kk.refl)

lemma from_anomaly_keeps_keys: "keeps keys_kept (from_anomaly a ti g w d b)"
  by (rule keepsI) (rule from_anomaly_keys)

lemma same_tasks_keys: "st_tasks t = st_tasks s \<Longrightarrow> keys_kept s t"
  by (rule keys_kept_same) simp_all

lemma board_ops_keep_keys:
  "keeps keys_kept (assign i who)" "keeps keys_kept (block i reason)"
  "keeps keys_kept (comment_on i author body)" "keeps keys_kept (close_sprint i)"
  "keeps keys_kept (set_state n st reason)" "keeps keys_kept (rebrief br)"
  "keeps keys_kept (remove_analyst n)"
  unfolding assign_def block_def comment_on_def close_sprint_def set_state_def rebrief_def
    remove_analyst_def assignable_to_def
  by (intro kk.andthen_keeps kk.fetch_keeps kk.ensure_keeps kk.query_keeps kk.exec_keeps kk.if_keeps
      kk.ok_keeps update_task_keys; simp add: update_analyst_def same_tasks_keys)+

lemma post_return_keep_keys:
  "keeps keys_kept (post i stamper link)" "keeps keys_kept (return_artifact i reason link)"
  unfolding post_def return_artifact_def must_decide_def
  by (intro kk.andthen_keeps kk.fetch_keeps kk.ensure_keeps kk.exec_keeps kk.option_keeps kk.fail_keeps
      kk.ok_keeps update_task_keys; simp add: update_artifact_def same_tasks_keys)+

lemma approve_keeps_keys: "keeps keys_kept (approve p link)"
  unfolding approve_def must_decide_def
proof (intro kk.andthen_keeps kk.option_keeps kk.ensure_keeps kk.fail_keeps kk.ok_keeps)
  show "keeps keys_kept (\<lambda>s. let sid = next_id (map sp_id (st_sprints s));
              s1 = s\<lparr>st_sprints := st_sprints s @
                [\<lparr>sp_id = sid, sp_label = pl_label p, sp_start = pl_start p, sp_end = pl_end p,
                  sp_state = SprintPlanned, sp_goal = pl_goal p\<rparr>]\<rparr>
          in (Inr (length (pl_items p)), fold (insert_item sid) (pl_items p) s1))"
    by (rule keepsI) (simp add: Let_def, rule kk.trans [OF _ fold_insert_item_keys], simp add: same_tasks_keys)
qed

lemma transfer_keeps_keys: "keeps keys_kept (transfer n d o' p')"
  unfolding transfer_def transfer_checked_def parent_check_def
  by (intro kk.andthen_keeps kk.fetch_keeps kk.ensure_keeps kk.query_keeps kk.exec_keeps kk.if_keeps kk.ok_keeps)
    (simp_all add: update_analyst_def same_tasks_keys,
     simp add: keys_kept_same move_work_def update_where_keeps)

text \<open>
  C20. One investigation per anomaly, whatever happens on the board: from a store where ids are
  distinct and no two tasks name the same anomaly, every reachable store is such a store, so the
  task \<open>FromAnomaly\<close> finds is the only one there is, and asking again returns it and changes
  nothing.
\<close>

theorem one_task_per_anomaly:
  assumes "board_step\<^sup>*\<^sup>* s t" and "task_keys_ok s"
    and "v \<in> set (st_tasks t)" and "tk_anomaly v = Some a"
  shows "from_anomaly a title goal who desk budget t = (Inr (tk_id v), t)"
proof -
  have "keys_kept s t" using assms(1)
  proof (induction rule: rtranclp_induct)
    case base
    show ?case by (rule kk.refl)
  next
    case (step t u)
    have "keys_kept t u"
      by (rule board_step_keeps [OF step.hyps(2)])
        (rule board_ops_keep_keys post_return_keep_keys approve_keeps_keys transfer_keeps_keys
           from_anomaly_keeps_keys same_tasks_keys, simp?)+
    with step.IH show ?case by (rule kk.trans)
  qed
  with assms(2) have d: "distinct (List.map_filter tk_anomaly (st_tasks t))"
    by (simp add: keys_kept_def task_keys_ok_def)
  have "find (\<lambda>w. tk_anomaly w = Some a) ws = Some v"
    if "distinct (List.map_filter tk_anomaly ws)" "v \<in> set ws" for ws
    using that
  proof (induction ws)
    case (Cons w ws)
    then show ?case
      using assms(4) anomaly_in_tasks [of a ws]
      by (cases "tk_anomaly w") (auto simp: map_filter_simps)
  qed simp
  with d assms(3) show ?thesis by (simp add: from_anomaly_def)
qed

theorem one_task_per_anomaly_witness:
  "from_anomaly ''A-1'' ''again'' ''x'' ''bob'' ''gcp'' 7 (snd (block 1 ''waiting'' demo_board)) =
     (Inr 1, snd (block 1 ''waiting'' demo_board))"
proof -
  let ?v = "demo_task\<lparr>tk_state := Blocked, tk_reason := ''waiting'', tk_updated := ''2026-10-05T09:00:00Z''\<rparr>"
  have r: "board_step\<^sup>*\<^sup>* demo_board (snd (block 1 ''waiting'' demo_board))"
    by (rule r_into_rtranclp [of board_step, OF block_step])
  have k: "task_keys_ok demo_board"
    by (simp add: task_keys_ok_def demo_board_def List.map_filter_def demo_task_def)
  have "st_tasks (snd (block 1 ''waiting'' demo_board)) = [?v]" by code_simp
  then have v: "?v \<in> set (st_tasks (snd (block 1 ''waiting'' demo_board)))" by simp
  show ?thesis
    using one_task_per_anomaly [OF r k v, of "''A-1''" "''again''" "''x''" "''bob''" "''gcp''" 7]
    by (simp add: demo_task_def)
qed

end
