(* ===== verification/Spend.thy ===== *)
theory Spend
  imports Store
begin

text \<open>
  \<open>internal/estate\<close>: the medians announced decisions are measured against and the split of a
  step across teams (\<open>spend.go\<close>), the bound on an announced saving (\<open>bound.go\<close>), the drivers
  table (\<open>driver.go\<close>, \<open>query.go\<close>). A Go map keyed by team is an association list sorted by key.
\<close>

section \<open>Medians\<close>

definition pre_start_days :: int where "pre_start_days = 28"

definition median_of :: "cents list \<Rightarrow> cents" where
  "median_of vals =
     (let s = sort vals; n = length s in
      if n mod 2 = 1 then s ! (n div 2)
      else wrap64 (s ! (n div 2 - 1) + s ! (n div 2)) sdiv 2)"

text \<open>\<open>shiftDay\<close>, \<open>windowBefore\<close>, \<open>DecisionWindow\<close>.\<close>

definition shift_day :: "string \<Rightarrow> int \<Rightarrow> string" where
  "shift_day day n = (case parse_date day of None \<Rightarrow> day | Some d \<Rightarrow> format_date (add_days d n))"

definition window_before :: "string \<Rightarrow> string \<times> string" where
  "window_before anchor =
     (case parse_date anchor of None \<Rightarrow> (anchor, anchor)
      | Some d \<Rightarrow> (format_date (add_days d (- pre_start_days)), format_date (add_days d (-1))))"

fun max_text :: "string list \<Rightarrow> string option" where
  "max_text [] = None"
| "max_text (d # ds) = (case max_text ds of None \<Rightarrow> Some d | Some m \<Rightarrow> Some (if str_lt d m then m else d))"

definition latest_day :: "string \<Rightarrow> string \<Rightarrow> store \<Rightarrow> string option" where
  "latest_day source service s =
     max_text [ch_day c. c \<leftarrow> st_charges s, ch_source c = source \<and> ch_service c = service]"

definition decision_anchor :: "string \<Rightarrow> string \<Rightarrow> string \<Rightarrow> store \<Rightarrow> string" where
  "decision_anchor source service start s =
     (case latest_day source service s of None \<Rightarrow> start
      | Some d \<Rightarrow>
          if length d \<ge> 10 then
            (let next = shift_day (take 10 d) 1 in if str_lt next start then next else start)
          else start)"

definition decision_window :: "string \<Rightarrow> string \<Rightarrow> string \<Rightarrow> store \<Rightarrow> string \<times> string" where
  "decision_window source service start s = window_before (decision_anchor source service start s)"

text \<open>
  SQLite's \<open>SUM\<close> over integers: an error when a partial sum leaves 64 bits.
\<close>

fun sum_from :: "int \<Rightarrow> int list \<Rightarrow> int option" where
  "sum_from acc [] = Some acc"
| "sum_from acc (x # xs) = (if in64 (acc + x) then sum_from (acc + x) xs else None)"

lemma sum_from_Some: "sum_from acc xs = Some v \<Longrightarrow> v = acc + sum_list xs"
  by (induction xs arbitrary: acc) (fastforce split: if_splits)+

definition day_overflows :: "(charge \<Rightarrow> bool) \<Rightarrow> store \<Rightarrow> string \<Rightarrow> bool" where
  "day_overflows P s day \<longleftrightarrow> sum_from 0 [ch_billed c. c \<leftarrow> st_charges s, P c \<and> ch_day c = day] = None"

text \<open>\<open>SELECT day, SUM(billed_cents) ... GROUP BY day\<close>: the sums of the days a predicate selects.\<close>

definition charge_days :: "(charge \<Rightarrow> bool) \<Rightarrow> store \<Rightarrow> string list" where
  "charge_days P s = remdups (map ch_day (filter P (st_charges s)))"

definition day_sum :: "(charge \<Rightarrow> bool) \<Rightarrow> store \<Rightarrow> string \<Rightarrow> cents" where
  "day_sum P s day = sum_list [ch_billed c. c \<leftarrow> st_charges s, P c \<and> ch_day c = day]"

definition day_sums :: "(charge \<Rightarrow> bool) \<Rightarrow> store \<Rightarrow> (string \<times> cents) list" where
  "day_sums P s = map (\<lambda>d. (d, day_sum P s d)) (charge_days P s)"

definition in_window :: "string \<Rightarrow> string \<Rightarrow> string \<Rightarrow> string \<Rightarrow> charge \<Rightarrow> bool" where
  "in_window source service from to c \<longleftrightarrow>
     ch_source c = source \<and> ch_service c = service \<and> str_le from (ch_day c) \<and> str_le (ch_day c) to"

definition spend_median_in :: "string \<Rightarrow> string \<Rightarrow> string \<Rightarrow> string \<Rightarrow> string \<Rightarrow> store \<Rightarrow> cents option" where
  "spend_median_in source service team from to s =
     (let vals = map snd (day_sums (\<lambda>c. in_window source service from to c \<and> (team \<noteq> [] \<longrightarrow> ch_team c = team)) s)
      in if vals = [] then None else Some (median_of vals))"

definition spend_median :: "string \<Rightarrow> string \<Rightarrow> string \<Rightarrow> string \<Rightarrow> store \<Rightarrow> cents option" where
  "spend_median source service team start s =
     (let (from, to) = decision_window source service start s in spend_median_in source service team from to s)"

definition sort_names :: "string list \<Rightarrow> string list" where
  "sort_names ns = sort_key (map byte) (remdups ns)"

lemma sort_names_facts [simp]: "distinct (sort_names ns)" "set (sort_names ns) = set ns"
  by (simp_all add: sort_names_def)

definition team_spend_medians :: "string \<Rightarrow> string \<Rightarrow> string \<Rightarrow> store \<Rightarrow> (string \<times> cents) list" where
  "team_spend_medians source service start s =
     (let (from, to) = decision_window source service start s;
          P = (\<lambda>t c. in_window source service from to c \<and> ch_team c = t);
          teams = sort_names [ch_team c. c \<leftarrow> st_charges s, in_window source service from to c \<and> ch_team c \<noteq> []]
      in map (\<lambda>t. (t, median_of (map snd (day_sums (P t) s)))) teams)"

text \<open>Whether the query of \<open>TeamSpendMedians\<close> ends in an overflow.\<close>

definition team_spend_overflows :: "string \<Rightarrow> string \<Rightarrow> string \<Rightarrow> store \<Rightarrow> bool" where
  "team_spend_overflows source service start s =
     (let (from, to) = decision_window source service start s in
      list_ex (\<lambda>c. in_window source service from to c \<and> ch_team c \<noteq> [] \<and>
          day_overflows (\<lambda>e. in_window source service from to e \<and> ch_team e = ch_team c) s (ch_day c))
        (st_charges s))"

section \<open>SplitByMedian\<close>

text \<open>
  The products and the sum are \<open>big.Int\<close> in the code, so plain integers here; each share is read
  back with \<open>Int64\<close>.
\<close>

definition split_total :: "(string \<times> cents) list \<Rightarrow> int" where
  "split_total medians = sum_list [m. (t, m) \<leftarrow> medians, m > 0]"

definition split_quot :: "cents \<Rightarrow> (string \<times> cents) list \<Rightarrow> cents \<Rightarrow> int" where
  "split_quot daily medians m = (if m \<le> 0 then 0 else (daily * m) sdiv split_total medians)"

fun biggest_name :: "(string \<times> cents) list \<Rightarrow> (string \<times> cents) option \<Rightarrow> (string \<times> cents) option" where
  "biggest_name [] best = best"
| "biggest_name ((t, m) # rest) best =
     (if m \<le> 0 then biggest_name rest best
      else case best of None \<Rightarrow> biggest_name rest (Some (t, m))
           | Some (u, k) \<Rightarrow> biggest_name rest (if m > k then Some (t, m) else best))"

definition split_by_median :: "cents \<Rightarrow> (string \<times> cents) list \<Rightarrow> (string \<times> cents) list" where
  "split_by_median daily medians =
     (if split_total medians = 0 then []
      else
        let quots = map (\<lambda>(t, m). (t, split_quot daily medians m)) medians;
            remd = daily - sum_list (map snd quots)
        in if remd = 0 then map (\<lambda>(t, q). (t, wrap64 q)) quots
           else case biggest_name medians None of
                  None \<Rightarrow> map (\<lambda>(t, q). (t, wrap64 q)) quots
                | Some (best, _) \<Rightarrow>
                    map (\<lambda>(t, q). (t, if t = best then wrap64 (wrap64 q + wrap64 remd) else wrap64 q)) quots)"

section \<open>The bound on a saving\<close>

datatype saving_fault = NoSpendToMeasure | LargerThanSpend cents cents

definition saving_refusal :: "string \<Rightarrow> string \<Rightarrow> string \<Rightarrow> string \<Rightarrow> cents \<Rightarrow> store \<Rightarrow> saving_fault option" where
  "saving_refusal desk service team start daily s =
     (if daily \<ge> 0 then None
      else
        let (from, to) = decision_window desk service start s in
        case spend_median_in desk service team from to s of
          None \<Rightarrow> Some NoSpendToMeasure
        | Some m \<Rightarrow> if daily < wrap64 (- m) then Some (LargerThanSpend daily m) else None)"

section \<open>The drivers table\<close>

definition insert_driver :: "driver \<Rightarrow> unit op" where
  "insert_driver d = exec (\<lambda>s. s\<lparr>st_drivers := st_drivers s @ [d]\<rparr>)"

definition drivers :: "store \<Rightarrow> driver list" where
  "drivers s = sort_key (\<lambda>d. map byte (dr_start d)) (sort_key (\<lambda>d. map byte (dr_label d)) (st_drivers s))"

lemma set_drivers [simp]: "set (drivers s) = set (st_drivers s)"
  by (simp add: drivers_def)

section \<open>The split is exact\<close>

lemma split_total_nonneg: "0 \<le> split_total ms"
  unfolding split_total_def by (rule sum_list_nonneg) auto

lemma split_total_Cons: "split_total ((t, m) # ms) = (if m > 0 then m else 0) + split_total ms"
  by (simp add: split_total_def)

lemma split_total_member: "(t, m) \<in> set ms \<Longrightarrow> m \<le> split_total ms"
  by (induction ms) (auto simp: split_total_Cons split_total_nonneg add_increasing2 add_increasing split: if_splits)

definition portion :: "int \<Rightarrow> int \<Rightarrow> cents \<Rightarrow> int" where
  "portion d tot m = (d * max m 0) div tot"

lemma split_quot_portion:
  assumes "0 < split_total ms"
  shows "split_quot daily ms m = sgn daily * portion \<bar>daily\<bar> (split_total ms) m"
proof (cases "0 < m")
  case True
  then show ?thesis
    using assms by (simp add: split_quot_def portion_def signed_divide_int_def sgn_mult abs_mult)
qed (simp add: split_quot_def portion_def max_def)

lemma portion_nonneg: "0 \<le> d \<Longrightarrow> 0 < tot \<Longrightarrow> 0 \<le> portion d tot m"
  by (simp add: portion_def pos_imp_zdiv_nonneg_iff)

lemma portions_at_most:
  assumes "0 \<le> d" and "0 < tot"
  shows "tot * sum_list (map (\<lambda>(t, m). portion d tot m) ms) \<le> d * split_total ms"
proof (induction ms)
  case (Cons a ms)
  obtain t m where a: "a = (t, m)" by fastforce
  have "tot * portion d tot m \<le> d * max m 0"
    using assms(2) by (simp add: portion_def mult.commute [of tot] minus_mod_eq_div_mult [symmetric])
  moreover have "max m 0 = (if 0 < m then m else 0)" by simp
  ultimately show ?case using Cons by (cases "0 < m") (simp_all add: a split_total_Cons algebra_simps)
qed (simp add: split_total_def)

lemma portions_sum:
  assumes "0 \<le> d" and "0 < split_total ms"
  shows "0 \<le> sum_list (map (\<lambda>(t, m). portion d (split_total ms) m) ms)"
    and "sum_list (map (\<lambda>(t, m). portion d (split_total ms) m) ms) \<le> d"
proof -
  show "0 \<le> sum_list (map (\<lambda>(t, m). portion d (split_total ms) m) ms)"
    using portion_nonneg [OF assms] by (intro sum_list_nonneg) auto
  from portions_at_most [OF assms, of ms] assms(2)
  show "sum_list (map (\<lambda>(t, m). portion d (split_total ms) m) ms) \<le> d"
    by (simp add: mult.commute [of d])
qed

text \<open>What truncation leaves over is less than a cent for each team with spend.\<close>

definition with_spend :: "(string \<times> cents) list \<Rightarrow> int" where
  "with_spend ms = int (length (filter (\<lambda>(t, m). 0 < m) ms))"

lemma portions_rest:
  assumes "0 < tot"
  shows "d * split_total ms \<le> tot * sum_list (map (\<lambda>(t, m). portion d tot m) ms) + (tot - 1) * with_spend ms"
proof (induction ms)
  case (Cons a ms)
  obtain t m where a: "a = (t, m)" by fastforce
  have "d * max m 0 \<le> tot * portion d tot m + (tot - 1)"
    unfolding portion_def
    using pos_mod_bound [OF assms, of "d * max m 0"] mult_div_mod_eq [of tot "d * max m 0"] by linarith
  moreover have "portion d tot m = 0" if "\<not> 0 < m" using that by (simp add: portion_def max_def)
  ultimately show ?case using Cons.IH
    by (cases "0 < m") (simp_all add: a split_total_Cons with_spend_def algebra_simps)
qed (simp add: split_total_def with_spend_def)

lemma portions_left:
  assumes "0 < split_total ms"
  shows "split_total ms * (d - sum_list (map (\<lambda>(t, m). portion d (split_total ms) m) ms)) < split_total ms * with_spend ms"
proof -
  have "filter (\<lambda>(t, m). 0 < m) ms \<noteq> []"
  proof
    assume "filter (\<lambda>(t, m). 0 < m) ms = []"
    then have "\<forall>(t, m) \<in> set ms. \<not> 0 < m" by (auto simp: filter_empty_conv)
    then have "split_total ms = 0" by (induction ms) (auto simp: split_total_Cons split_total_def [of "[]"])
    with assms show False by simp
  qed
  then have "0 < with_spend ms" by (simp add: with_spend_def)
  then show ?thesis using portions_rest [OF assms, of d ms] by (simp add: algebra_simps)
qed

text \<open>The biggest median, and of equal ones the first.\<close>

definition first_biggest :: "string \<Rightarrow> cents \<Rightarrow> (string \<times> cents) list \<Rightarrow> bool" where
  "first_biggest t k ms \<longleftrightarrow>
     (\<exists>pre suf. ms = pre @ (t, k) # suf \<and> (\<forall>x \<in> set pre. snd x < k) \<and> (\<forall>x \<in> set suf. snd x \<le> k))"

lemma first_biggest_Cons: "first_biggest t k ms \<Longrightarrow> m < k \<Longrightarrow> first_biggest t k ((u, m) # ms)"
  unfolding first_biggest_def by (metis append_Cons set_ConsD snd_conv)

lemma first_biggest_here: "\<forall>x \<in> set ms. snd x \<le> k \<Longrightarrow> first_biggest t k ((t, k) # ms)"
  unfolding first_biggest_def by (metis append_Nil empty_iff empty_set)

lemma biggest_name_some:
  "biggest_name ms (Some (u, j)) = Some (t, k) \<Longrightarrow> 0 < j \<Longrightarrow>
   (t, k) = (u, j) \<and> (\<forall>x \<in> set ms. snd x \<le> j) \<or> first_biggest t k ms \<and> j < k"
proof (induction ms arbitrary: u j)
  case (Cons a ms)
  obtain v m where a: "a = (v, m)" by fastforce
  show ?case
  proof (cases "j < m")
    case True
    then have "biggest_name ms (Some (v, m)) = Some (t, k)" "0 < m" using Cons.prems by (auto simp: a)
    from Cons.IH [OF this] show ?thesis
      using True first_biggest_here [of ms m v] first_biggest_Cons [of t k ms m v] by (auto simp: a)
  next
    case False
    then have "biggest_name ms (Some (u, j)) = Some (t, k)" using Cons.prems by (auto simp: a split: if_splits)
    from Cons.IH [OF this Cons.prems(2)] show ?thesis
      using False first_biggest_Cons [of t k ms m v] by (auto simp: a)
  qed
qed simp

lemma biggest_name_spec: "biggest_name ms None = Some (t, k) \<Longrightarrow> first_biggest t k ms \<and> 0 < k"
proof (induction ms)
  case (Cons a ms)
  obtain v m where a: "a = (v, m)" by fastforce
  show ?case
  proof (cases "m \<le> 0")
    case True
    then show ?thesis using Cons first_biggest_Cons [of t k ms m v] by (simp add: a)
  next
    case False
    then have "biggest_name ms (Some (v, m)) = Some (t, k)" "0 < m" using Cons.prems by (simp_all add: a)
    from biggest_name_some [OF this] show ?thesis
      using False first_biggest_here [of ms m v] first_biggest_Cons [of t k ms m v] by (auto simp: a)
  qed
qed simp

lemma first_biggest_mem: "first_biggest t k ms \<Longrightarrow> (t, k) \<in> set ms"
  by (auto simp: first_biggest_def)

lemma biggest_name_None: "biggest_name ms None = None \<Longrightarrow> split_total ms = 0"
proof -
  have some: "biggest_name ms (Some b) \<noteq> None" for ms b
  proof (induction ms arbitrary: b)
    case (Cons a ms)
    then show ?case by (cases a; cases b) auto
  qed simp
  show "biggest_name ms None = None \<Longrightarrow> split_total ms = 0"
    by (induction ms) (auto simp: split_total_Cons some split_total_def [of "[]"] split: if_splits prod.splits)
qed

text \<open>The split before the remainder is placed, and after, with no word wrap in either.\<close>

definition quots :: "cents \<Rightarrow> (string \<times> cents) list \<Rightarrow> (string \<times> int) list" where
  "quots daily ms = map (\<lambda>(t, m). (t, split_quot daily ms m)) ms"

definition place :: "string \<Rightarrow> int \<Rightarrow> (string \<times> int) list \<Rightarrow> (string \<times> int) list" where
  "place best r = map (\<lambda>(t, q). (t, if t = best then q + r else q))"

lemma place_sum: "distinct (map fst qs) \<Longrightarrow> best \<in> fst ` set qs \<Longrightarrow>
    sum_list (map snd (place best r qs)) = sum_list (map snd qs) + r"
proof (induction qs)
  case (Cons a qs)
  have other: "place best r qs = qs" if "best \<notin> fst ` set qs" for qs
    using that by (induction qs) (auto simp: place_def)
  obtain t q where a: "a = (t, q)" by fastforce
  show ?case
  proof (cases "t = best")
    case True
    then have "best \<notin> fst ` set qs" using Cons.prems(1) a by simp
    then show ?thesis using other [of qs] True by (simp add: a place_def)
  next
    case False
    then show ?thesis using Cons a by (simp add: place_def)
  qed
qed simp

lemma sum_list_quots:
  assumes "0 < split_total ms"
  shows "sum_list (map snd (quots daily ms)) = sgn daily * sum_list (map (\<lambda>(t, m). portion \<bar>daily\<bar> (split_total ms) m) ms)"
proof -
  have "sum_list (map (\<lambda>(t, m). sgn daily * portion \<bar>daily\<bar> T m) ws) =
      sgn daily * sum_list (map (\<lambda>(t, m). portion \<bar>daily\<bar> T m) ws)" for T ws
    by (induction ws) (auto simp: algebra_simps)
  moreover have "map snd (quots daily ms) = map (\<lambda>(t, m). sgn daily * portion \<bar>daily\<bar> (split_total ms) m) ms"
    using split_quot_portion [OF assms] by (auto simp: quots_def)
  ultimately show ?thesis by simp
qed

lemma remainder_sign:
  assumes "0 < split_total ms"
  shows "0 \<le> sgn daily * (daily - sum_list (map snd (quots daily ms)))"
    and "\<bar>daily - sum_list (map snd (quots daily ms))\<bar> \<le> \<bar>daily\<bar>"
  using portions_sum [of "\<bar>daily\<bar>" ms] assms
  by (auto simp: sum_list_quots [OF assms] sgn_if split: if_splits)

lemma portion_le_sum:
  assumes "0 \<le> d" and "0 < tot" and "(t, m) \<in> set ms"
  shows "portion d tot m \<le> sum_list (map (\<lambda>(t, m). portion d tot m) ms)"
  using assms(3)
proof (induction ms)
  case (Cons a ms)
  have "0 \<le> sum_list (map (\<lambda>(t, m). portion d tot m) ms)"
    using portion_nonneg [OF assms(1,2)] by (intro sum_list_nonneg) auto
  with Cons portion_nonneg [OF assms(1,2)] show ?case
    by (cases a) (auto intro: order_trans)
qed simp

lemma in64_between: "in64 d \<Longrightarrow> 0 \<le> p \<Longrightarrow> p \<le> \<bar>d\<bar> \<Longrightarrow> in64 (sgn d * p)"
  by (auto simp: in64_def min64_def max64_def sgn_if split: if_splits)

lemma sgn_abs_mult: "sgn (d :: int) * \<bar>d\<bar> = d"
  by (simp add: sgn_if)

lemma sgn_twice: "0 \<le> (p :: int) \<Longrightarrow> 0 \<le> sgn d * (sgn d * p)"
  by (simp add: sgn_if)

lemma quots_portion: "0 < split_total ms \<Longrightarrow> (t, q) \<in> set (quots daily ms) \<Longrightarrow>
    \<exists>m. (t, m) \<in> set ms \<and> q = sgn daily * portion \<bar>daily\<bar> (split_total ms) m"
  by (auto simp: quots_def split_quot_portion)

lemma quots_in64:
  assumes "in64 daily" and "0 < split_total ms" and "(t, q) \<in> set (quots daily ms)"
  shows "in64 q"
proof -
  obtain m where m: "(t, m) \<in> set ms" "q = sgn daily * portion \<bar>daily\<bar> (split_total ms) m"
    using quots_portion [OF assms(2,3)] by blast
  have "portion \<bar>daily\<bar> (split_total ms) m \<le> \<bar>daily\<bar>"
    using portion_le_sum [OF _ assms(2) m(1)] portions_sum(2) [OF _ assms(2)] by (meson abs_ge_zero order_trans)
  then show ?thesis unfolding m(2)
    using in64_between [OF assms(1)] portion_nonneg [OF _ assms(2)] by simp
qed

lemma placed_share:
  assumes "in64 daily" and "0 < split_total ms" and "(t, q) \<in> set (quots daily ms)"
  defines "r \<equiv> daily - sum_list (map snd (quots daily ms))"
  shows "0 \<le> sgn daily * (q + r)" and "in64 (q + r)" and "in64 r"
proof -
  let ?P = "sum_list (map (\<lambda>(t, m). portion \<bar>daily\<bar> (split_total ms) m) ms)"
  obtain m where m: "(t, m) \<in> set ms" "q = sgn daily * portion \<bar>daily\<bar> (split_total ms) m"
    using quots_portion [OF assms(2,3)] by blast
  have le: "portion \<bar>daily\<bar> (split_total ms) m \<le> ?P" "?P \<le> \<bar>daily\<bar>" "0 \<le> ?P"
    using portion_le_sum [OF _ assms(2) m(1), of "\<bar>daily\<bar>"] portions_sum [OF _ assms(2), of "\<bar>daily\<bar>"] by simp_all
  have nn: "0 \<le> portion \<bar>daily\<bar> (split_total ms) m" by (simp add: portion_nonneg [OF _ assms(2)])
  have r: "r = sgn daily * (\<bar>daily\<bar> - ?P)"
    unfolding r_def sum_list_quots [OF assms(2)] by (simp add: right_diff_distrib sgn_abs_mult)
  have qr: "q + r = sgn daily * (portion \<bar>daily\<bar> (split_total ms) m + (\<bar>daily\<bar> - ?P))"
    unfolding r m(2) by (simp add: algebra_simps)
  show "in64 r" unfolding r by (rule in64_between [OF assms(1)]) (use le in linarith)+
  show "in64 (q + r)" unfolding qr by (rule in64_between [OF assms(1)]) (use le nn in linarith)+
  show "0 \<le> sgn daily * (q + r)" unfolding qr by (rule sgn_twice) (use le nn in linarith)
qed

lemma place_nothing: "place best 0 qs = qs"
  unfolding place_def by (rule map_idI) auto

lemma split_unwrapped:
  assumes "in64 daily" and "0 < split_total ms"
  defines "Q \<equiv> quots daily ms"
  defines "r \<equiv> daily - sum_list (map snd Q)"
  obtains best k where "first_biggest best k ms" "0 < k" "split_by_median daily ms = place best r Q"
proof -
  have sp: "split_by_median daily ms =
     (if r = 0 then map (\<lambda>(t, q). (t, wrap64 q)) Q
      else case biggest_name ms None of
             None \<Rightarrow> map (\<lambda>(t, q). (t, wrap64 q)) Q
           | Some (best, _) \<Rightarrow>
               map (\<lambda>(t, q). (t, if t = best then wrap64 (wrap64 q + wrap64 r) else wrap64 q)) Q)"
  proof -
    have "split_total ms \<noteq> 0" using assms(2) by simp
    then show ?thesis unfolding split_by_median_def Q_def r_def quots_def Let_def by (simp only: if_False)
  qed
  have w: "map (\<lambda>(t, q). (t, wrap64 q)) Q = Q"
    by (rule map_idI) (auto simp: Q_def wrap64_id dest: quots_in64 [OF assms(1,2)])
  obtain best k where b: "biggest_name ms None = Some (best, k)"
    using biggest_name_None [of ms] assms(2) by (cases "biggest_name ms None") auto
  have "map (\<lambda>(t, q). (t, if t = best then wrap64 (wrap64 q + wrap64 r) else wrap64 q)) Q = place best r Q"
    unfolding place_def
  proof (rule map_cong [OF HOL.refl])
    fix x assume x: "x \<in> set Q"
    obtain t q where "x = (t, q)" by fastforce
    with x show "(case x of (t, q) \<Rightarrow> (t, if t = best then wrap64 (wrap64 q + wrap64 r) else wrap64 q)) =
        (case x of (t, q) \<Rightarrow> (t, if t = best then q + r else q))"
      using quots_in64 [OF assms(1,2), of t q] placed_share(2,3) [OF assms(1,2), of t q]
      by (simp add: Q_def r_def wrap64_id)
  qed
  then have "split_by_median daily ms = place best r Q" using sp b w place_nothing [of best Q] by simp
  with biggest_name_spec [OF b] that show thesis by blast
qed

text \<open>
  A share in proportion, cut to whole cents toward zero: \<open>q\<close> has the sign of the step, is never more
  than the exact share \<open>daily * m / tot\<close> and less than a cent short of it; without spend it is zero.
\<close>

definition prorata :: "cents \<Rightarrow> int \<Rightarrow> cents \<Rightarrow> int \<Rightarrow> bool" where
  "prorata daily tot m q \<longleftrightarrow>
     0 \<le> sgn daily * q \<and> tot * \<bar>q\<bar> \<le> \<bar>daily\<bar> * max m 0 \<and> \<bar>daily\<bar> * max m 0 < tot * (\<bar>q\<bar> + 1)"

lemma abs_sgn_mult: "0 \<le> p \<Longrightarrow> (d :: int) = 0 \<longrightarrow> p = 0 \<Longrightarrow> \<bar>sgn d * p\<bar> = p"
  by (simp add: sgn_if)

lemma split_quot_size:
  assumes "0 < split_total ms"
  shows "\<bar>split_quot daily ms m\<bar> = portion \<bar>daily\<bar> (split_total ms) m"
    and "0 \<le> sgn daily * split_quot daily ms m"
  unfolding split_quot_portion [OF assms]
  using portion_nonneg [OF abs_ge_zero assms, of daily m]
  by (auto intro!: abs_sgn_mult sgn_twice simp: portion_def)

lemma split_quot_prorata:
  assumes "0 < split_total ms"
  shows "prorata daily (split_total ms) m (split_quot daily ms m)"
  unfolding prorata_def split_quot_size(1) [OF assms] portion_def distrib_left mult_1_right
  using split_quot_size(2) [OF assms, of daily m] pos_mod_bound [OF assms, of "\<bar>daily\<bar> * max m 0"]
    pos_mod_sign [OF assms, of "\<bar>daily\<bar> * max m 0"] mult_div_mod_eq [of "split_total ms" "\<bar>daily\<bar> * max m 0"]
  by (intro conjI) linarith+

text \<open>The share that takes the rest.\<close>

lemma biggest_share:
  fixes daily k :: int and ms :: "(string \<times> cents) list"
  assumes "0 < split_total ms" and "0 < k"
  defines "q \<equiv> split_quot daily ms k + (daily - sum_list (map snd (quots daily ms)))"
  shows "0 \<le> sgn daily * q" and "\<bar>daily\<bar> * k < split_total ms * (\<bar>q\<bar> + 1)"
    and "split_total ms * \<bar>q\<bar> < \<bar>daily\<bar> * k + split_total ms * with_spend ms"
proof -
  let ?T = "split_total ms" and ?d = "\<bar>daily\<bar>"
  let ?P = "sum_list (map (\<lambda>(t, m). portion ?d ?T m) ms)" and ?p = "portion ?d ?T k"
  have p: "0 \<le> ?p" "?T * ?p \<le> ?d * k" "?d * k < ?T * (?p + 1)"
    using split_quot_prorata [OF assms(1), of daily k] split_quot_size(1) [OF assms(1), of daily k] assms(2)
    by (auto simp: prorata_def portion_nonneg [OF abs_ge_zero assms(1)])
  have P: "?P \<le> ?d" by (rule portions_sum(2) [OF abs_ge_zero assms(1)])
  have q: "q = sgn daily * (?p + (?d - ?P))"
    unfolding q_def sum_list_quots [OF assms(1)] split_quot_portion [OF assms(1)]
    using sgn_abs_mult [of daily] by (simp add: algebra_simps)
  have "daily = 0 \<longrightarrow> ?p + (?d - ?P) = 0"
    using portions_sum(1) [OF abs_ge_zero assms(1), of daily] P by (auto simp: portion_def)
  then have a: "\<bar>q\<bar> = ?p + (?d - ?P)" unfolding q using p P by (intro abs_sgn_mult) auto
  show "0 \<le> sgn daily * q" unfolding q using p P by (intro sgn_twice) linarith
  have "?T * ?p + ?T \<le> ?T * ?p + ?T * (?d - ?P) + ?T" using P assms(1) by simp
  then show "?d * k < ?T * (\<bar>q\<bar> + 1)" unfolding a using p(3) by (simp add: algebra_simps)
  show "?T * \<bar>q\<bar> < ?d * k + ?T * with_spend ms"
    unfolding a using p(2) portions_left [OF assms(1), of ?d] by (simp add: algebra_simps)
qed

text \<open>
  C17. An announced step is split in proportion to the medians and to the cent. Every team of the
  medians gets a share; each share but one is the team's exact proportion cut to a whole cent toward
  zero (so a team with no spend before the start gets nothing); the shares add up to the step; and
  the one that takes what the cuts left over is the team with the biggest median, the first of them
  in the order of the names, whose share is above its own proportion by less than a cent for each
  team with spend.
\<close>

theorem split_is_exact:
  assumes "distinct (map fst ms)" and "in64 daily" and "split_total ms \<noteq> 0"
  shows "sum_list (map snd (split_by_median daily ms)) = daily \<and>
    map fst (split_by_median daily ms) = map fst ms \<and>
    (\<exists>best k. first_biggest best k ms \<and> 0 < k \<and>
       list_all2 (\<lambda>(t, m) (u, q). if t = best
           then 0 \<le> sgn daily * q \<and> \<bar>daily\<bar> * k < split_total ms * (\<bar>q\<bar> + 1) \<and>
                split_total ms * \<bar>q\<bar> < \<bar>daily\<bar> * k + split_total ms * with_spend ms
           else prorata daily (split_total ms) m q)
         ms (split_by_median daily ms))"
proof -
  have T: "0 < split_total ms" using assms(3) split_total_nonneg [of ms] by simp
  have keys: "map fst (quots daily ms) = map fst ms" by (simp add: quots_def comp_def case_prod_beta)
  obtain best k where b: "first_biggest best k ms" "0 < k"
    and sp: "split_by_median daily ms = place best (daily - sum_list (map snd (quots daily ms))) (quots daily ms)"
    using split_unwrapped [OF assms(2) T] by blast
  let ?r = "daily - sum_list (map snd (quots daily ms))"
  have mem: "best \<in> fst ` set (quots daily ms)"
    using first_biggest_mem [OF b(1)] keys by (metis fst_conv image_eqI list.set_map)
  have total: "sum_list (map snd (split_by_median daily ms)) = daily"
    unfolding sp using place_sum [OF _ mem, of ?r] assms(1) keys by simp
  have names: "map fst (split_by_median daily ms) = map fst ms"
    unfolding sp using keys by (simp add: place_def comp_def case_prod_beta)
  have only: "m = k" if "(best, m) \<in> set ms" for m
    using that first_biggest_mem [OF b(1)] assms(1) by (meson eq_key_imp_eq_value)
  have "list_all2 (\<lambda>(t, m) (u, q). if t = best
           then 0 \<le> sgn daily * q \<and> \<bar>daily\<bar> * k < split_total ms * (\<bar>q\<bar> + 1) \<and>
                split_total ms * \<bar>q\<bar> < \<bar>daily\<bar> * k + split_total ms * with_spend ms
           else prorata daily (split_total ms) m q) ms (split_by_median daily ms)"
    unfolding sp place_def quots_def list.map_comp list_all2_map2 list_all2_same
    using only split_quot_prorata [OF T] biggest_share [OF T b(2)] by (auto simp: quots_def)
  with total names b show ?thesis by blast
qed

theorem split_is_exact_witness:
  "sum_list (map snd (split_by_median (-1000) [(''a'', 300), (''b'', 300), (''c'', 100)])) = -1000 \<and>
   (\<exists>best k. first_biggest best k [(''a'', 300), (''b'', 300), (''c'', 100)] \<and> 0 < k)"
proof -
  have "distinct (map fst [(''a'', 300 :: int), (''b'', 300), (''c'', 100)])" by simp
  moreover have "in64 (-1000)" by (simp add: in64_def min64_def max64_def)
  moreover have "split_total [(''a'', 300), (''b'', 300), (''c'', 100)] \<noteq> 0" by (simp add: split_total_def)
  ultimately show ?thesis using split_is_exact by blast
qed

end
