(* ===== verification/Detect.thy ===== *)
theory Detect
  imports Spend
begin

text \<open>
  \<open>internal/detect/detect.go\<close>: irregularities in a daily cost series, judged against a median
  and a median absolute deviation of the same kind of day. The one floating-point figure, the
  z-score, is computed as the machine does: every operation is rounded to a 53-bit significand,
  ties to even. (Its operands are cents below 2^63, so no result is subnormal or overflows.)
\<close>

section \<open>float64\<close>

fun bitlen :: "nat \<Rightarrow> nat" where
  "bitlen n = (if n = 0 then 0 else Suc (bitlen (n div 2)))"

declare bitlen.simps [simp del]

definition pow2 :: "int \<Rightarrow> rat" where
  "pow2 e = (if 0 \<le> e then 2 ^ nat e else 1 / 2 ^ nat (- e))"

definition round_even :: "rat \<Rightarrow> int" where
  "round_even x =
     (let n = \<lfloor>x\<rfloor>; r = x - of_int n in
      if r < 1 / 2 then n else if r > 1 / 2 then n + 1 else if even n then n else n + 1)"

definition f64 :: "rat \<Rightarrow> rat" where
  "f64 x =
     (if x = 0 then 0
      else
        let (a, b) = quotient_of \<bar>x\<bar>;
            e0 = int (bitlen (nat a)) - int (bitlen (nat b)) - 53;
            e = (if \<bar>x\<bar> / pow2 e0 \<ge> 2 ^ 53 then e0 + 1 else e0)
        in sgn x * of_int (round_even (\<bar>x\<bar> / pow2 e)) * pow2 e)"

section \<open>Types\<close>

datatype direction = Up | Down

record point =
  pt_day :: string
  pt_amount :: cents

record config =
  cf_window :: nat
  cf_zcut :: rat
  cf_min_move :: cents
  cf_min_base :: cents
  cf_dirs :: "direction list"
  cf_cool :: int

definition default_config :: config where
  "default_config = \<lparr>cf_window = 28, cf_zcut = 7 / 2, cf_min_move = 5000, cf_min_base = 500,
     cf_dirs = [Up, Down], cf_cool = 21\<rparr>"

record series_driver =
  sd_start :: string
  sd_end :: string
  sd_scope :: string
  sd_label :: string
  sd_kind :: string
  sd_expected :: "cents option"

record finding =
  fi_day :: string
  fi_direction :: direction
  fi_amount :: cents
  fi_baseline :: cents
  fi_excess :: cents
  fi_z :: rat
  fi_driver :: string
  fi_rule :: string

section \<open>Drivers on a day\<close>

text \<open>\<open>Covers\<close>: whether it applies, and whether the day is expected.\<close>

definition covers :: "series_driver \<Rightarrow> string \<Rightarrow> string \<Rightarrow> bool \<times> bool" where
  "covers d service day =
     (if sd_scope d \<noteq> ''*'' \<and> sd_scope d \<noteq> service then (False, False)
      else if str_lt day (sd_start d) \<or> str_lt (sd_end d) day then (False, False)
      else (True, sd_kind d = ''recurring''))"

fun explain_from :: "string \<Rightarrow> series_driver list \<Rightarrow> string \<Rightarrow> string \<Rightarrow> string \<times> bool" where
  "explain_from label [] service day = (label, False)"
| "explain_from label (d # ds) service day =
     (let (applies, ex) = covers d service day in
      if \<not> applies then explain_from label ds service day
      else if ex then (sd_label d, True)
      else explain_from (sd_label d) ds service day)"

definition explain :: "series_driver list \<Rightarrow> string \<Rightarrow> string \<Rightarrow> string \<times> bool" where
  "explain ds service day = explain_from [] ds service day"

text \<open>The announced drivers that move a day's history, and what they do to it.\<close>

definition announced_on :: "string \<Rightarrow> string \<Rightarrow> series_driver list \<Rightarrow> (series_driver \<times> cents) list" where
  "announced_on service day ds =
     [(d, c). d \<leftarrow> ds, c \<leftarrow> (case sd_expected d of None \<Rightarrow> [] | Some c \<Rightarrow> [c]), fst (covers d service day)]"

definition shift_before :: "string \<Rightarrow> cents \<Rightarrow> point list \<Rightarrow> point list" where
  "shift_before start c =
     map (\<lambda>p. if str_lt (pt_day p) start then p\<lparr>pt_amount := wrap64 (pt_amount p + c)\<rparr> else p)"

fun earliest_start :: "string \<Rightarrow> (series_driver \<times> cents) list \<Rightarrow> string" where
  "earliest_start e [] = e"
| "earliest_start e ((d, _) # rest) =
     earliest_start (if e = [] \<or> str_lt (sd_start d) e then sd_start d else e) rest"

definition shift_for_announced ::
    "point list \<Rightarrow> string \<Rightarrow> string \<Rightarrow> series_driver list \<Rightarrow> point list \<times> cents \<times> string \<times> string" where
  "shift_for_announced hist service day ds =
     (let as = announced_on service day ds in
      (foldl (\<lambda>out (d, c). shift_before (sd_start d) c out) hist as,
       foldl (\<lambda>t (d, c). wrap64 (t + c)) 0 as,
       join '', '' (map (sd_label \<circ> fst) as),
       earliest_start [] as))"

definition early_hint_days :: int where "early_hint_days = 7"

definition early_hint :: "series_driver list \<Rightarrow> string \<Rightarrow> string \<Rightarrow> string" where
  "early_hint ds service day =
     (case parse_date day of None \<Rightarrow> []
      | Some t \<Rightarrow>
          (let limit = format_date (add_days t early_hint_days) in
           case find (\<lambda>d. sd_expected d \<noteq> None \<and> (sd_scope d = service \<or> sd_scope d = ''*'') \<and>
                          str_lt day (sd_start d) \<and> str_le (sd_start d) limit) ds of
             None \<Rightarrow> []
           | Some d \<Rightarrow> sd_label d @ '' (announced from '' @ sd_start d @ '')''))"

section \<open>The baseline\<close>

definition same_day_type :: "point list \<Rightarrow> int list \<Rightarrow> int \<Rightarrow> cents list" where
  "same_day_type pts days target =
     [pt_amount p. (p, d) \<leftarrow> zip pts days, weekend d = weekend target]"

definition median :: "cents list \<Rightarrow> cents" where
  "median v = (if v = [] then 0 else median_of v)"

definition median_abs_dev :: "cents list \<Rightarrow> cents \<Rightarrow> cents" where
  "median_abs_dev v med = median (map (\<lambda>x. cents_abs (cents_sub x med)) v)"

text \<open>\<open>trimFloat\<close>, \<open>itoa\<close>, \<open>ruleText\<close>.\<close>

definition round_away :: "rat \<Rightarrow> int" where
  "round_away x = (if x < 0 then - \<lfloor>- x + 1 / 2\<rfloor> else \<lfloor>x + 1 / 2\<rfloor>)"

definition trunc_rat :: "rat \<Rightarrow> int" where
  "trunc_rat x = (if x < 0 then - \<lfloor>- x\<rfloor> else \<lfloor>x\<rfloor>)"

definition append_int :: "int \<Rightarrow> string" where
  "append_int i = (if i < 0 then CHR ''-'' # show_nat (nat (- i)) else show_nat (nat i))"

definition trim_float :: "rat \<Rightarrow> string" where
  "trim_float f =
     (let i = trunc_rat f; fr = round_away (f64 (f64 (f - of_int i) * 10)) in
      append_int i @ (if fr \<noteq> 0 then CHR ''.'' # append_int fr else []))"

definition rule_text :: "config \<Rightarrow> string" where
  "rule_text cfg =
     ''daily spend more than '' @ trim_float (cf_zcut cfg) @
     '' robust deviations from the median of the last '' @ append_int (int (cf_window cfg)) @
     '' days of the same day type, and at least '' @ cents_string (cf_min_move cfg) @ '' away from it''"

section \<open>One day\<close>

definition window_len :: "config \<Rightarrow> nat \<Rightarrow> nat" where
  "window_len cfg n = max 7 (min (cf_window cfg) (n div 2))"

definition z_score :: "cents \<Rightarrow> cents \<Rightarrow> rat" where
  "z_score excess mad = f64 (f64 (of_int excess) / f64 (f64 (14826 / 10000) * f64 (of_int mad)))"

text \<open>The tests of a day's move, in the code's order, once its baseline is known.\<close>

definition verdict :: "config \<Rightarrow> string \<Rightarrow> cents \<Rightarrow> cents \<Rightarrow> cents \<Rightarrow> bool \<Rightarrow> string \<Rightarrow> string \<Rightarrow> finding option" where
  "verdict cfg day amt med mad expected driver rule =
     (let excess = cents_sub amt med;
          dir = (if excess < 0 then Down else Up);
          z = z_score excess mad
      in if dir \<notin> set (cf_dirs cfg) then None
         else if \<bar>z\<bar> < cf_zcut cfg then None
         else if cents_abs excess < cf_min_move cfg then None
         else if dir = Down \<and> med < cf_min_base cfg then None
         else if expected then None
         else Some \<lparr>fi_day = day, fi_direction = dir, fi_amount = amt, fi_baseline = med, fi_excess = excess,
                    fi_z = z, fi_driver = driver, fi_rule = rule\<rparr>)"

definition judge :: "point list \<Rightarrow> int list \<Rightarrow> string \<Rightarrow> series_driver list \<Rightarrow> config \<Rightarrow> nat \<Rightarrow> finding option" where
  "judge pts days service ds cfg i =
     (let lo = i - window_len cfg (length pts);
          day = pt_day (pts ! i);
          (window, step, names, earliest) = shift_for_announced (drop lo (take i pts)) service day ds;
          hist0 = same_day_type window (drop lo (take i days)) (days ! i);
          hist = (if length hist0 < 5 then map pt_amount window else hist0);
          med = median hist;
          mad0 = median_abs_dev hist med;
          amt = pt_amount (pts ! i);
          (label, expected) = explain ds service day
      in verdict cfg day amt med (if mad0 = 0 then 1 else mad0) expected
           (if label = [] then early_hint ds service day else label)
           (if step \<noteq> 0
            then ''differs from announced decision '' @ names @ '' (expected '' @ cents_string step @
                 ''/day from '' @ earliest @ ''): '' @ cents_string amt @ '' against an expected '' @
                 cents_string med
            else rule_text cfg))"

section \<open>Incidents\<close>

definition day_value :: "string \<Rightarrow> int" where
  "day_value d = (case parse_date d of None \<Rightarrow> 366 | Some n \<Rightarrow> n)"

text \<open>
  The loop of \<open>coalesce\<close>: the findings kept so far and, per direction, the index of the open
  incident's head. (A day that does not parse would read as Go's zero time, day 366.)
\<close>

definition day_nanos :: int where "day_nanos = 86400000000000"

text \<open>
  \<open>time.Time.Sub\<close> saturates at the ends of \<open>time.Duration\<close>; the product
  \<open>time.Duration(coolDays)*24*time.Hour\<close> wraps, from 106752 days on.
\<close>

definition time_sub :: "int \<Rightarrow> int \<Rightarrow> int" where
  "time_sub c p = max min64 (min max64 ((c - p) * day_nanos))"

definition cool_duration :: "int \<Rightarrow> int" where
  "cool_duration cool = wrap64 (wrap64 (cool * 24) * 3600000000000)"

fun coalesce_from :: "int \<Rightarrow> finding list \<Rightarrow> (direction \<Rightarrow> nat option) \<Rightarrow> finding list \<Rightarrow> finding list" where
  "coalesce_from cool out hd' [] = out"
| "coalesce_from cool out hd' (cur # rest) =
     (let fresh = coalesce_from cool (out @ [cur]) (hd'(fi_direction cur := Some (length out))) rest in
      case hd' (fi_direction cur) of
        None \<Rightarrow> fresh
      | Some i \<Rightarrow>
          if time_sub (day_value (fi_day cur)) (day_value (fi_day (out ! i))) \<le> cool_duration cool then
            (if cents_abs (fi_excess cur) > cents_abs (fi_excess (out ! i))
             then coalesce_from cool (out[i := cur\<lparr>fi_day := fi_day (out ! i)\<rparr>]) hd' rest
             else coalesce_from cool out hd' rest)
          else fresh)"

definition coalesce_incidents :: "finding list \<Rightarrow> int \<Rightarrow> finding list" where
  "coalesce_incidents f cool =
     (if length f < 2 then f
      else coalesce_from (if cool < 1 then 1 else cool) [] (\<lambda>_. None) (sort_key (\<lambda>x. map byte (fi_day x)) f))"

section \<open>Find\<close>

fun parse_days :: "point list \<Rightarrow> int list option" where
  "parse_days [] = Some []"
| "parse_days (p # ps) =
     (case parse_date (pt_day p) of None \<Rightarrow> None
      | Some d \<Rightarrow> map_option ((#) d) (parse_days ps))"

definition raw_findings :: "point list \<Rightarrow> int list \<Rightarrow> string \<Rightarrow> series_driver list \<Rightarrow> config \<Rightarrow> finding list" where
  "raw_findings pts days service ds cfg =
     List.map_filter (judge pts days service ds cfg) [cf_window cfg ..< length pts]"

definition find_irregular :: "point list \<Rightarrow> string \<Rightarrow> series_driver list \<Rightarrow> config \<Rightarrow> finding list" where
  "find_irregular pts service ds cfg =
     (if length pts < cf_window cfg + 2 then []
      else case parse_days pts of None \<Rightarrow> []
      | Some days \<Rightarrow>
          sort_key (\<lambda>f. - cents_abs (fi_excess f)) (coalesce_incidents (raw_findings pts days service ds cfg) (cf_cool cfg)))"

section \<open>One incident, one finding\<close>

text \<open>What holds of every raw finding and does not mention its day holds of every incident.\<close>

lemma coalesce_from_all:
  assumes "\<And>f d. P f \<Longrightarrow> P (f\<lparr>fi_day := d\<rparr>)"
  shows "\<forall>f \<in> set out. P f \<Longrightarrow> \<forall>f \<in> set rest. P f \<Longrightarrow> \<forall>f \<in> set (coalesce_from cool out hd' rest). P f"
proof (induction rest arbitrary: out hd')
  case (Cons cur rest)
  have fresh: "\<forall>f \<in> set (coalesce_from cool (out @ [cur]) h rest). P f" for h
    by (rule Cons.IH) (use Cons.prems in auto)
  have peak: "\<forall>f \<in> set (coalesce_from cool (out[i := cur\<lparr>fi_day := d\<rparr>]) hd' rest). P f" for i d
    by (rule Cons.IH)
      (use Cons.prems assms [of cur] set_update_subset_insert [of out i "cur\<lparr>fi_day := d\<rparr>"] in auto)
  have same: "\<forall>f \<in> set (coalesce_from cool out hd' rest). P f"
    by (rule Cons.IH) (use Cons.prems in auto)
  show ?case
  proof (cases "hd' (fi_direction cur)")
    case None
    then show ?thesis using fresh by (simp only: coalesce_from.simps Let_def option.case)
  next
    case (Some i)
    then show ?thesis using fresh peak [of i "fi_day (out ! i)"] same
      by (simp only: coalesce_from.simps Let_def option.case split: if_split) blast
  qed
qed simp

lemma coalesce_all:
  assumes "\<And>f d. P f \<Longrightarrow> P (f\<lparr>fi_day := d\<rparr>)" and "\<forall>f \<in> set fs. P f"
  shows "\<forall>f \<in> set (coalesce_incidents fs cool). P f"
proof -
  have "\<forall>f \<in> set (coalesce_from c [] h (sort_key (\<lambda>x. map byte (fi_day x)) fs)). P f" for c h
    by (rule coalesce_from_all) (use assms in simp_all)
  then show ?thesis using assms(2) by (simp only: coalesce_incidents_def split: if_split) blast
qed

definition reportable :: "config \<Rightarrow> finding \<Rightarrow> bool" where
  "reportable cfg f \<longleftrightarrow>
     fi_direction f \<in> set (cf_dirs cfg) \<and> cf_zcut cfg \<le> \<bar>fi_z f\<bar> \<and>
     cf_min_move cfg \<le> cents_abs (fi_excess f) \<and>
     fi_excess f = cents_sub (fi_amount f) (fi_baseline f) \<and>
     (fi_direction f = Down \<longleftrightarrow> fi_excess f < 0) \<and>
     (fi_direction f = Down \<longrightarrow> cf_min_base cfg \<le> fi_baseline f)"

lemma reportable_day [simp]: "reportable cfg (f\<lparr>fi_day := d\<rparr>) = reportable cfg f"
  by (simp add: reportable_def)

lemma verdict_reportable: "verdict cfg day amt med mad expected driver rule = Some f \<Longrightarrow> reportable cfg f"
  by (auto simp: verdict_def Let_def reportable_def split: if_splits)

lemma judge_reportable: "judge pts days service ds cfg i = Some f \<Longrightarrow> reportable cfg f"
  unfolding judge_def Let_def case_prod_beta by (rule verdict_reportable)

lemma verdict_not_expected: "verdict cfg day amt med mad expected driver rule = Some f \<Longrightarrow> \<not> expected"
  by (auto simp: verdict_def Let_def split: if_splits)

lemma judge_not_expected: "judge pts days service ds cfg i = Some f \<Longrightarrow> \<not> snd (explain ds service (pt_day (pts ! i)))"
  unfolding judge_def Let_def case_prod_beta by (rule verdict_not_expected)

lemma explain_from_recurring:
  "d \<in> set ds \<Longrightarrow> covers d service day = (True, True) \<Longrightarrow> snd (explain_from l ds service day)"
proof (induction ds arbitrary: l)
  case (Cons e ds)
  then show ?case by (cases "covers e service day") (auto simp: Let_def)
qed simp

text \<open>
  C15. Every reported irregularity passed every test of the configuration, whatever the series and
  the drivers: its direction is one asked for and is the sign of its excess, the excess is the
  amount less the baseline, it is at least the money floor and at least the cut in deviations, a
  fall starts from a baseline worth losing; and the list is ranked by money.
\<close>

theorem findings_pass_every_test:
  "list_all (reportable cfg) (find_irregular pts service ds cfg) \<and>
   sorted_wrt (\<lambda>f g. cents_abs (fi_excess g) \<le> cents_abs (fi_excess f)) (find_irregular pts service ds cfg)"
proof
  have "reportable cfg (f\<lparr>fi_day := d\<rparr>)" if "reportable cfg f" for f d
    using that by simp
  moreover have "\<forall>f \<in> set (raw_findings pts days service ds cfg). reportable cfg f" for days
    by (auto simp: raw_findings_def List.map_filter_def dest: judge_reportable)
  ultimately have "\<forall>f \<in> set (coalesce_incidents (raw_findings pts days service ds cfg) (cf_cool cfg)). reportable cfg f" for days
    by (rule coalesce_all)
  then show "list_all (reportable cfg) (find_irregular pts service ds cfg)"
    by (auto simp: find_irregular_def list_all_iff split: option.splits)
  have "sorted (map (\<lambda>f. - cents_abs (fi_excess f)) (sort_key (\<lambda>f. - cents_abs (fi_excess f)) xs))" for xs
    by simp
  then show "sorted_wrt (\<lambda>f g. cents_abs (fi_excess g) \<le> cents_abs (fi_excess f)) (find_irregular pts service ds cfg)"
    by (auto simp: find_irregular_def sorted_map split: option.splits)
qed

text \<open>The open incident of each direction is the last finding kept in it.\<close>

definition heads_ok :: "finding list \<Rightarrow> (direction \<Rightarrow> nat option) \<Rightarrow> bool" where
  "heads_ok out hd' \<longleftrightarrow>
     (\<forall>i < length out. \<exists>k. hd' (fi_direction (out ! i)) = Some k \<and> i \<le> k) \<and>
     (\<forall>\<delta> k. hd' \<delta> = Some k \<longrightarrow> k < length out \<and> fi_direction (out ! k) = \<delta>)"

definition apart :: "int \<Rightarrow> finding list \<Rightarrow> bool" where
  "apart cool out \<longleftrightarrow>
     (\<forall>i j. i < j \<and> j < length out \<and> fi_direction (out ! i) = fi_direction (out ! j) \<longrightarrow>
        cool < day_value (fi_day (out ! j)) - day_value (fi_day (out ! i)))"

text \<open>The longest cooling period that fits a \<open>time.Duration\<close>.\<close>

definition max_cool_days :: int where "max_cool_days = 106751"

lemma cool_duration_fits: "0 < cool \<Longrightarrow> cool \<le> max_cool_days \<Longrightarrow> cool_duration cool = cool * day_nanos"
  by (simp add: cool_duration_def max_cool_days_def day_nanos_def wrap64_id in64_def min64_def max64_def)

text \<open>A day more and the period is negative: no two findings would ever be one incident.\<close>

lemma cool_duration_wraps: "cool_duration (max_cool_days + 1) < 0"
  by code_simp

lemma cool_compare:
  assumes "0 < cool" and "cool \<le> max_cool_days"
  shows "time_sub c p \<le> cool_duration cool \<longleftrightarrow> c - p \<le> cool"
proof -
  have "cool * day_nanos < max64" "min64 < cool * day_nanos"
    using assms by (auto simp: max_cool_days_def day_nanos_def max64_def min64_def)
  moreover have "(c - p) * day_nanos \<le> cool * day_nanos \<longleftrightarrow> c - p \<le> cool"
    using mult_le_cancel_right_pos [of day_nanos "c - p" cool] by (simp add: day_nanos_def)
  ultimately show ?thesis unfolding cool_duration_fits [OF assms] time_sub_def by linarith
qed

lemma heads_ok_Some:
  "heads_ok out hd' \<Longrightarrow> hd' \<delta> = Some k \<Longrightarrow> k < length out \<and> fi_direction (out ! k) = \<delta>"
  by (simp add: heads_ok_def)

lemma heads_ok_last:
  "heads_ok out hd' \<Longrightarrow> i < length out \<Longrightarrow> \<exists>k. hd' (fi_direction (out ! i)) = Some k \<and> i \<le> k"
  by (simp add: heads_ok_def)

lemma heads_ok_snoc:
  assumes "heads_ok out hd'"
  shows "heads_ok (out @ [cur]) (hd'(fi_direction cur := Some (length out)))"
  unfolding heads_ok_def
proof (intro conjI allI impI)
  fix i assume "i < length (out @ [cur])"
  then show "\<exists>k. (hd'(fi_direction cur := Some (length out))) (fi_direction ((out @ [cur]) ! i)) = Some k \<and> i \<le> k"
    using heads_ok_last [OF assms, of i] by (cases "i < length out") (auto simp: nth_append)
next
  fix \<delta> k assume k: "(hd'(fi_direction cur := Some (length out))) \<delta> = Some k"
  show "k < length (out @ [cur])" and "fi_direction ((out @ [cur]) ! k) = \<delta>"
    using k heads_ok_Some [OF assms, of \<delta> k] by (auto simp: nth_append split: if_splits)
qed

lemma heads_ok_update:
  assumes "heads_ok out hd'" and "k < length out" and "fi_direction f = fi_direction (out ! k)"
  shows "heads_ok (out[k := f]) hd'"
proof -
  have "fi_direction (out[k := f] ! i) = fi_direction (out ! i)" for i
    using assms(2,3) by (cases "i = k") auto
  then show ?thesis using assms(1) by (simp only: heads_ok_def length_list_update simp_thms)
qed

lemma coalesce_from_apart:
  assumes "0 < cool" and "cool \<le> max_cool_days"
  shows "heads_ok out hd' \<Longrightarrow> apart cool out \<Longrightarrow> apart cool (coalesce_from cool out hd' rest)"
proof (induction rest arbitrary: out hd')
  case (Cons cur rest)
  note ok = Cons.prems(1) and ap = Cons.prems(2)
  have fresh: "apart cool (coalesce_from cool (out @ [cur]) (hd'(fi_direction cur := Some (length out))) rest)"
    if far: "\<And>k. hd' (fi_direction cur) = Some k \<Longrightarrow> cool < day_value (fi_day cur) - day_value (fi_day (out ! k))"
  proof (rule Cons.IH [OF heads_ok_snoc [OF ok]])
    show "apart cool (out @ [cur])"
      unfolding apart_def
    proof (intro allI impI, elim conjE)
      fix i j
      assume ij: "i < j" "j < length (out @ [cur])"
        and same: "fi_direction ((out @ [cur]) ! i) = fi_direction ((out @ [cur]) ! j)"
      show "cool < day_value (fi_day ((out @ [cur]) ! j)) - day_value (fi_day ((out @ [cur]) ! i))"
      proof (cases "j < length out")
        case True
        then show ?thesis using ap ij(1) same by (simp add: apart_def nth_append)
      next
        case False
        then have j: "j = length out" using ij(2) by simp
        with same ij(1) have dir: "fi_direction (out ! i) = fi_direction cur" by (simp add: nth_append)
        with heads_ok_last [OF ok, of i] ij(1) j
        obtain k where k: "hd' (fi_direction cur) = Some k" and "i \<le> k" by auto
        from heads_ok_Some [OF ok k] have "k < length out" "fi_direction (out ! k) = fi_direction cur" by auto
        have "day_value (fi_day (out ! i)) \<le> day_value (fi_day (out ! k))"
        proof (cases "i = k")
          case False
          with \<open>i \<le> k\<close> have "i < k" by simp
          then have "cool < day_value (fi_day (out ! k)) - day_value (fi_day (out ! i))"
            using ap \<open>k < length out\<close> dir \<open>fi_direction (out ! k) = fi_direction cur\<close> unfolding apart_def by simp
          then show ?thesis using assms(1) by linarith
        qed simp
        with far [OF k] show ?thesis using ij(1) j by (simp add: nth_append)
      qed
    qed
  qed
  show ?case
  proof (cases "hd' (fi_direction cur)")
    case None
    with fresh show ?thesis by (simp add: Let_def)
  next
    case (Some k)
    note k = heads_ok_Some [OF ok Some]
    let ?f = "cur\<lparr>fi_day := fi_day (out ! k)\<rparr>"
    have "apart cool (out[k := ?f])"
    proof -
      have "fi_direction (out[k := ?f] ! i) = fi_direction (out ! i)" "fi_day (out[k := ?f] ! i) = fi_day (out ! i)" for i
        using k by (cases "i = k"; simp)+
      then show ?thesis using ap by (simp add: apart_def)
    qed
    moreover have "heads_ok (out[k := ?f]) hd'" using k by (intro heads_ok_update [OF ok]) auto
    ultimately have "apart cool (coalesce_from cool (out[k := ?f]) hd' rest)" by (rule Cons.IH [rotated])
    with Cons.IH [OF ok ap] fresh Some show ?thesis by (simp add: Let_def cool_compare [OF assms])
  qed
qed simp

lemma coalesce_apart:
  assumes "cool \<le> max_cool_days"
  shows "apart (max 1 cool) (coalesce_incidents fs cool)"
proof (cases "length fs < 2")
  case True
  then show ?thesis by (simp add: coalesce_incidents_def apart_def)
next
  case False
  have "apart (max 1 cool) (coalesce_from (max 1 cool) [] (\<lambda>_. None) gs)" for gs
    by (rule coalesce_from_apart) (use assms in \<open>auto simp: heads_ok_def apart_def max_cool_days_def\<close>)
  moreover have "(if cool < 1 then 1 else cool) = max 1 cool" by simp
  ultimately show ?thesis using False by (simp add: coalesce_incidents_def)
qed

text \<open>What holds of any two members of a list, either way round, holds whatever the order of the list.\<close>

definition far :: "int \<Rightarrow> finding \<Rightarrow> finding \<Rightarrow> bool" where
  "far cool f g \<longleftrightarrow>
     (fi_direction f = fi_direction g \<longrightarrow> cool < \<bar>day_value (fi_day f) - day_value (fi_day g)\<bar>)"

lemma far_sym: "far cool f g \<longleftrightarrow> far cool g f"
  by (auto simp: far_def)

lemma apart_far: "apart cool out \<Longrightarrow> sorted_wrt (far cool) out"
  unfolding sorted_wrt_iff_nth_less apart_def far_def by (metis abs_ge_self abs_minus_commute less_le_trans)

lemma sorted_wrt_perm:
  assumes "\<And>x y. R x y \<longleftrightarrow> R y x" and "mset xs = mset ys" and "sorted_wrt R xs"
  shows "sorted_wrt R ys"
  using assms(2,3)
proof (induction ys arbitrary: xs)
  case (Cons y ys)
  then have "y \<in> set xs" by (metis list.set_intros(1) mset_eq_setD)
  then obtain as bs where xs: "xs = as @ y # bs" by (meson split_list)
  with Cons.prems(1) have m: "mset (as @ bs) = mset ys" by simp
  moreover have "sorted_wrt R (as @ bs)" using Cons.prems(2) by (auto simp: xs sorted_wrt_append)
  ultimately have "sorted_wrt R ys" by (rule Cons.IH)
  moreover have "R y z" if "z \<in> set ys" for z
    using that mset_eq_setD [OF m, symmetric] Cons.prems(2) assms(1) by (auto simp: xs sorted_wrt_append)
  ultimately show ?case by simp
qed simp

text \<open>
  C16. One incident is one finding: two irregularities reported of one series in the same direction
  start more than the cooling period apart (one day at least), wherever they stand in the ranked
  list. The bound on the period is the machine's: 106751 days is the longest whose nanoseconds fit
  64 bits.
\<close>

theorem incidents_are_apart:
  assumes "cf_cool cfg \<le> max_cool_days"
    and "i < length (find_irregular pts service ds cfg)" and "j < length (find_irregular pts service ds cfg)" and "i \<noteq> j"
    and "fi_direction (find_irregular pts service ds cfg ! i) = fi_direction (find_irregular pts service ds cfg ! j)"
  shows "max 1 (cf_cool cfg) <
    \<bar>day_value (fi_day (find_irregular pts service ds cfg ! i)) - day_value (fi_day (find_irregular pts service ds cfg ! j))\<bar>"
proof -
  let ?R = "far (max 1 (cf_cool cfg))"
  have "sorted_wrt ?R (sort_key k (coalesce_incidents fs (cf_cool cfg)))" for k :: "finding \<Rightarrow> int" and fs
    by (rule sorted_wrt_perm [OF far_sym _ apart_far [OF coalesce_apart [OF assms(1)]]]) simp
  then have "sorted_wrt ?R (find_irregular pts service ds cfg)"
    by (simp add: find_irregular_def split: option.split)
  with assms(2-4) have "?R (find_irregular pts service ds cfg ! i) (find_irregular pts service ds cfg ! j)"
    unfolding sorted_wrt_iff_nth_less by (metis far_sym linorder_neqE_nat)
  with assms(5) show ?thesis by (simp add: far_def)
qed

text \<open>Two rises two days apart, with a cooling period of one.\<close>

definition demo_points :: "point list" where
  "demo_points =
     map (\<lambda>(d, v). \<lparr>pt_day = d, pt_amount = v\<rparr>)
       [(''2026-03-02'', 0), (''2026-03-03'', 0), (''2026-03-04'', 7000), (''2026-03-05'', 0), (''2026-03-06'', 9000)]"

definition demo_config :: config where
  "demo_config = default_config\<lparr>cf_window := 2, cf_zcut := 0, cf_cool := 1\<rparr>"

text \<open>The baseline of a day no driver reaches: the median and the deviation the verdict divides by.\<close>

definition plain_base :: "config \<Rightarrow> point list \<Rightarrow> int list \<Rightarrow> nat \<Rightarrow> cents \<times> cents" where
  "plain_base cfg pts days i =
     (let lo = i - window_len cfg (length pts);
          hist0 = same_day_type (drop lo (take i pts)) (drop lo (take i days)) (days ! i);
          hist = (if length hist0 < 5 then map pt_amount (drop lo (take i pts)) else hist0);
          med = median hist; mad = median_abs_dev hist med
      in (med, if mad = 0 then 1 else mad))"

lemma judge_undriven:
  "judge pts days service [] cfg i =
     verdict cfg (pt_day (pts ! i)) (pt_amount (pts ! i)) (fst (plain_base cfg pts days i))
       (snd (plain_base cfg pts days i)) False [] (rule_text cfg)"
  by (simp add: judge_def plain_base_def Let_def shift_for_announced_def announced_on_def explain_def early_hint_def
      split: option.split)

definition demo_numbers :: "int list" where
  "demo_numbers = map (\<lambda>p. day_value (pt_day p)) demo_points"

lemma demo_points_parse: "parse_days demo_points = Some demo_numbers"
  by code_simp

definition demo_rise :: "string \<Rightarrow> cents \<Rightarrow> finding" where
  "demo_rise day v = \<lparr>fi_day = day, fi_direction = Up, fi_amount = v, fi_baseline = 0, fi_excess = v,
     fi_z = z_score v 1, fi_driver = [], fi_rule = rule_text demo_config\<rparr>"

lemma demo_bases:
  "plain_base demo_config demo_points demo_numbers 2 = (0, 1)"
  "plain_base demo_config demo_points demo_numbers 3 = (0, 1)"
  "plain_base demo_config demo_points demo_numbers 4 = (0, 1)"
  by code_simp+

lemma demo_verdict: "verdict demo_config day v 0 1 False [] (rule_text demo_config) =
    (if v < 5000 then None else Some (demo_rise day v))" if "0 \<le> v" "v < 10000"
  using that
  by (simp add: verdict_def demo_rise_def demo_config_def default_config_def cents_sub_def cents_abs_def Let_def
      wrap64_id in64_def min64_def max64_def)

lemma demo_rises:
  "judge demo_points demo_numbers ''compute'' [] demo_config 2 = Some (demo_rise ''2026-03-04'' 7000)"
  "judge demo_points demo_numbers ''compute'' [] demo_config 3 = None"
  "judge demo_points demo_numbers ''compute'' [] demo_config 4 = Some (demo_rise ''2026-03-06'' 9000)"
  by (simp_all add: judge_undriven demo_bases demo_verdict, simp_all add: demo_points_def demo_verdict)

lemma demo_reported: "length (find_irregular demo_points ''compute'' [] demo_config) = 2 \<and>
    fi_direction (find_irregular demo_points ''compute'' [] demo_config ! 0) =
    fi_direction (find_irregular demo_points ''compute'' [] demo_config ! 1)"
proof -
  let ?R = "find_irregular demo_points ''compute'' [] demo_config"
  have "[cf_window demo_config ..< length demo_points] = [2, 3, 4]" by code_simp
  then have "raw_findings demo_points demo_numbers ''compute'' [] demo_config =
      [demo_rise ''2026-03-04'' 7000, demo_rise ''2026-03-06'' 9000]"
    by (simp add: raw_findings_def demo_rises List.map_filter_simps)
  moreover have "coalesce_incidents [demo_rise ''2026-03-04'' 7000, demo_rise ''2026-03-06'' 9000] 1 =
      [demo_rise ''2026-03-04'' 7000, demo_rise ''2026-03-06'' 9000]"
  proof -
    have "map byte ''2026-03-04'' \<le> map byte ''2026-03-06''" "\<not> map byte ''2026-03-06'' \<le> map byte ''2026-03-04''"
      "\<not> time_sub (day_value ''2026-03-06'') (day_value ''2026-03-04'') \<le> cool_duration 1" by code_simp+
    then show ?thesis by (simp add: coalesce_incidents_def demo_rise_def)
  qed
  moreover have "\<not> length demo_points < cf_window demo_config + 2" "cf_cool demo_config = 1" by code_simp+
  ultimately have "mset ?R = {#demo_rise ''2026-03-04'' 7000, demo_rise ''2026-03-06'' 9000#}"
    by (simp add: find_irregular_def demo_points_parse)
  then have n: "length ?R = 2" and s: "set ?R = {demo_rise ''2026-03-04'' 7000, demo_rise ''2026-03-06'' 9000}"
    by (metis size_mset size_add_mset size_empty numeral_2_eq_2,
        metis set_mset_mset set_mset_add_mset_insert set_mset_empty)
  have "\<forall>f \<in> set ?R. fi_direction f = Up" unfolding s by (simp add: demo_rise_def)
  with n show ?thesis by simp
qed

lemma incidents_are_apart_witness:
  "length (find_irregular demo_points ''compute'' [] demo_config) = 2 \<and>
   1 < \<bar>day_value (fi_day (find_irregular demo_points ''compute'' [] demo_config ! 0)) -
        day_value (fi_day (find_irregular demo_points ''compute'' [] demo_config ! 1))\<bar>"
proof -
  have "max 1 (cf_cool demo_config) = 1" "cf_cool demo_config \<le> max_cool_days"
    by (simp_all add: demo_config_def max_cool_days_def)
  with incidents_are_apart [of demo_config 0 demo_points "''compute''" "[]" 1] demo_reported show ?thesis by auto
qed

end
