(* ===== verification/Allocation.thy ===== *)
theory Allocation
  imports Detect
begin

text \<open>
  \<open>internal/finops/allocation.go\<close>: the split of a month's shared cost across the teams that spent
  directly, and \<open>unitrules.go\<close>: the showback over it. Go's maps keyed by source and team are lists
  sorted by key: the sums taken over them wrap, so no order of iteration changes a result. (SQLite
  raises an error when a \<open>SUM\<close> leaves 64 bits; the sums of a query are plain integers here.)
\<close>

section \<open>Rules\<close>

definition proportional :: string where "proportional = ''proportional-usage''"
definition even_split :: string where "even_split = ''even-split''"
definition unallocated :: string where "unallocated = ''unallocated''"

definition valid_methods :: "string list" where
  "valid_methods = [proportional, even_split, unallocated]"

definition rules :: "store \<Rightarrow> rule list" where
  "rules s = sort_key (\<lambda>r. map byte (ru_source r)) (sort_key (\<lambda>r. map byte (ru_category r)) (st_rules s))"

definition default_rules :: "rule list" where
  "default_rules =
     [\<lparr>ru_id = 1, ru_source = ''*'', ru_category = ''Purchase'', ru_method = proportional,
       ru_note = ''A commitment is bought against usage, so it is split by usage. '' @
         ''The team that used the most of it carries the most of it.''\<rparr>,
      \<lparr>ru_id = 2, ru_source = ''*'', ru_category = ''Tax'', ru_method = proportional,
       ru_note = ''Tax follows the bill it was charged on.''\<rparr>,
      \<lparr>ru_id = 3, ru_source = ''*'', ru_category = ''Credit'', ru_method = proportional,
       ru_note = ''A discount is shared the way the spend that earned it was.''\<rparr>]"

definition seed_rules :: "unit op" where
  "seed_rules = exec (\<lambda>s. if st_rules s \<noteq> [] then s else s\<lparr>st_rules := default_rules\<rparr>)"

definition set_rule :: "int \<Rightarrow> string \<Rightarrow> unit op" where
  "set_rule i m =
     andthen (ensure (m \<in> set valid_methods) (NoSuchMethod m)) (\<lambda>_.
     andthen (fetch (\<lambda>s. find (\<lambda>r. ru_id r = i) (st_rules s)) NoSuchRule) (\<lambda>_.
     exec (\<lambda>s. s\<lparr>st_rules := update_where (\<lambda>r. ru_id r = i) (\<lambda>r. r\<lparr>ru_method := m\<rparr>) (st_rules s)\<rparr>)))"

text \<open>\<open>strings.EqualFold\<close> against a method's name: none has a letter with a fold outside ASCII.\<close>

definition lower_char :: "char \<Rightarrow> char" where
  "lower_char c = (if 65 \<le> byte c \<and> byte c \<le> 90 then char_of (byte c + 32) else c)"

definition method_from :: "string \<Rightarrow> string option" where
  "method_from t = find (\<lambda>m. map lower_char m = map lower_char t) valid_methods"

definition method_note :: "string \<Rightarrow> string" where
  "method_note m =
     (if m = proportional then ''split by each team'' @ [CHR 0x27] @ ''s direct usage''
      else if m = even_split then ''split equally between the teams on the desk''
      else if m = unallocated then ''left where it is, and counted as unallocated''
      else m)"

fun rule_from :: "string \<Rightarrow> string \<Rightarrow> rule option \<Rightarrow> rule list \<Rightarrow> rule option" where
  "rule_from source category wildcard [] = wildcard"
| "rule_from source category wildcard (r # rs) =
     (if ru_category r \<noteq> category then rule_from source category wildcard rs
      else if ru_source r = source then Some r
      else if ru_source r = ''*'' then rule_from source category (Some r) rs
      else rule_from source category wildcard rs)"

definition rule_for :: "rule list \<Rightarrow> string \<Rightarrow> string \<Rightarrow> rule option" where
  "rule_for rs source category = rule_from source category None rs"

section \<open>The month's rows\<close>

record pot =
  po_source :: string
  po_category :: string
  po_amount :: cents

definition billed :: "charge list \<Rightarrow> cents" where
  "billed cs = sum_list (map ch_billed cs)"

definition tagged :: "string \<Rightarrow> charge \<Rightarrow> bool" where
  "tagged period c \<longleftrightarrow> take 7 (ch_day c) = period \<and> ch_team c \<noteq> []"

definition untagged :: "string \<Rightarrow> charge \<Rightarrow> bool" where
  "untagged period c \<longleftrightarrow> take 7 (ch_day c) = period \<and> ch_team c = []"

definition direct_costs :: "string \<Rightarrow> store \<Rightarrow> (string \<times> (string \<times> cents) list) list" where
  "direct_costs period s =
     (let cs = filter (tagged period) (st_charges s) in
      map (\<lambda>src. (src,
        let ds = filter (\<lambda>c. ch_source c = src) cs in
        map (\<lambda>t. (t, billed (filter (\<lambda>c. ch_team c = t) ds))) (sort_names (map ch_team ds))))
      (sort_names (map ch_source cs)))"

definition direct_total :: "(string \<times> (string \<times> cents) list) list \<Rightarrow> cents" where
  "direct_total d = cents_sum (concat (map (\<lambda>(src, ts). map snd ts) d))"

definition shared_cost_pots :: "string \<Rightarrow> store \<Rightarrow> pot list" where
  "shared_cost_pots period s =
     (let cs = filter (untagged period) (st_charges s) in
      concat (map (\<lambda>src.
        let ds = filter (\<lambda>c. ch_source c = src) cs in
        map (\<lambda>cat. \<lparr>po_source = src, po_category = cat,
               po_amount = billed (filter (\<lambda>c. ch_category c = cat) ds)\<rparr>)
          (sort_names (map ch_category ds)))
      (sort_names (map ch_source cs))))"

definition teams_of :: "(string \<times> (string \<times> cents) list) list \<Rightarrow> string \<Rightarrow> (string \<times> cents) list" where
  "teams_of d src = (case map_of d src of None \<Rightarrow> [] | Some ts \<Rightarrow> ts)"

section \<open>One pot\<close>

definition pot_basis :: "string \<Rightarrow> (string \<times> cents) list \<Rightarrow> cents" where
  "pot_basis m teams = foldl (\<lambda>b (t, a). if m = even_split then wrap64 (b + 1) else wrap64 (b + a)) 0 teams"

definition pot_share :: "string \<Rightarrow> cents \<Rightarrow> (string \<times> cents) list \<Rightarrow> cents \<Rightarrow> cents" where
  "pot_share m amount teams a =
     (if m = even_split then amount sdiv int (length teams)
      else wrap64 (wrap64 (amount * a) sdiv pot_basis m teams))"

fun biggest_team :: "string \<Rightarrow> cents \<Rightarrow> (string \<times> cents) list \<Rightarrow> string" where
  "biggest_team best amt [] = best"
| "biggest_team best amt ((t, a) # rest) = (if a > amt then biggest_team t a rest else biggest_team best amt rest)"

text \<open>
  What a pot puts on its teams, in order: a share each, then the remainder on the biggest. None
  when the pot stays where it is.
\<close>

definition placements :: "string \<Rightarrow> cents \<Rightarrow> (string \<times> cents) list \<Rightarrow> (string \<times> cents) list option" where
  "placements m amount teams =
     (if m = unallocated \<or> teams = [] \<or> pot_basis m teams = 0 then None
      else
        let shares = map (\<lambda>(t, a). (t, pot_share m amount teams a)) teams;
            remd = wrap64 (amount - cents_sum (map snd shares))
        in Some (shares @ (if remd \<noteq> 0 then [(biggest_team (fst (hd teams)) 0 teams, remd)] else [])))"

section \<open>Allocate\<close>

record team_cost =
  tc_source :: string
  tc_team :: string
  tc_direct :: cents
  tc_allocated :: cents
  tc_shares :: "(string \<times> cents) list"

definition loaded :: "team_cost \<Rightarrow> cents" where
  "loaded t = wrap64 (tc_direct t + tc_allocated t)"

record source_split =
  ss_direct :: cents
  ss_shared :: cents
  ss_placed :: cents
  ss_unallocated :: cents

record allocation =
  al_period :: string
  al_teams :: "team_cost list"
  al_direct :: cents
  al_shared :: cents
  al_placed :: cents
  al_unallocated :: cents
  al_coverage :: rat
  al_by_source :: "string \<Rightarrow> source_split"

definition add_source :: "string \<Rightarrow> cents \<Rightarrow> cents \<Rightarrow> cents \<Rightarrow> cents \<Rightarrow>
    (string \<Rightarrow> source_split) \<Rightarrow> (string \<Rightarrow> source_split)" where
  "add_source src d sh pl un m =
     m(src := \<lparr>ss_direct = wrap64 (ss_direct (m src) + d), ss_shared = wrap64 (ss_shared (m src) + sh),
               ss_placed = wrap64 (ss_placed (m src) + pl), ss_unallocated = wrap64 (ss_unallocated (m src) + un)\<rparr>)"

fun bump :: "string \<Rightarrow> cents \<Rightarrow> (string \<times> cents) list \<Rightarrow> (string \<times> cents) list" where
  "bump k v [] = [(k, v)]"
| "bump k v ((j, u) # rest) = (if j = k then (j, wrap64 (u + v)) # rest else (j, u) # bump k v rest)"

definition carry :: "string \<Rightarrow> string \<Rightarrow> string \<times> cents \<Rightarrow> team_cost list \<Rightarrow> team_cost list" where
  "carry src cat tv =
     update_where (\<lambda>t. tc_source t = src \<and> tc_team t = fst tv)
       (\<lambda>t. t\<lparr>tc_allocated := wrap64 (tc_allocated t + snd tv), tc_shares := bump cat (snd tv) (tc_shares t)\<rparr>)"

definition pot_method :: "rule list \<Rightarrow> pot \<Rightarrow> string" where
  "pot_method rs p =
     (case rule_for rs (po_source p) (po_category p) of None \<Rightarrow> unallocated | Some r \<Rightarrow> ru_method r)"

definition place_pot :: "rule list \<Rightarrow> (string \<times> (string \<times> cents) list) list \<Rightarrow> pot \<Rightarrow> allocation \<Rightarrow> allocation" where
  "place_pot rs d p a =
     (case placements (pot_method rs p) (po_amount p) (teams_of d (po_source p)) of
        None \<Rightarrow> a\<lparr>al_unallocated := wrap64 (al_unallocated a + po_amount p),
                 al_by_source := add_source (po_source p) 0 0 0 (po_amount p) (al_by_source a)\<rparr>
      | Some vs \<Rightarrow>
          a\<lparr>al_teams := fold (carry (po_source p) (po_category p)) vs (al_teams a),
            al_placed := wrap64 (al_placed a + cents_sum (map snd vs)),
            al_by_source := add_source (po_source p) 0 0 (cents_sum (map snd vs)) 0 (al_by_source a)\<rparr>)"

definition no_source :: source_split where
  "no_source = \<lparr>ss_direct = 0, ss_shared = 0, ss_placed = 0, ss_unallocated = 0\<rparr>"

text \<open>The allocation before any pot is placed: the direct costs and the two totals.\<close>

definition start_allocation :: "string \<Rightarrow> (string \<times> (string \<times> cents) list) list \<Rightarrow> pot list \<Rightarrow> allocation" where
  "start_allocation period d pots =
     \<lparr>al_period = period,
      al_teams = concat (map (\<lambda>(src, ts). map (\<lambda>(t, v). \<lparr>tc_source = src, tc_team = t, tc_direct = v,
                   tc_allocated = 0, tc_shares = []\<rparr>) ts) d),
      al_direct = direct_total d,
      al_shared = cents_sum (map po_amount pots),
      al_placed = 0, al_unallocated = 0, al_coverage = 0,
      al_by_source =
        fold (\<lambda>p. add_source (po_source p) 0 (po_amount p) 0 0) pots
          (fold (\<lambda>(src, ts). add_source src (cents_sum (map snd ts)) 0 0 0) d (\<lambda>_. no_source))\<rparr>"

definition rank_teams :: "team_cost list \<Rightarrow> team_cost list" where
  "rank_teams ts = sort_key (\<lambda>t. map byte (tc_source t)) (sort_key (\<lambda>t. - loaded t) ts)"

definition coverage_of :: "allocation \<Rightarrow> rat" where
  "coverage_of a =
     (let tot = wrap64 (al_direct a + al_shared a) in
      if tot \<noteq> 0
      then f64 (f64 (f64 (of_int (wrap64 (al_direct a + al_placed a))) / f64 (of_int tot)) * 100)
      else 0)"

definition allocate :: "string \<Rightarrow> store \<Rightarrow> allocation" where
  "allocate period s =
     (let d = direct_costs period s; pots = shared_cost_pots period s;
          a = fold (place_pot (rules s) d) pots (start_allocation period d pots)
      in a\<lparr>al_teams := rank_teams (al_teams a), al_coverage := coverage_of a\<rparr>)"

section \<open>UnallocatedPots and Months\<close>

record left_pot =
  lp_pot :: pot
  lp_rule :: int
  lp_method :: string
  lp_reason :: string

definition unallocated_pot :: "rule list \<Rightarrow> (string \<times> (string \<times> cents) list) list \<Rightarrow> pot \<Rightarrow> left_pot option" where
  "unallocated_pot rs d p =
     (case rule_for rs (po_source p) (po_category p) of
        None \<Rightarrow> Some \<lparr>lp_pot = p, lp_rule = 0, lp_method = [],
                  lp_reason = ''no allocation rule names this category, on this desk or on any''\<rparr>
      | Some r \<Rightarrow>
          let teams = teams_of d (po_source p);
              left = (\<lambda>why. Some \<lparr>lp_pot = p, lp_rule = ru_id r, lp_method = ru_method r,
                       lp_reason = ''rule '' @ append_int (ru_id r) @ why\<rparr>)
          in if ru_method r = unallocated then left ('' leaves it unallocated: '' @ ru_note r)
             else if teams = [] then
               left ('' splits by '' @ method_note (ru_method r) @ '', but nothing on this desk to carry it'')
             else if pot_basis (ru_method r) teams = 0 then
               left ('' splits proportionally, but every team'' @ [CHR 0x27] @ ''s usage nets to zero this period, '' @
                     ''so there is nothing to split by'')
             else None)"

definition unallocated_pots :: "string \<Rightarrow> store \<Rightarrow> left_pot list" where
  "unallocated_pots period s =
     List.map_filter (unallocated_pot (rules s) (direct_costs period s)) (shared_cost_pots period s)"

definition months :: "store \<Rightarrow> string list" where
  "months s = rev (sort_names (map (\<lambda>c. take 7 (ch_day c)) (st_charges s)))"

section \<open>Sums that wrap\<close>

text \<open>Equal after 64-bit wrap-around: a congruence, so a proof about totals is plain algebra.\<close>

definition cong64 :: "int \<Rightarrow> int \<Rightarrow> bool" where
  "cong64 x y \<longleftrightarrow> wrap64 x = wrap64 y"

lemma cong64_refl [simp, intro!]: "cong64 x x"
  by (simp add: cong64_def)

lemma cong64_trans [trans]: "cong64 x y \<Longrightarrow> cong64 y z \<Longrightarrow> cong64 x z"
  by (simp add: cong64_def)

lemma cong64_sym: "cong64 x y \<Longrightarrow> cong64 y x"
  by (simp add: cong64_def)

lemma cong64_wrap [simp]: "cong64 (wrap64 x) y = cong64 x y" "cong64 x (wrap64 y) = cong64 x y"
  by (simp_all add: cong64_def)

lemma cong64_add:
  assumes "cong64 a b" and "cong64 c d"
  shows "cong64 (a + c) (b + d)"
proof -
  have "wrap64 (a + c) = wrap64 (wrap64 a + wrap64 c)" by (simp add: go_int)
  also have "\<dots> = wrap64 (b + d)" using assms by (simp add: cong64_def go_int)
  finally show ?thesis by (simp add: cong64_def)
qed

lemma cong64_diff:
  assumes "cong64 a b" and "cong64 c d"
  shows "cong64 (a - c) (b - d)"
proof -
  have "18446744073709551616 dvd (a - b) - (c - d)"
    using assms unfolding cong64_def wrap64_eq_iff mod_eq_0_iff_dvd by (rule dvd_diff)
  moreover have "(a - b) - (c - d) = (a - c) - (b - d)" by simp
  ultimately show ?thesis unfolding cong64_def wrap64_eq_iff mod_eq_0_iff_dvd by simp
qed

lemma cong64_sum: "(\<And>x. x \<in> set xs \<Longrightarrow> cong64 (f x) (g x)) \<Longrightarrow>
    cong64 (sum_list (map f xs)) (sum_list (map g xs))"
  by (induction xs) (auto intro: cong64_add)

lemma cong64_cents_sum [simp]:
  "cong64 (cents_sum xs) y = cong64 (sum_list xs) y" "cong64 x (cents_sum ys) = cong64 x (sum_list ys)"
  by (simp_all add: cents_sum_wrap)

text \<open>A sum by groups is the sum.\<close>

lemma sum_pick:
  fixes v :: int
  shows "distinct ks \<Longrightarrow> sum_list (map (\<lambda>k. if j = k then v else 0) ks) = (if j \<in> set ks then v else 0)"
  by (induction ks) auto

lemma group_sum:
  fixes f :: "'a \<Rightarrow> int"
  assumes "distinct ks"
  shows "key ` set xs \<subseteq> set ks \<Longrightarrow>
    sum_list (map (\<lambda>k. sum_list (map f (filter (\<lambda>x. key x = k) xs))) ks) = sum_list (map f xs)"
proof (induction xs)
  case (Cons x xs)
  have "(\<lambda>k. sum_list (map f (filter (\<lambda>y. key y = k) (x # xs)))) =
      (\<lambda>k. (if key x = k then f x else 0) + sum_list (map f (filter (\<lambda>y. key y = k) xs)))"
    by auto
  then have "sum_list (map (\<lambda>k. sum_list (map f (filter (\<lambda>y. key y = k) (x # xs)))) ks) =
      sum_list (map (\<lambda>k. if key x = k then f x else 0) ks) +
      sum_list (map (\<lambda>k. sum_list (map f (filter (\<lambda>y. key y = k) xs))) ks)"
    by (simp only: sum_list_addf)
  with Cons show ?case by (simp only: sum_pick [OF assms]) simp
qed simp

lemma filter_split_sum:
  fixes f :: "'a \<Rightarrow> int"
  shows "sum_list (map f xs) = sum_list (map f (filter P xs)) + sum_list (map f (filter (\<lambda>x. \<not> P x) xs))"
  by (induction xs) auto

section \<open>What the month's rows add up to\<close>

definition period_charges :: "string \<Rightarrow> store \<Rightarrow> charge list" where
  "period_charges period s = filter (\<lambda>c. take 7 (ch_day c) = period) (st_charges s)"

lemma sum_concat_map: "sum_list (concat (map f xs)) = sum_list (map (\<lambda>x. sum_list (f x)) xs)"
  by (induction xs) auto

lemma nested_group_sum:
  fixes f :: "'a \<Rightarrow> int"
  shows "sum_list (map (\<lambda>i. sum_list (map (\<lambda>j. sum_list (map f (filter (\<lambda>c. k2 c = j) (filter (\<lambda>c. k1 c = i) cs))))
     (sort_names (map k2 (filter (\<lambda>c. k1 c = i) cs))))) (sort_names (map k1 cs))) = sum_list (map f cs)"
proof -
  have "sum_list (map (\<lambda>j. sum_list (map f (filter (\<lambda>c. k2 c = j) ds))) (sort_names (map k2 ds))) =
      sum_list (map f ds)" for ds
    by (rule group_sum) simp_all
  then show ?thesis by (simp only:) (rule group_sum, simp_all)
qed

lemma direct_costs_sum:
  "sum_list (concat (map (\<lambda>(src, ts). map snd ts) (direct_costs period s))) = billed (filter (tagged period) (st_charges s))"
  unfolding direct_costs_def Let_def billed_def
  using nested_group_sum [of ch_billed ch_team ch_source "filter (tagged period) (st_charges s)"]
  by (simp add: sum_concat_map comp_def del: filter_filter)

lemma shared_cost_pots_sum:
  "sum_list (map po_amount (shared_cost_pots period s)) = billed (filter (untagged period) (st_charges s))"
  unfolding shared_cost_pots_def Let_def billed_def
  using nested_group_sum [of ch_billed ch_category ch_source "filter (untagged period) (st_charges s)"]
  by (simp add: map_concat sum_concat_map comp_def del: filter_filter)

lemma period_split:
  "billed (period_charges period s) =
   billed (filter (tagged period) (st_charges s)) + billed (filter (untagged period) (st_charges s))"
proof -
  have "filter (tagged period) cs = filter (\<lambda>c. ch_team c \<noteq> []) (filter (\<lambda>c. take 7 (ch_day c) = period) cs)"
    "filter (untagged period) cs = filter (\<lambda>c. \<not> ch_team c \<noteq> []) (filter (\<lambda>c. take 7 (ch_day c) = period) cs)" for cs
    by (induction cs) (auto simp: tagged_def untagged_def)
  then show ?thesis unfolding billed_def period_charges_def
    by (simp only: filter_split_sum [of ch_billed "filter (\<lambda>c. take 7 (ch_day c) = period) (st_charges s)"
        "\<lambda>c. ch_team c \<noteq> []"])
qed

section \<open>A pot is placed whole\<close>

lemma placements_sum: "placements m amount teams = Some vs \<Longrightarrow> cong64 (sum_list (map snd vs)) amount"
proof -
  assume a: "placements m amount teams = Some vs"
  define shares where "shares = map (\<lambda>(t, a). (t, pot_share m amount teams a)) teams"
  define r where "r = wrap64 (amount - cents_sum (map snd shares))"
  have vs: "vs = shares @ (if r \<noteq> 0 then [(biggest_team (fst (hd teams)) 0 teams, r)] else [])"
    using a by (simp add: placements_def Let_def shares_def r_def split: if_splits)
  have r: "cong64 r (amount - sum_list (map snd shares))"
    unfolding r_def by (simp add: cong64_diff)
  have "sum_list (map snd vs) = sum_list (map snd shares) + r" by (simp add: vs)
  also have "cong64 \<dots> (sum_list (map snd shares) + (amount - sum_list (map snd shares)))"
    using r by (intro cong64_add) auto
  finally show ?thesis by simp
qed

lemma biggest_team_in: "biggest_team best amt ts \<in> insert best (fst ` set ts)"
  by (induction best amt ts rule: biggest_team.induct) auto

lemma placements_teams: "placements m amount teams = Some vs \<Longrightarrow> fst ` set vs \<subseteq> fst ` set teams"
proof -
  assume a: "placements m amount teams = Some vs"
  then have ne: "teams \<noteq> []" by (auto simp: placements_def)
  then have big: "biggest_team (fst (hd teams)) 0 teams \<in> fst ` set teams"
    using biggest_team_in [of "fst (hd teams)" 0 teams] by (cases teams) auto
  define shares where "shares = map (\<lambda>(t, a). (t, pot_share m amount teams a)) teams"
  define r where "r = wrap64 (amount - cents_sum (map snd shares))"
  have vs: "vs = shares @ (if r \<noteq> 0 then [(biggest_team (fst (hd teams)) 0 teams, r)] else [])"
    using a by (simp add: placements_def Let_def shares_def r_def split: if_splits)
  have "map fst shares = map fst teams" by (simp add: shares_def comp_def case_prod_beta)
  then have "fst ` set shares = fst ` set teams" by (metis list.set_map)
  with big show ?thesis by (cases "r = 0") (simp_all add: vs)
qed

definition team_key :: "team_cost \<Rightarrow> string \<times> string" where
  "team_key t = (tc_source t, tc_team t)"

lemma carry_keys [simp]: "map team_key (carry src cat tv ts) = map team_key ts"
  by (simp add: carry_def update_where_keeps team_key_def)

lemma carry_direct [simp]: "map tc_direct (carry src cat tv ts) = map tc_direct ts"
  by (simp add: carry_def update_where_keeps)

lemma carry_sum:
  "distinct (map team_key ts) \<Longrightarrow> (src, fst tv) \<in> team_key ` set ts \<Longrightarrow>
   cong64 (sum_list (map tc_allocated (carry src cat tv ts))) (sum_list (map tc_allocated ts) + snd tv)"
proof (induction ts)
  case (Cons t ts)
  show ?case
  proof (cases "tc_source t = src \<and> tc_team t = fst tv")
    case True
    then have "team_key t = (src, fst tv)" by (simp add: team_key_def)
    with Cons.prems(1) have "(src, fst tv) \<notin> team_key ` set ts" by auto
    then have "carry src cat tv ts = ts"
      unfolding carry_def by (intro update_where_none) (auto simp: team_key_def)
    with True have "sum_list (map tc_allocated (carry src cat tv (t # ts))) =
        wrap64 (tc_allocated t + snd tv) + sum_list (map tc_allocated ts)"
      by (simp add: carry_def update_where_def)
    moreover have "cong64 (wrap64 (tc_allocated t + snd tv) + sum_list (map tc_allocated ts))
        ((tc_allocated t + snd tv) + sum_list (map tc_allocated ts))"
      by (intro cong64_add) auto
    ultimately show ?thesis by (simp add: algebra_simps)
  next
    case False
    then have "(src, fst tv) \<in> team_key ` set ts" using Cons.prems(2) by (auto simp: team_key_def)
    with Cons have IH: "cong64 (sum_list (map tc_allocated (carry src cat tv ts)))
        (sum_list (map tc_allocated ts) + snd tv)" by simp
    have "sum_list (map tc_allocated (carry src cat tv (t # ts))) =
        tc_allocated t + sum_list (map tc_allocated (carry src cat tv ts))"
      by (simp only: carry_def update_where_def list.map if_False False sum_list.Cons)
    also have "cong64 \<dots> (tc_allocated t + (sum_list (map tc_allocated ts) + snd tv))"
      using IH by (intro cong64_add) auto
    finally show ?thesis by (simp add: algebra_simps)
  qed
qed simp

lemma carry_all:
  "distinct (map team_key ts) \<Longrightarrow> \<forall>tv \<in> set vs. (src, fst tv) \<in> team_key ` set ts \<Longrightarrow>
   map team_key (fold (carry src cat) vs ts) = map team_key ts \<and>
   map tc_direct (fold (carry src cat) vs ts) = map tc_direct ts \<and>
   cong64 (sum_list (map tc_allocated (fold (carry src cat) vs ts))) (sum_list (map tc_allocated ts) + sum_list (map snd vs))"
proof (induction vs arbitrary: ts)
  case (Cons v vs)
  let ?us = "carry src cat v ts"
  have k: "map team_key ?us = map team_key ts" by simp
  then have ks: "team_key ` set ?us = team_key ` set ts" by (metis list.set_map)
  from Cons.IH [of ?us] Cons.prems k ks
  have IH: "map team_key (fold (carry src cat) vs ?us) = map team_key ?us"
    "map tc_direct (fold (carry src cat) vs ?us) = map tc_direct ?us"
    "cong64 (sum_list (map tc_allocated (fold (carry src cat) vs ?us))) (sum_list (map tc_allocated ?us) + sum_list (map snd vs))"
    by auto
  have "cong64 (sum_list (map tc_allocated ?us)) (sum_list (map tc_allocated ts) + snd v)"
    using Cons.prems by (intro carry_sum) auto
  then have "cong64 (sum_list (map tc_allocated ?us) + sum_list (map snd vs))
      (sum_list (map tc_allocated ts) + snd v + sum_list (map snd vs))"
    by (intro cong64_add) auto
  with IH show ?case by (auto intro: cong64_trans simp: add.assoc)
qed simp

text \<open>
  The totals of an allocation whose first pots are placed: the team rows are those of the direct
  costs, what they were allocated is what was placed, and every pot so far is placed or counted.
\<close>

definition team_rows :: "(string \<times> (string \<times> cents) list) list \<Rightarrow> (string \<times> string) list" where
  "team_rows d = concat (map (\<lambda>(src, ts). map (\<lambda>(t, v). (src, t)) ts) d)"

definition balanced :: "(string \<times> (string \<times> cents) list) list \<Rightarrow> int \<Rightarrow> allocation \<Rightarrow> bool" where
  "balanced d done_amount a \<longleftrightarrow>
     map team_key (al_teams a) = team_rows d \<and>
     cong64 (sum_list (map tc_direct (al_teams a))) (direct_total d) \<and>
     cong64 (sum_list (map tc_allocated (al_teams a))) (al_placed a) \<and>
     cong64 (al_placed a + al_unallocated a) done_amount"

lemma teams_of_rows: "t \<in> fst ` set (teams_of d src) \<Longrightarrow> (src, t) \<in> set (team_rows d)"
proof (cases "map_of d src")
  case (Some ts)
  assume "t \<in> fst ` set (teams_of d src)"
  then have "(src, t) \<in> (\<lambda>(t, v). (src, t)) ` set ts" using Some by (auto simp: teams_of_def)
  then show ?thesis
    using map_of_SomeD [OF Some] by (auto simp: team_rows_def intro!: bexI [of _ "(src, ts)"])
qed (simp add: teams_of_def)

lemma place_pot_balanced:
  assumes "distinct (team_rows d)" and "balanced d n a"
  shows "balanced d (n + po_amount p) (place_pot rs d p a)"
proof (cases "placements (pot_method rs p) (po_amount p) (teams_of d (po_source p))")
  case None
  have "cong64 (al_placed a + wrap64 (al_unallocated a + po_amount p)) (al_placed a + (al_unallocated a + po_amount p))"
    by (intro cong64_add) auto
  also have "cong64 \<dots> (n + po_amount p)"
    using assms(2) by (auto simp: balanced_def add.assoc [symmetric] intro: cong64_add)
  finally show ?thesis using assms(2) None by (simp add: place_pot_def balanced_def)
next
  case (Some vs)
  let ?ts = "fold (carry (po_source p) (po_category p)) vs (al_teams a)"
  have rows: "map team_key (al_teams a) = team_rows d" using assms(2) by (simp add: balanced_def)
  have "\<forall>tv \<in> set vs. (po_source p, fst tv) \<in> team_key ` set (al_teams a)"
  proof
    fix tv assume "tv \<in> set vs"
    then have "(po_source p, fst tv) \<in> set (team_rows d)"
      using placements_teams [OF Some] by (intro teams_of_rows) auto
    then show "(po_source p, fst tv) \<in> team_key ` set (al_teams a)" by (simp add: rows [symmetric])
  qed
  from carry_all [OF _ this, of "po_category p"] assms(1) rows
  have c: "map team_key ?ts = team_rows d" "map tc_direct ?ts = map tc_direct (al_teams a)"
    "cong64 (sum_list (map tc_allocated ?ts)) (sum_list (map tc_allocated (al_teams a)) + sum_list (map snd vs))"
    by auto
  let ?pl = "wrap64 (al_placed a + cents_sum (map snd vs))"
  have pl: "cong64 ?pl (al_placed a + sum_list (map snd vs))"
    by (simp, intro cong64_add) auto
  have "cong64 (sum_list (map tc_allocated ?ts)) (al_placed a + sum_list (map snd vs))"
    by (rule cong64_trans [OF c(3)], rule cong64_add) (use assms(2) in \<open>auto simp: balanced_def\<close>)
  then have one: "cong64 (sum_list (map tc_allocated ?ts)) ?pl" using pl cong64_sym cong64_trans by blast
  have "cong64 (?pl + al_unallocated a) (al_placed a + sum_list (map snd vs) + al_unallocated a)"
    using pl by (intro cong64_add) auto
  also have "al_placed a + sum_list (map snd vs) + al_unallocated a = (al_placed a + al_unallocated a) + sum_list (map snd vs)"
    by simp
  also have "cong64 \<dots> (n + po_amount p)"
    using assms(2) placements_sum [OF Some] by (intro cong64_add) (auto simp: balanced_def)
  finally show ?thesis using assms(2) Some c one by (simp add: place_pot_def balanced_def)
qed

lemma place_pots_balanced:
  assumes "distinct (team_rows d)"
  shows "balanced d n a \<Longrightarrow> balanced d (n + sum_list (map po_amount pots)) (fold (place_pot rs d) pots a)"
proof (induction pots arbitrary: n a)
  case (Cons p pots)
  from Cons.IH [OF place_pot_balanced [OF assms Cons.prems]] show ?case by (simp add: add.assoc)
qed simp

lemma start_balanced: "balanced d 0 (start_allocation period d pots)"
proof -
  have "sum_list (map tc_direct (al_teams (start_allocation period d pots))) =
      sum_list (concat (map (\<lambda>(src, ts). map snd ts) d))"
    by (simp add: start_allocation_def map_concat comp_def split_def)
  moreover have "sum_list (map tc_allocated (al_teams (start_allocation period d pots))) = 0"
    by (simp add: start_allocation_def map_concat comp_def split_def sum_concat_map)
  moreover have "map team_key (al_teams (start_allocation period d pots)) = team_rows d"
    by (simp add: start_allocation_def team_rows_def map_concat comp_def split_def team_key_def)
  ultimately show ?thesis
    by (simp add: balanced_def direct_total_def start_allocation_def)
qed

lemma distinct_team_rows: "distinct (team_rows (direct_costs period s))"
proof -
  have "distinct (concat (map (\<lambda>src. map (Pair src) (g src)) srcs))" if "distinct srcs" "\<And>x. distinct (g x)"
    for g :: "string \<Rightarrow> string list" and srcs
    using that by (induction srcs) (auto simp: distinct_map inj_on_def)
  then show ?thesis
    unfolding team_rows_def direct_costs_def Let_def
    by (simp add: comp_def case_prod_beta del: filter_filter)
qed

lemma mset_rank_teams [simp]: "mset (rank_teams ts) = mset ts"
  by (simp add: rank_teams_def)

lemma sum_rank_teams [simp]: "sum_list (map f (rank_teams ts)) = sum_list (map f ts)" for f :: "team_cost \<Rightarrow> int"
  by (metis mset_map mset_rank_teams sum_mset_sum_list)

lemma allocate_balanced:
  fixes period s
  defines "a \<equiv> allocate period s"
  shows "cong64 (sum_list (map tc_direct (al_teams a))) (billed (filter (tagged period) (st_charges s)))"
    and "cong64 (sum_list (map tc_allocated (al_teams a))) (al_placed a)"
    and "cong64 (al_placed a + al_unallocated a) (billed (filter (untagged period) (st_charges s)))"
proof -
  let ?d = "direct_costs period s" and ?pots = "shared_cost_pots period s"
  let ?b = "fold (place_pot (rules s) ?d) ?pots (start_allocation period ?d ?pots)"
  have b: "balanced ?d (billed (filter (untagged period) (st_charges s))) ?b"
    using place_pots_balanced [OF distinct_team_rows [of period s] start_balanced [of ?d period ?pots],
        of ?pots "rules s"]
    by (simp add: shared_cost_pots_sum)
  have a: "al_teams a = rank_teams (al_teams ?b)" "al_placed a = al_placed ?b" "al_unallocated a = al_unallocated ?b"
    by (simp_all add: a_def allocate_def Let_def)
  have "cong64 (direct_total ?d) (billed (filter (tagged period) (st_charges s)))"
    by (simp add: direct_total_def direct_costs_sum)
  then show "cong64 (sum_list (map tc_direct (al_teams a))) (billed (filter (tagged period) (st_charges s)))"
    using b cong64_trans unfolding a sum_rank_teams balanced_def by blast
  show "cong64 (sum_list (map tc_allocated (al_teams a))) (al_placed a)"
    "cong64 (al_placed a + al_unallocated a) (billed (filter (untagged period) (st_charges s)))"
    using b unfolding a sum_rank_teams balanced_def by blast+
qed

lemma loaded_sum: "cong64 (sum_list (map loaded ts)) (sum_list (map tc_direct ts) + sum_list (map tc_allocated ts))"
proof -
  have "cong64 (sum_list (map loaded ts)) (sum_list (map (\<lambda>t. tc_direct t + tc_allocated t) ts))"
    by (rule cong64_sum) (simp add: loaded_def)
  then show ?thesis by (simp add: sum_list_addf)
qed

lemma loaded_and_left:
  "cong64 (sum_list (map loaded (al_teams (allocate period s))) + al_unallocated (allocate period s))
     (billed (period_charges period s))"
proof -
  let ?a = "allocate period s"
  let ?ts = "al_teams ?a"
  note b = allocate_balanced [of period s]
  have "cong64 (sum_list (map loaded ?ts) + al_unallocated ?a)
      ((sum_list (map tc_direct ?ts) + sum_list (map tc_allocated ?ts)) + al_unallocated ?a)"
    by (intro cong64_add loaded_sum) auto
  also have "cong64 \<dots> ((billed (filter (tagged period) (st_charges s)) + al_placed ?a) + al_unallocated ?a)"
    using b(1,2) by (intro cong64_add) auto
  also have "(billed (filter (tagged period) (st_charges s)) + al_placed ?a) + al_unallocated ?a =
      billed (filter (tagged period) (st_charges s)) + (al_placed ?a + al_unallocated ?a)" by simp
  also have "cong64 \<dots> (billed (period_charges period s))"
    unfolding period_split using b(3) by (intro cong64_add) auto
  finally show ?thesis .
qed

text \<open>
  C2. The chargeback adds up to the invoice: what every team is loaded with and what is left
  unallocated are together the month's whole bill, to the cent, whatever the charges, the rules
  and their methods (64-bit sums throughout). Nothing is dropped by rounding and nothing is
  placed twice.
\<close>

theorem allocation_adds_up:
  "wrap64 (sum_list (map loaded (al_teams (allocate period s))) + al_unallocated (allocate period s)) =
   wrap64 (billed (period_charges period s))"
  using loaded_and_left by (simp add: cong64_def)

section \<open>The pots that stay\<close>

lemma unallocated_pot_iff:
  "(case unallocated_pot rs d p of None \<Rightarrow> 0 | Some l \<Rightarrow> po_amount (lp_pot l)) =
   (case placements (pot_method rs p) (po_amount p) (teams_of d (po_source p)) of None \<Rightarrow> po_amount p | Some _ \<Rightarrow> 0)"
proof (cases "rule_for rs (po_source p) (po_category p)")
  case None
  then show ?thesis by (simp add: unallocated_pot_def pot_method_def placements_def)
next
  case (Some r)
  then show ?thesis
    by (cases "ru_method r = unallocated"; cases "teams_of d (po_source p) = []";
        cases "pot_basis (ru_method r) (teams_of d (po_source p)) = 0")
      (simp_all add: unallocated_pot_def pot_method_def placements_def Let_def)
qed

lemma left_pots_sum:
  "in64 (al_unallocated a) \<Longrightarrow>
   al_unallocated (fold (place_pot rs d) pots a) =
   wrap64 (al_unallocated a + sum_list (map (\<lambda>l. po_amount (lp_pot l)) (List.map_filter (unallocated_pot rs d) pots)))"
proof (induction pots arbitrary: a)
  case Nil
  then show ?case by (simp add: map_filter_simps wrap64_id)
next
  case (Cons p pots)
  have step: "al_unallocated (place_pot rs d p a) = wrap64 (al_unallocated a +
      (case unallocated_pot rs d p of None \<Rightarrow> 0 | Some l \<Rightarrow> po_amount (lp_pot l)))"
    unfolding unallocated_pot_iff place_pot_def using Cons.prems by (simp add: wrap64_id split: option.split)
  have "in64 (al_unallocated (place_pot rs d p a))" by (simp add: step)
  from Cons.IH [OF this] step show ?case
    by (cases "unallocated_pot rs d p") (simp_all add: map_filter_simps go_int add.assoc)
qed

text \<open>
  The list of pots left unplaced, each with the rule that left it there, sums to the
  allocation's own unallocated figure: the two functions decide each pot alike.
\<close>

theorem left_pots_are_the_unallocated:
  "cents_sum (map (\<lambda>l. po_amount (lp_pot l)) (unallocated_pots period s)) = al_unallocated (allocate period s)"
proof -
  have "in64 (al_unallocated (start_allocation period d pots))" for d pots
    by (simp add: start_allocation_def in64_def min64_def max64_def)
  from left_pots_sum [OF this] show ?thesis
    by (simp add: unallocated_pots_def allocate_def Let_def cents_sum_wrap start_allocation_def)
qed

end
