(* ===== verification/Chargeback.thy ===== *)
theory Chargeback
  imports Allocation
begin

text \<open>
  \<open>internal/finops/chargeback.go\<close>: closing a month, reopening it and what it has moved by since; and
  the showback of \<open>internal/finops/unitrules.go\<close>, by roster team and by customer unit.
\<close>

section \<open>Closing a month\<close>

definition is_closed :: "string \<Rightarrow> store \<Rightarrow> bool" where
  "is_closed period s \<longleftrightarrow> (\<exists>f \<in> set (st_chargeback s). fz_period f = period)"

text \<open>\<open>INSERT OR REPLACE\<close> on the key (period, source, team).\<close>

definition same_key :: "frozen \<Rightarrow> frozen \<Rightarrow> bool" where
  "same_key f g \<longleftrightarrow> fz_period f = fz_period g \<and> fz_source f = fz_source g \<and> fz_team f = fz_team g"

definition put_frozen :: "frozen \<Rightarrow> frozen list \<Rightarrow> frozen list" where
  "put_frozen f fs = filter (\<lambda>g. \<not> same_key f g) fs @ [f]"

definition freeze_row :: "string \<Rightarrow> string \<Rightarrow> string \<Rightarrow> team_cost \<Rightarrow> frozen" where
  "freeze_row period by' now t =
     \<lparr>fz_period = period, fz_source = tc_source t, fz_team = tc_team t, fz_direct = tc_direct t,
      fz_allocated = tc_allocated t, fz_frozen_at = now, fz_closed_by = by'\<rparr>"

definition close_period :: "string \<Rightarrow> string \<Rightarrow> unit op" where
  "close_period period by' =
     andthen (query (is_closed period)) (\<lambda>closed.
     andthen (ensure (\<not> closed) (AlreadyClosedPeriod period)) (\<lambda>_.
     andthen (query (allocate period)) (\<lambda>a.
     andthen (ensure (al_teams a \<noteq> []) (NothingToCharge period)) (\<lambda>_.
     exec (\<lambda>s. s\<lparr>st_chargeback := fold put_frozen
            (map (freeze_row period by' (st_now s)) (al_teams a)) (st_chargeback s)\<rparr>)))))"

definition reopen :: "string \<Rightarrow> string \<Rightarrow> unit op" where
  "reopen period reason =
     andthen (ensure (\<not> blank reason) ReopenNeedsReason) (\<lambda>_.
     andthen (query (is_closed period)) (\<lambda>closed.
     andthen (exec (\<lambda>s. s\<lparr>st_chargeback := filter (\<lambda>f. fz_period f \<noteq> period) (st_chargeback s)\<rparr>)) (\<lambda>_.
     ensure closed (WasNotClosed period))))"

definition frozen_loaded :: "frozen \<Rightarrow> cents" where
  "frozen_loaded f = wrap64 (fz_direct f + fz_allocated f)"

record period =
  pe_label :: string
  pe_closed :: bool
  pe_frozen_at :: string
  pe_closed_by :: string
  pe_teams :: "frozen list"
  pe_total :: cents

definition frozen_rows :: "string \<Rightarrow> store \<Rightarrow> frozen list" where
  "frozen_rows p s =
     sort_key (\<lambda>f. map byte (fz_source f)) (sort_key (\<lambda>f. map byte (fz_team f))
       (filter (\<lambda>f. fz_period f = p) (st_chargeback s)))"

definition frozen_period :: "string \<Rightarrow> store \<Rightarrow> period" where
  "frozen_period p s =
     (let rows = frozen_rows p s in
      \<lparr>pe_label = p, pe_closed = (rows \<noteq> []),
       pe_frozen_at = (if rows = [] then [] else fz_frozen_at (last rows)),
       pe_closed_by = (if rows = [] then [] else fz_closed_by (last rows)),
       pe_teams = rows, pe_total = cents_sum (map frozen_loaded rows)\<rparr>)"

section \<open>TrueUpFor\<close>

record true_up =
  tu_source :: string
  tu_team :: string
  tu_frozen :: cents
  tu_now :: cents
  tu_delta :: cents

text \<open>The live figures are keyed by \<open>source|team\<close>; of two rows with one key the last stands.\<close>

definition row_key :: "string \<Rightarrow> string \<Rightarrow> string" where
  "row_key source team = source @ CHR ''|'' # team"

definition live_figure :: "team_cost list \<Rightarrow> string \<Rightarrow> cents" where
  "live_figure ts k =
     (case map_of (rev (map (\<lambda>t. (row_key (tc_source t) (tc_team t), loaded t)) ts)) k of None \<Rightarrow> 0 | Some v \<Rightarrow> v)"

definition true_up_row :: "team_cost list \<Rightarrow> frozen \<Rightarrow> true_up option" where
  "true_up_row ts f =
     (let n = live_figure ts (row_key (fz_source f) (fz_team f)); d = wrap64 (n - frozen_loaded f)
      in if d = 0 then None
         else Some \<lparr>tu_source = fz_source f, tu_team = fz_team f, tu_frozen = frozen_loaded f, tu_now = n, tu_delta = d\<rparr>)"

definition true_up_for :: "string \<Rightarrow> store \<Rightarrow> true_up list \<times> cents" where
  "true_up_for p s =
     (let fz = frozen_period p s in
      if \<not> pe_closed fz then ([], 0)
      else let out = List.map_filter (true_up_row (al_teams (allocate p s))) (pe_teams fz)
           in (out, cents_sum (map tu_delta out)))"

definition closed_periods :: "store \<Rightarrow> string list" where
  "closed_periods s = rev (sort_names (map fz_period (st_chargeback s)))"

section \<open>Units and the showback\<close>

text \<open>\<open>world.Teams\<close>: name, unit and cadence.\<close>

definition world_teams :: "(string \<times> string) list" where
  "world_teams =
     [(''ml-platform'', ''engineering''), (''data-eng'', ''engineering''), (''product-web'', ''product''),
      (''product-mobile'', ''product''), (''sre-platform'', ''engineering''), (''security'', ''risk''),
      (''growth'', ''commercial''), (''finance-systems'', ''corporate''), (''research'', ''engineering''),
      (''support-tools'', ''corporate'')]"

definition roster_team :: "string \<Rightarrow> bool" where
  "roster_team n \<longleftrightarrow> n \<in> set (map fst world_teams)"

definition unit_rules :: "store \<Rightarrow> unit_rule list" where
  "unit_rules s = sort_key (\<lambda>r. map byte (ur_unit r)) (st_unit_rules s)"

record unit_line =
  ul_unit :: string
  ul_business :: string
  ul_ruled :: bool
  ul_direct :: cents
  ul_allocated :: cents

definition ruled_as :: "unit_rule list \<Rightarrow> string \<Rightarrow> unit_rule option" where
  "ruled_as rs n = find (\<lambda>r. ur_unit r = n) (rev rs)"

definition team_direct :: "team_cost list \<Rightarrow> string \<Rightarrow> cents" where
  "team_direct ts n = cents_sum (map tc_direct (filter (\<lambda>t. tc_team t = n) ts))"

definition team_allocated :: "team_cost list \<Rightarrow> string \<Rightarrow> cents" where
  "team_allocated ts n = cents_sum (map tc_allocated (filter (\<lambda>t. tc_team t = n) ts))"

definition units_of :: "allocation \<Rightarrow> unit_rule list \<Rightarrow> unit_line list" where
  "units_of a rs =
     map (\<lambda>n. \<lparr>ul_unit = n,
                ul_business = (case ruled_as rs n of None \<Rightarrow> [] | Some r \<Rightarrow> ur_business_unit r),
                ul_ruled = (ruled_as rs n \<noteq> None),
                ul_direct = team_direct (al_teams a) n, ul_allocated = team_allocated (al_teams a) n\<rparr>)
       (sort_names (filter (\<lambda>n. \<not> roster_team n) (map tc_team (al_teams a))))"

definition units :: "string \<Rightarrow> store \<Rightarrow> unit_line list" where
  "units p s = units_of (allocate p s) (unit_rules s)"

record showback_row =
  sh_team :: string
  sh_business :: string
  sh_direct :: cents
  sh_allocated :: cents

definition showback_loaded :: "showback_row \<Rightarrow> cents" where
  "showback_loaded r = wrap64 (sh_direct r + sh_allocated r)"

definition unruled_team :: string where "unruled_team = ''(unruled units)''"
definition unruled_business :: string where "unruled_business = ''(no rule yet)''"

definition unruled_rows :: "unit_line list \<Rightarrow> showback_row list" where
  "unruled_rows us =
     (let un = filter (\<lambda>u. \<not> ul_ruled u) us in
      if un = [] then []
      else [\<lparr>sh_team = unruled_team, sh_business = unruled_business,
             sh_direct = cents_sum (map ul_direct un), sh_allocated = cents_sum (map ul_allocated un)\<rparr>])"

definition showback_of :: "allocation \<Rightarrow> unit_rule list \<Rightarrow> showback_row list" where
  "showback_of a rs =
     (let us = units_of a rs in
      map (\<lambda>(n, b). \<lparr>sh_team = n, sh_business = b, sh_direct = team_direct (al_teams a) n,
                     sh_allocated = team_allocated (al_teams a) n\<rparr>)
        (filter (\<lambda>(n, b). n \<in> tc_team ` set (al_teams a)) world_teams) @
      map (\<lambda>u. \<lparr>sh_team = ul_unit u, sh_business = ul_business u, sh_direct = ul_direct u,
                 sh_allocated = ul_allocated u\<rparr>) (filter ul_ruled us) @
      unruled_rows us)"

definition showback :: "string \<Rightarrow> store \<Rightarrow> showback_row list" where
  "showback p s = showback_of (allocate p s) (unit_rules s)"

section \<open>The showback accounts for the whole bill\<close>

definition both :: "team_cost \<Rightarrow> int" where
  "both t = tc_direct t + tc_allocated t"

lemma team_figures:
  "cong64 (team_direct ts n + team_allocated ts n) (sum_list (map both (filter (\<lambda>t. tc_team t = n) ts)))"
proof -
  have "cong64 (team_direct ts n + team_allocated ts n)
     (sum_list (map tc_direct (filter (\<lambda>t. tc_team t = n) ts)) + sum_list (map tc_allocated (filter (\<lambda>t. tc_team t = n) ts)))"
    unfolding team_direct_def team_allocated_def by (intro cong64_add) auto
  then show ?thesis by (simp add: both_def [abs_def] sum_list_addf)
qed

text \<open>The sum of the teams with a name among some names, by name.\<close>

lemma figures_by_name:
  assumes "distinct ns" and "set ns = {n \<in> tc_team ` set ts. Q n}"
  shows "cong64 (sum_list (map (\<lambda>n. team_direct ts n + team_allocated ts n) ns))
           (sum_list (map both (filter (\<lambda>t. Q (tc_team t)) ts)))"
proof -
  let ?us = "filter (\<lambda>t. Q (tc_team t)) ts"
  have "cong64 (sum_list (map (\<lambda>n. team_direct ts n + team_allocated ts n) ns))
      (sum_list (map (\<lambda>n. sum_list (map both (filter (\<lambda>t. tc_team t = n) ts))) ns))"
    by (rule cong64_sum) (rule team_figures)
  also have "map (\<lambda>n. sum_list (map both (filter (\<lambda>t. tc_team t = n) ts))) ns =
      map (\<lambda>n. sum_list (map both (filter (\<lambda>t. tc_team t = n) ?us))) ns"
  proof (rule map_cong [OF refl])
    fix n assume "n \<in> set ns"
    then have "Q n" using assms(2) by simp
    then have "filter (\<lambda>t. tc_team t = n) ts = filter (\<lambda>t. tc_team t = n) ?us"
      by (induction ts) auto
    then show "sum_list (map both (filter (\<lambda>t. tc_team t = n) ts)) =
        sum_list (map both (filter (\<lambda>t. tc_team t = n) ?us))" by simp
  qed
  also have "sum_list (map (\<lambda>n. sum_list (map both (filter (\<lambda>t. tc_team t = n) ?us))) ns) = sum_list (map both ?us)"
    using assms by (intro group_sum) auto
  finally show ?thesis .
qed

lemma fst_filter: "fst ` set (filter (\<lambda>(n, b). P n) xs) = {n \<in> fst ` set xs. P n}"
  by force

lemma distinct_world_teams: "distinct (map fst world_teams)"
  by code_simp

definition unit_total :: "unit_line \<Rightarrow> int" where
  "unit_total u = ul_direct u + ul_allocated u"

lemma unruled_rows_sum:
  "cong64 (sum_list (map showback_loaded (unruled_rows us))) (sum_list (map unit_total (filter (\<lambda>u. \<not> ul_ruled u) us)))"
proof (cases "filter (\<lambda>u. \<not> ul_ruled u) us = []")
  case False
  let ?un = "filter (\<lambda>u. \<not> ul_ruled u) us"
  have "cong64 (cents_sum (map ul_direct ?un) + cents_sum (map ul_allocated ?un))
      (sum_list (map ul_direct ?un) + sum_list (map ul_allocated ?un))"
    by (intro cong64_add) auto
  then show ?thesis using False
    by (simp add: unruled_rows_def Let_def showback_loaded_def unit_total_def [abs_def] sum_list_addf)
qed (simp add: unruled_rows_def Let_def)

lemma units_sum:
  "cong64 (sum_list (map unit_total (units_of a rs))) (sum_list (map both (filter (\<lambda>t. \<not> roster_team (tc_team t)) (al_teams a))))"
  unfolding units_of_def unit_total_def
  by (simp add: comp_def, rule figures_by_name) auto

lemma showback_of_sum:
  "cong64 (sum_list (map showback_loaded (showback_of a rs))) (sum_list (map both (al_teams a)))"
proof -
  let ?us = "units_of a rs" and ?ts = "al_teams a"
  define named where "named = filter (\<lambda>(n, b). n \<in> tc_team ` set ?ts) world_teams"
  define rows where "rows = map (\<lambda>(n, b). \<lparr>sh_team = n, sh_business = b, sh_direct = team_direct ?ts n,
                     sh_allocated = team_allocated ?ts n\<rparr>) named"
  define ruled where "ruled = map (\<lambda>u. \<lparr>sh_team = ul_unit u, sh_business = ul_business u, sh_direct = ul_direct u,
                 sh_allocated = ul_allocated u\<rparr>) (filter ul_ruled ?us)"
  have sb: "showback_of a rs = rows @ ruled @ unruled_rows ?us"
    by (simp add: showback_of_def Let_def rows_def ruled_def named_def)
  have "distinct (map fst named)"
    unfolding named_def using distinct_world_teams by (simp add: distinct_map_filter)
  moreover have "set (map fst named) = {n \<in> tc_team ` set ?ts. roster_team n}"
    unfolding named_def set_map fst_filter roster_team_def by blast
  ultimately have "cong64 (sum_list (map (\<lambda>n. team_direct ?ts n + team_allocated ?ts n) (map fst named)))
      (sum_list (map both (filter (\<lambda>t. roster_team (tc_team t)) ?ts)))"
    by (rule figures_by_name)
  moreover have "cong64 (sum_list (map showback_loaded rows))
      (sum_list (map (\<lambda>n. team_direct ?ts n + team_allocated ?ts n) (map fst named)))"
    unfolding rows_def by (simp add: comp_def split_def showback_loaded_def, rule cong64_sum) simp
  ultimately have A: "cong64 (sum_list (map showback_loaded rows)) (sum_list (map both (filter (\<lambda>t. roster_team (tc_team t)) ?ts)))"
    by (rule cong64_trans [rotated])
  have B: "cong64 (sum_list (map showback_loaded ruled)) (sum_list (map unit_total (filter ul_ruled ?us)))"
    unfolding ruled_def by (simp add: comp_def showback_loaded_def, rule cong64_sum) (simp add: unit_total_def)
  have "cong64 (sum_list (map showback_loaded ruled) + sum_list (map showback_loaded (unruled_rows ?us)))
      (sum_list (map unit_total ?us))"
    unfolding filter_split_sum [of unit_total ?us ul_ruled] by (rule cong64_add [OF B unruled_rows_sum])
  then have C: "cong64 (sum_list (map showback_loaded ruled) + sum_list (map showback_loaded (unruled_rows ?us)))
      (sum_list (map both (filter (\<lambda>t. \<not> roster_team (tc_team t)) ?ts)))"
    using units_sum cong64_trans by blast
  show ?thesis
    unfolding sb filter_split_sum [of both ?ts "\<lambda>t. roster_team (tc_team t)"] map_append sum_list_append
    by (rule cong64_add [OF A C])
qed

text \<open>
  C10. The showback rows and the unallocated figure are together the month's whole bill: every
  team of the allocation is in exactly one row, the roster's under its name, a ruled unit under its
  own and every other unit in the one row of unruled units.
\<close>

theorem showback_accounts_for_the_bill:
  "wrap64 (sum_list (map showback_loaded (showback p s)) + al_unallocated (allocate p s)) =
   wrap64 (billed (period_charges p s))"
proof -
  have "cong64 (sum_list (map loaded (al_teams (allocate p s)))) (sum_list (map both (al_teams (allocate p s))))"
    by (rule cong64_sum) (simp add: loaded_def both_def)
  then have "cong64 (sum_list (map showback_loaded (showback p s))) (sum_list (map loaded (al_teams (allocate p s))))"
    unfolding showback_def using showback_of_sum cong64_sym cong64_trans by blast
  then have "cong64 (sum_list (map showback_loaded (showback p s)) + al_unallocated (allocate p s))
      (sum_list (map loaded (al_teams (allocate p s))) + al_unallocated (allocate p s))"
    by (intro cong64_add) auto
  also have "cong64 \<dots> (billed (period_charges p s))" by (rule loaded_and_left)
  finally show ?thesis by (simp add: cong64_def)
qed

section \<open>A closed month\<close>

lemma set_frozen_rows [simp]: "set (frozen_rows p s) = {f \<in> set (st_chargeback s). fz_period f = p}"
  by (simp add: frozen_rows_def)

lemma fold_put_frozen:
  "\<forall>f \<in> set fs. \<forall>g \<in> set gs. \<not> same_key f g \<Longrightarrow> sorted_wrt (\<lambda>f g. \<not> same_key g f) fs \<Longrightarrow>
   fold put_frozen fs gs = gs @ fs"
proof (induction fs arbitrary: gs)
  case (Cons f fs)
  have "put_frozen f gs = gs @ [f]" using Cons.prems(1) by (simp add: put_frozen_def)
  moreover have "fold put_frozen fs (gs @ [f]) = (gs @ [f]) @ fs"
    by (rule Cons.IH) (use Cons.prems in auto)
  ultimately show ?case by simp
qed simp

lemma allocate_keys: "mset (map team_key (al_teams (allocate p s))) = mset (team_rows (direct_costs p s))"
proof -
  let ?d = "direct_costs p s" and ?pots = "shared_cost_pots p s"
  have "balanced ?d (0 + sum_list (map po_amount ?pots)) (fold (place_pot (rules s) ?d) ?pots (start_allocation p ?d ?pots))"
    by (rule place_pots_balanced [OF distinct_team_rows start_balanced])
  then have "map team_key (al_teams (fold (place_pot (rules s) ?d) ?pots (start_allocation p ?d ?pots))) = team_rows ?d"
    by (simp add: balanced_def)
  then show ?thesis by (simp add: allocate_def Let_def) (metis mset_map mset_rank_teams)
qed

lemma distinct_allocate: "distinct (map team_key (al_teams (allocate p s)))"
  using allocate_keys distinct_team_rows by (metis mset_eq_imp_distinct_iff)

lemma freeze_rows_apart: "distinct (map team_key ts) \<Longrightarrow>
    sorted_wrt (\<lambda>f g. \<not> same_key g f) (map (freeze_row p by' now) ts)"
  by (induction ts) (auto simp: same_key_def freeze_row_def team_key_def image_iff)

lemma allocate_reads:
  "st_charges s = st_charges t \<Longrightarrow> st_rules s = st_rules t \<Longrightarrow> allocate p s = allocate p t"
  by (simp add: allocate_def direct_costs_def shared_cost_pots_def rules_def)

lemma close_effect:
  assumes "close_period p by' s = (Inr (), t)"
  shows "t = s\<lparr>st_chargeback := st_chargeback s @ map (freeze_row p by' (st_now s)) (al_teams (allocate p s))\<rparr>"
    and "\<not> is_closed p s" and "al_teams (allocate p s) \<noteq> []"
proof -
  have c: "\<not> is_closed p s \<and> al_teams (allocate p s) \<noteq> [] \<and>
      t = s\<lparr>st_chargeback := fold put_frozen (map (freeze_row p by' (st_now s)) (al_teams (allocate p s))) (st_chargeback s)\<rparr>"
    using assms unfolding close_period_def op_ok by blast
  then have "fold put_frozen (map (freeze_row p by' (st_now s)) (al_teams (allocate p s))) (st_chargeback s) =
      st_chargeback s @ map (freeze_row p by' (st_now s)) (al_teams (allocate p s))"
    by (intro fold_put_frozen freeze_rows_apart [OF distinct_allocate])
      (auto simp: is_closed_def same_key_def freeze_row_def)
  with c show "t = s\<lparr>st_chargeback := st_chargeback s @ map (freeze_row p by' (st_now s)) (al_teams (allocate p s))\<rparr>"
    and "\<not> is_closed p s" and "al_teams (allocate p s) \<noteq> []" by auto
qed

lemma frozen_rows_after_close:
  assumes "close_period p by' s = (Inr (), t)"
  shows "mset (frozen_rows p t) = mset (map (freeze_row p by' (st_now s)) (al_teams (allocate p s)))"
proof -
  have "filter (\<lambda>f. fz_period f = p) (st_chargeback s) = []"
    using close_effect(2) [OF assms] by (auto simp: is_closed_def filter_empty_conv)
  moreover have "filter (\<lambda>f. fz_period f = p) (map (freeze_row p by' n) ts) = map (freeze_row p by' n) ts" for n ts
    by (simp add: filter_id_conv freeze_row_def)
  ultimately show ?thesis
    using close_effect(1) [OF assms] by (simp add: frozen_rows_def)
qed

lemma frozen_loaded_row [simp]: "frozen_loaded (freeze_row p by' n t) = loaded t"
  by (simp add: frozen_loaded_def freeze_row_def loaded_def)

text \<open>
  What a close writes of its month: the total is what the teams were loaded with, in the name of who
  closed it; the rows of every other month stay.
\<close>

lemma close_writes:
  assumes "close_period p by' s = (Inr (), t)"
  shows "pe_total (frozen_period p t) = cents_sum (map loaded (al_teams (allocate p s)))"
    and "pe_closed (frozen_period p t)" and "pe_closed_by (frozen_period p t) = by'"
    and "filter (\<lambda>f. fz_period f \<noteq> p) (st_chargeback t) = filter (\<lambda>f. fz_period f \<noteq> p) (st_chargeback s)"
    and "is_closed p t"
proof -
  have ms: "mset (frozen_rows p t) = mset (map (freeze_row p by' (st_now s)) (al_teams (allocate p s)))"
    by (rule frozen_rows_after_close [OF assms])
  have ne: "frozen_rows p t \<noteq> []" using ms close_effect(3) [OF assms] by (metis mset_zero_iff map_is_Nil_conv)
  have "map frozen_loaded (map (freeze_row p by' (st_now s)) ts) = map loaded ts" for ts by simp
  then have "mset (map frozen_loaded (frozen_rows p t)) = mset (map loaded (al_teams (allocate p s)))"
    using ms by (metis mset_map)
  then have "cents_sum (map frozen_loaded (frozen_rows p t)) = cents_sum (map loaded (al_teams (allocate p s)))"
    unfolding cents_sum_def by (rule i64.fold_wrap_perm)
  then show "pe_total (frozen_period p t) = cents_sum (map loaded (al_teams (allocate p s)))"
    by (simp add: frozen_period_def Let_def)
  show "pe_closed (frozen_period p t)" using ne by (simp add: frozen_period_def Let_def)
  have "set (frozen_rows p t) \<subseteq> range (freeze_row p by' (st_now s))"
    using mset_eq_setD [OF ms] by auto
  with ne have "last (frozen_rows p t) \<in> range (freeze_row p by' (st_now s))" using last_in_set by blast
  then show "pe_closed_by (frozen_period p t) = by'"
    using ne by (auto simp: frozen_period_def Let_def freeze_row_def)
  have "filter (\<lambda>f. fz_period f \<noteq> p) (map (freeze_row p by' n) ts) = []" for n ts
    by (simp add: filter_empty_conv freeze_row_def)
  then show "filter (\<lambda>f. fz_period f \<noteq> p) (st_chargeback t) = filter (\<lambda>f. fz_period f \<noteq> p) (st_chargeback s)"
    using close_effect(1) [OF assms] by simp
  show "is_closed p t" using hd_in_set [OF ne] by (auto simp: is_closed_def)
qed

text \<open>The rows of one month, which are all a reading of it depends on.\<close>

definition month_rows :: "string \<Rightarrow> store \<Rightarrow> frozen list" where
  "month_rows p s = filter (\<lambda>f. fz_period f = p) (st_chargeback s)"

lemma closed_month_rows: "is_closed p s \<longleftrightarrow> month_rows p s \<noteq> []"
  by (auto simp: is_closed_def month_rows_def filter_empty_conv)

lemma frozen_period_month_rows: "month_rows p t = month_rows p s \<Longrightarrow> frozen_period p t = frozen_period p s"
  by (simp add: frozen_period_def frozen_rows_def month_rows_def)

text \<open>A close leaves a closed month alone, its own month included; a reopen takes its month's rows away.\<close>

definition month_kept :: "string \<Rightarrow> store \<Rightarrow> store \<Rightarrow> bool" where
  "month_kept p s t \<longleftrightarrow> (is_closed p s \<longrightarrow> month_rows p t = month_rows p s)"

definition month_kept_or_gone :: "string \<Rightarrow> store \<Rightarrow> store \<Rightarrow> bool" where
  "month_kept_or_gone p s t \<longleftrightarrow> month_rows p t = month_rows p s \<or> month_rows p t = []"

interpretation mk: frame "month_kept p"
  by unfold_locales (auto simp: month_kept_def closed_month_rows)

interpretation mg: frame "month_kept_or_gone p"
  by unfold_locales (auto simp: month_kept_or_gone_def)

lemma month_rows_same: "st_chargeback t = st_chargeback s \<Longrightarrow> month_rows p t = month_rows p s"
  by (simp add: month_rows_def)

lemma put_frozen_other: "fz_period f \<noteq> p \<Longrightarrow> filter (\<lambda>f. fz_period f = p) (put_frozen f fs) = filter (\<lambda>f. fz_period f = p) fs"
  by (induction fs) (auto simp: put_frozen_def same_key_def)

lemma put_frozens_other:
  "\<forall>f \<in> set gs. fz_period f \<noteq> p \<Longrightarrow>
   filter (\<lambda>f. fz_period f = p) (fold put_frozen gs fs) = filter (\<lambda>f. fz_period f = p) fs"
  by (induction gs arbitrary: fs) (simp_all add: put_frozen_other)

lemma close_month_kept: "keeps (month_kept p) (close_period q by')"
proof (rule keepsI)
  fix s
  have "month_rows p (s\<lparr>st_chargeback := fold put_frozen (map (freeze_row q by' (st_now s)) ts) (st_chargeback s)\<rparr>) = month_rows p s"
    if "p \<noteq> q" for ts
    using that by (simp add: month_rows_def) (rule put_frozens_other, auto simp: freeze_row_def)
  then show "month_kept p s (snd (close_period q by' s))"
    by (cases "p = q") (auto simp: close_period_def op_run month_kept_def)
qed

lemma reopen_month_kept_or_gone: "keeps (month_kept_or_gone p) (reopen q reason)"
proof (rule keepsI)
  fix s :: store
  let ?t = "s\<lparr>st_chargeback := filter (\<lambda>f. fz_period f \<noteq> q) (st_chargeback s)\<rparr>"
  have "month_rows p ?t = (if p = q then [] else month_rows p s)"
    by (auto simp: month_rows_def filter_empty_conv intro: filter_cong)
  then have "month_kept_or_gone p s ?t" by (simp add: month_kept_or_gone_def)
  then show "month_kept_or_gone p s (snd (reopen q reason s))"
    by (simp add: reopen_def op_run mg.refl)
qed

lemma month_kept_weaken: "is_closed p s \<Longrightarrow> month_kept p s t \<Longrightarrow> month_kept_or_gone p s t"
  by (simp add: month_kept_def month_kept_or_gone_def)

lemma gone_or_kept: "month_kept_or_gone p s t \<Longrightarrow> is_closed p t \<Longrightarrow> month_kept p s t"
  by (auto simp: month_kept_def month_kept_or_gone_def closed_month_rows)

lemma row_key_inj: "CHR ''|'' \<notin> set a \<Longrightarrow> CHR ''|'' \<notin> set b \<Longrightarrow> row_key a x = row_key b y \<longleftrightarrow> a = b \<and> x = y"
proof (induction a arbitrary: b)
  case Nil
  then show ?case by (cases b) (auto simp: row_key_def)
next
  case (Cons c a)
  then show ?case by (cases b) (auto simp: row_key_def)
qed

lemma live_figure_row:
  assumes "distinct (map team_key ts)" and "\<forall>t \<in> set ts. CHR ''|'' \<notin> set (tc_source t)" and "t \<in> set ts"
  shows "live_figure ts (row_key (tc_source t) (tc_team t)) = loaded t"
proof -
  let ?kv = "\<lambda>t. (row_key (tc_source t) (tc_team t), loaded t)"
  have "distinct (map (fst \<circ> ?kv) ts)"
    using assms(1,2)
  proof (induction ts)
    case (Cons u ts)
    then show ?case by (auto simp: row_key_inj team_key_def)
  qed simp
  then have "distinct (map fst (rev (map ?kv ts)))" by (simp add: comp_def flip: rev_map)
  then have "map_of (rev (map ?kv ts)) (row_key (tc_source t) (tc_team t)) = Some (loaded t)"
    using assms(3) by (intro map_of_is_SomeI) auto
  then show ?thesis by (simp add: live_figure_def)
qed

text \<open>
  C14. A month just closed owes nobody anything: unless a source has a \<open>|\<close> in its name, the
  true-up of a month whose charges and rules have not moved since it was closed is empty.
\<close>

theorem no_true_up_after_close:
  assumes "close_period p by' s = (Inr (), t)"
    and "st_chargeback u = st_chargeback t" and "st_charges u = st_charges s" and "st_rules u = st_rules s"
    and "\<forall>r \<in> set (al_teams (allocate p s)). CHR ''|'' \<notin> set (tc_source r)"
  shows "true_up_for p u = ([], 0)"
proof -
  have al: "allocate p u = allocate p s" by (rule allocate_reads) (simp_all add: assms)
  have fr: "set (frozen_rows p u) = set (map (freeze_row p by' (st_now s)) (al_teams (allocate p s)))"
  proof -
    have "frozen_rows p u = frozen_rows p t" by (simp add: frozen_rows_def assms(2))
    then show ?thesis using mset_eq_setD [OF frozen_rows_after_close [OF assms(1)]] by simp
  qed
  have none: "true_up_row (al_teams (allocate p s)) (freeze_row p by' n r) = None"
    if "r \<in> set (al_teams (allocate p s))" for n r
  proof -
    have "live_figure (al_teams (allocate p s)) (row_key (fz_source (freeze_row p by' n r)) (fz_team (freeze_row p by' n r))) = loaded r"
      using live_figure_row [OF distinct_allocate assms(5) that] by (simp add: freeze_row_def)
    then show ?thesis by (simp add: true_up_row_def Let_def wrap64_id in64_def min64_def max64_def)
  qed
  have "\<forall>f \<in> set (frozen_rows p u). true_up_row (al_teams (allocate p s)) f = None"
    unfolding fr set_map by (intro ballI, elim imageE) (simp only: none)
  then have "List.map_filter (true_up_row (al_teams (allocate p u))) (frozen_rows p u) = []"
    unfolding al by (simp add: List.map_filter_def filter_empty_conv)
  then show ?thesis by (simp add: true_up_for_def frozen_period_def Let_def cents_sum_def)
qed

section \<open>A month to run\<close>

definition demo_charge :: "string \<Rightarrow> string \<Rightarrow> string \<Rightarrow> string \<Rightarrow> cents \<Rightarrow> charge" where
  "demo_charge day source team category v =
     \<lparr>ch_source = source, ch_day = day, ch_service = ''compute'', ch_team = team, ch_category = category,
      ch_billed = v, ch_provenance = []\<rparr>"

definition demo_month :: store where
  "demo_month = empty_store\<lparr>st_charges :=
     [demo_charge ''2026-09-01'' ''aws'' ''growth'' ''Usage'' 10000,
      demo_charge ''2026-09-02'' ''aws'' ''acme'' ''Usage'' 20001,
      demo_charge ''2026-09-02'' ''aws'' [] ''Purchase'' 100], st_rules := default_rules\<rparr>"

lemma allocate_key_set: "team_key ` set (al_teams (allocate p s)) = set (team_rows (direct_costs p s))"
proof -
  have "set (map team_key (al_teams (allocate p s))) = set (team_rows (direct_costs p s))"
    by (rule mset_eq_setD) (rule allocate_keys)
  then show ?thesis unfolding set_map .
qed

lemma demo_rows: "team_rows (direct_costs ''2026-09'' demo_month) = [(''aws'', ''acme''), (''aws'', ''growth'')]"
  by code_simp

lemma demo_teams: "al_teams (allocate ''2026-09'' demo_month) \<noteq> []"
proof
  assume "al_teams (allocate ''2026-09'' demo_month) = []"
  then have "set (team_rows (direct_costs ''2026-09'' demo_month)) = {}"
    unfolding allocate_key_set [symmetric] by (simp only: list.set image_empty)
  then show False unfolding demo_rows by simp
qed

lemma demo_close: "close_period ''2026-09'' ''ada'' demo_month = (Inr (), snd (close_period ''2026-09'' ''ada'' demo_month))"
proof -
  have "\<not> is_closed ''2026-09'' demo_month" by (simp add: is_closed_def demo_month_def empty_store_def)
  with demo_teams show ?thesis by (simp add: close_period_def op_run)
qed

lemma no_true_up_after_close_witness:
  "true_up_for ''2026-09'' (snd (close_period ''2026-09'' ''ada'' demo_month)) = ([], 0)"
proof (rule no_true_up_after_close [OF demo_close refl])
  have "st_charges (snd (close_period ''2026-09'' ''ada'' demo_month)) = st_charges demo_month \<and>
      st_rules (snd (close_period ''2026-09'' ''ada'' demo_month)) = st_rules demo_month"
    using close_effect(1) [OF demo_close] by (metis (no_types, lifting) store.ext_inject store.surjective store.update_convs(17))
  then show "st_charges (snd (close_period ''2026-09'' ''ada'' demo_month)) = st_charges demo_month"
    and "st_rules (snd (close_period ''2026-09'' ''ada'' demo_month)) = st_rules demo_month" by auto
  show "\<forall>r \<in> set (al_teams (allocate ''2026-09'' demo_month)). CHR ''|'' \<notin> set (tc_source r)"
  proof
    fix r assume "r \<in> set (al_teams (allocate ''2026-09'' demo_month))"
    then have "team_key r \<in> set (team_rows (direct_costs ''2026-09'' demo_month))"
      unfolding allocate_key_set [symmetric] by (rule imageI)
    then have "tc_source r = ''aws''" by (auto simp: demo_rows team_key_def)
    then show "CHR ''|'' \<notin> set (tc_source r)" by simp
  qed
qed

text \<open>
  A true-up speaks only of teams that were frozen: one first charged after the close is in no row of
  it, whatever it has cost since.
\<close>

lemma true_up_speaks_of_frozen_teams:
  assumes "r \<in> set (fst (true_up_for p s))"
  shows "\<exists>f \<in> set (st_chargeback s). fz_period f = p \<and> fz_source f = tu_source r \<and> fz_team f = tu_team r"
proof -
  have "r \<in> set (List.map_filter (true_up_row (al_teams (allocate p s))) (frozen_rows p s))"
    using assms by (auto simp: true_up_for_def frozen_period_def Let_def split: if_splits)
  then obtain f where "f \<in> set (frozen_rows p s)" and "true_up_row (al_teams (allocate p s)) f = Some r"
    by (auto simp: List.map_filter_def)
  then show ?thesis by (auto simp: true_up_row_def Let_def split: if_splits)
qed

end
