(* ===== verification/Digest.thy ===== *)
theory Digest
  imports Prelude "HOL-Library.Word"
begin

text \<open>
  SHA-256 as \<open>crypto/sha256\<close> computes it (FIPS 180-4), on 32-bit words, and the lower-case
  hexadecimal of \<open>encoding/hex\<close>: what an anomaly's name is made with.
\<close>

unbundle bit_operations_syntax

section \<open>The compression function\<close>

definition rotr :: "nat \<Rightarrow> 32 word \<Rightarrow> 32 word" where
  "rotr k x = (drop_bit k x OR push_bit (32 - k) x)"

definition big_sigma0 :: "32 word \<Rightarrow> 32 word" where
  "big_sigma0 x = rotr 2 x XOR rotr 13 x XOR rotr 22 x"

definition big_sigma1 :: "32 word \<Rightarrow> 32 word" where
  "big_sigma1 x = rotr 6 x XOR rotr 11 x XOR rotr 25 x"

definition small_sigma0 :: "32 word \<Rightarrow> 32 word" where
  "small_sigma0 x = rotr 7 x XOR rotr 18 x XOR drop_bit 3 x"

definition small_sigma1 :: "32 word \<Rightarrow> 32 word" where
  "small_sigma1 x = rotr 17 x XOR rotr 19 x XOR drop_bit 10 x"

text \<open>
  The standard's two tables are the leading 32 bits of the fractions of roots of the first primes:
  cube roots of sixty-four for the rounds, square roots of eight for the start. The root is found
  bit by bit from the top.
\<close>

fun root_from :: "nat \<Rightarrow> int \<Rightarrow> nat \<Rightarrow> int \<Rightarrow> int" where
  "root_from k n 0 r = r"
| "root_from k n (Suc b) r = root_from k n b (if (r + 2 ^ b) ^ k \<le> n then r + 2 ^ b else r)"

definition fraction_bits :: "nat \<Rightarrow> int \<Rightarrow> 32 word" where
  "fraction_bits k p = word_of_int (root_from k (p * 2 ^ (32 * k)) 40 0)"

definition small_primes :: "int list" where
  "small_primes = filter (\<lambda>p. list_all (\<lambda>q. p mod q \<noteq> 0) [2..p - 1]) [2..311]"

definition round_constants :: "32 word list" where
  "round_constants = map (fraction_bits 3) small_primes"

definition initial_hash :: "32 word list" where
  "initial_hash = map (fraction_bits 2) (take 8 small_primes)"

definition sha_pad :: "int list \<Rightarrow> int list" where
  "sha_pad m = m @ [128] @ replicate ((119 - length m mod 64) mod 64) 0 @
     map (\<lambda>i. (int (length m) * 8) div 256 ^ (7 - i) mod 256) [0..<8]"

fun sha_words :: "int list \<Rightarrow> 32 word list" where
  "sha_words (a # b # c # d # rest) = word_of_int (((a * 256 + b) * 256 + c) * 256 + d) # sha_words rest"
| "sha_words _ = []"

fun sha_schedule :: "nat \<Rightarrow> 32 word list \<Rightarrow> 32 word list" where
  "sha_schedule 0 ws = rev ws"
| "sha_schedule (Suc k) ws =
     sha_schedule k ((small_sigma1 (ws ! 1) + ws ! 6 + small_sigma0 (ws ! 14) + ws ! 15) # ws)"

fun sha_compress :: "(32 word \<times> 32 word) list \<Rightarrow> 32 word list \<Rightarrow> 32 word list" where
  "sha_compress ((k, w) # rest) [a, b, c, d, e, f, g, h] =
     (let t1 = h + big_sigma1 e + ((e AND f) XOR (NOT e AND g)) + k + w;
          t2 = big_sigma0 a + ((a AND b) XOR (a AND c) XOR (b AND c))
      in sha_compress rest [t1 + t2, a, b, c, d + t1, e, f, g])"
| "sha_compress _ hs = hs"

function sha_blocks :: "32 word list \<Rightarrow> 32 word list \<Rightarrow> 32 word list" where
  "sha_blocks hs ws =
     (if length ws < 16 then hs
      else sha_blocks (map2 (+) hs (sha_compress (zip round_constants (sha_schedule 48 (rev (take 16 ws)))) hs)) (drop 16 ws))"
  by auto
termination by (relation "measure (length o snd)") auto
declare sha_blocks.simps [simp del]

definition sha256 :: "int list \<Rightarrow> int list" where
  "sha256 m = concat (map (\<lambda>w. map (\<lambda>i. uint w div 256 ^ (3 - i) mod 256) [0..<4]) (sha_blocks initial_hash (sha_words (sha_pad m))))"

definition hex_digit :: "int \<Rightarrow> char" where
  "hex_digit n = ''0123456789abcdef'' ! nat n"

definition hex :: "int list \<Rightarrow> string" where
  "hex bs = concat (map (\<lambda>b. [hex_digit (b div 16), hex_digit (b mod 16)]) bs)"

end
