(* ===== verification/Anomaly.thy ===== *)
theory Anomaly
  imports Detect Digest
begin

text \<open>
  \<open>internal/anomaly\<close>: the detection pass over the estate (\<open>anomaly.go\<close> \<open>Run\<close>, \<open>announced.go\<close>, and
  the series of \<open>internal/estate/seed.go\<close>) and the life of an anomaly. A pass reads the charges,
  the drivers and the attribution, and writes rows of the anomaly table; the memo of each decision's
  split is left out, being a memo of a function of tables the pass does not write.
\<close>

section \<open>What an anomaly is called\<close>

definition rule_version :: string where "rule_version = ''v1''"

definition anomaly_id :: "string \<Rightarrow> string \<Rightarrow> string \<Rightarrow> string \<Rightarrow> string \<Rightarrow> string" where
  "anomaly_id source team service day version =
     ''A-'' @ hex (take 6 (sha256 (map of_char (join [CHR 0x00] [source, team, service, day, version]))))"

section \<open>Series\<close>

record series_key =
  sk_source :: string
  sk_team :: string
  sk_service :: string

definition all_series :: "store \<Rightarrow> series_key list" where
  "all_series s =
     sort_key (\<lambda>k. map byte (sk_source k)) (sort_key (\<lambda>k. map byte (sk_team k))
       (sort_key (\<lambda>k. map byte (sk_service k))
         (remdups (map (\<lambda>c. \<lparr>sk_source = ch_source c, sk_team = ch_team c, sk_service = ch_service c\<rparr>)
            (st_charges s)))))"

text \<open>
  \<open>team=?\<close> in SQL: a charge with no team has NULL there, which equals nothing, not even the empty
  string a series of untagged charges is listed with.
\<close>

definition on_series :: "series_key \<Rightarrow> charge \<Rightarrow> bool" where
  "on_series k c \<longleftrightarrow>
     ch_source c = sk_source k \<and> ch_team c = sk_team k \<and> sk_team k \<noteq> [] \<and> ch_service c = sk_service k"

definition densify :: "string \<Rightarrow> string \<Rightarrow> (string \<Rightarrow> cents) \<Rightarrow> err + point list" where
  "densify first until by_day =
     (case parse_date first of None \<Rightarrow> Inl (BadDay first)
      | Some f \<Rightarrow> (case parse_date until of None \<Rightarrow> Inl (BadDay until)
          | Some l \<Rightarrow> Inr (map (\<lambda>d. \<lparr>pt_day = format_date d, pt_amount = by_day (format_date d)\<rparr>) [f..l])))"

text \<open>The sums of the days are SQLite's: one that overflows ends the query.\<close>

definition series_days :: "series_key \<Rightarrow> store \<Rightarrow> err + point list" where
  "series_days k s =
     (let days = sort_names (map ch_day (filter (on_series k) (st_charges s))) in
      if list_ex (day_overflows (on_series k) s) days then Inl SumOverflows
      else case filter (\<lambda>d. d \<noteq> []) days of [] \<Rightarrow> Inr []
           | first # _ \<Rightarrow> densify first (last days) (day_sum (on_series k) s))"

text \<open>\<open>AgentFor\<close>: the agent and how it was established. A NULL in either does not scan into a string.\<close>

definition agent_for :: "series_key \<Rightarrow> string \<Rightarrow> store \<Rightarrow> err + string \<times> string" where
  "agent_for k day s =
     (case find (\<lambda>a. at_source a = sk_source k \<and> at_team a = sk_team k \<and> sk_team k \<noteq> [] \<and>
                     at_service a = sk_service k \<and> str_le (at_from a) day \<and> str_le day (at_to a))
        (st_attribution s) of
        None \<Rightarrow> Inr ([], [])
      | Some a \<Rightarrow>
          (case at_agent a of None \<Rightarrow> Inl NullScanned
           | Some agent \<Rightarrow> (case at_confidence a of None \<Rightarrow> Inl NullScanned
               | Some confidence \<Rightarrow> Inr (agent, confidence))))"

definition attribute :: "series_key \<Rightarrow> string \<Rightarrow> store \<Rightarrow> err + string \<times> string" where
  "attribute k day s =
     (case agent_for k day s of Inl e \<Rightarrow> Inl e
      | Inr (agent, _) \<Rightarrow>
          Inr (if agent \<noteq> [] then (agent, ''agent'')
               else if sk_team k \<noteq> [] then (sk_team k, ''team'')
               else ([], ''unknown'')))"

section \<open>The drivers of a series\<close>

definition shares_of :: "driver \<Rightarrow> cents \<Rightarrow> store \<Rightarrow> (string \<times> cents) list" where
  "shares_of d daily s = split_by_median daily (team_spend_medians (dr_source d) (dr_scope d) (dr_start d) s)"

definition series_driver_of :: "driver \<Rightarrow> cents option \<Rightarrow> series_driver" where
  "series_driver_of d e =
     \<lparr>sd_start = dr_start d, sd_end = dr_end d, sd_scope = dr_scope d, sd_label = dr_label d,
      sd_kind = dr_kind d, sd_expected = e\<rparr>"

definition driver_on :: "series_key \<Rightarrow> store \<Rightarrow> driver \<Rightarrow> series_driver option" where
  "driver_on k s d =
     (case dr_expected d of
        None \<Rightarrow> Some (series_driver_of d None)
      | Some c \<Rightarrow>
          if dr_kind d \<noteq> ''announced'' then Some (series_driver_of d (Some c))
          else if dr_source d \<noteq> sk_source k then None
          else if dr_team d \<noteq> [] then
            (if dr_team d \<noteq> sk_team k then None else Some (series_driver_of d (Some c)))
          else
            (case map_of (shares_of d c s) (sk_team k) of
               None \<Rightarrow> None
             | Some share \<Rightarrow> if share = 0 then None else Some (series_driver_of d (Some share))))"

text \<open>The medians of a step that is split are read per decision, and the read may overflow.\<close>

definition split_overflows :: "series_key \<Rightarrow> store \<Rightarrow> driver \<Rightarrow> bool" where
  "split_overflows k s d \<longleftrightarrow>
     dr_kind d = ''announced'' \<and> dr_expected d \<noteq> None \<and> dr_source d = sk_source k \<and> dr_team d = [] \<and>
     team_spend_overflows (dr_source d) (dr_scope d) (dr_start d) s"

definition series_drivers :: "series_key \<Rightarrow> driver list \<Rightarrow> store \<Rightarrow> err + series_driver list" where
  "series_drivers k ds s =
     (if list_ex (split_overflows k s) ds then Inl SumOverflows else Inr (List.map_filter (driver_on k s) ds))"

section \<open>Rows and events\<close>

definition direction_text :: "direction \<Rightarrow> string" where
  "direction_text d = (case d of Up \<Rightarrow> ''up'' | Down \<Rightarrow> ''down'')"

definition anomaly_text :: "anomaly_state \<Rightarrow> string" where
  "anomaly_text st = (case st of Open \<Rightarrow> ''open'' | Triaged \<Rightarrow> ''triaged'' | Explained \<Rightarrow> ''explained''
     | Accepted \<Rightarrow> ''accepted'' | Dismissed \<Rightarrow> ''dismissed'')"

definition closed_state :: "anomaly_state \<Rightarrow> bool" where
  "closed_state st \<longleftrightarrow> st = Accepted \<or> st = Dismissed"

definition severity_of :: "cents \<Rightarrow> string" where
  "severity_of excess =
     (let a = cents_abs excess in
      if a \<ge> 500000 then ''critical'' else if a \<ge> 100000 then ''high''
      else if a \<ge> 20000 then ''medium'' else ''low'')"

definition anomaly_event :: "string \<Rightarrow> string \<Rightarrow> anomaly \<Rightarrow> (string \<times> json) list \<Rightarrow> event" where
  "anomaly_event k actor a extra =
     mk_event k actor (severity_of (ay_excess a))
       ([(''anomaly'', JString (ay_id a)), (''source'', JString (ay_source a)),
         (''service'', JString (ay_service a)), (''day'', JString (ay_day a)),
         (''direction'', JString (ay_direction a)), (''excess_cents'', JInt (ay_excess a)),
         (''excess'', JString (cents_string (ay_excess a))), (''rule_version'', JString (ay_rule_version a)),
         (''caused_by'', JString (ay_caused_by a)), (''caused_by_kind'', JString (ay_caused_by_kind a))] @
        (if ay_team a \<noteq> [] then [(''team'', JString (ay_team a))] else []) @
        (if ay_driver a \<noteq> [] then [(''driver'', JString (ay_driver a))] else []) @ extra)"

definition anomaly_row :: "string \<Rightarrow> store \<Rightarrow> anomaly option" where
  "anomaly_row i s = find (\<lambda>a. ay_id a = i) (st_anomalies s)"

definition update_anomaly :: "string \<Rightarrow> (anomaly \<Rightarrow> anomaly) \<Rightarrow> store \<Rightarrow> store" where
  "update_anomaly i f s = s\<lparr>st_anomalies := update_where (\<lambda>a. ay_id a = i) f (st_anomalies s)\<rparr>"

section \<open>Reads\<close>

record anomaly_filter =
  af_state :: "anomaly_state option"
  af_source :: string
  af_direction :: string
  af_caused_by :: string
  af_handled_by :: string

definition any_anomaly :: anomaly_filter where
  "any_anomaly = \<lparr>af_state = None, af_source = [], af_direction = [], af_caused_by = [], af_handled_by = []\<rparr>"

definition anomaly_matches :: "anomaly_filter \<Rightarrow> anomaly \<Rightarrow> bool" where
  "anomaly_matches f a \<longleftrightarrow>
     (af_state f = None \<or> af_state f = Some (ay_state a)) \<and>
     (af_source f = [] \<or> ay_source a = af_source f) \<and>
     (af_direction f = [] \<or> ay_direction a = af_direction f) \<and>
     (af_caused_by f = [] \<or> ay_caused_by a = af_caused_by f) \<and>
     (af_handled_by f = [] \<or> ay_handled_by a = af_handled_by f)"

definition list_anomalies :: "anomaly_filter \<Rightarrow> store \<Rightarrow> anomaly list" where
  "list_anomalies f s =
     sort_key (\<lambda>a. - \<bar>ay_excess a\<bar>) (rev (sort_key (\<lambda>a. map byte (ay_day a))
       (rev (filter (anomaly_matches f) (st_anomalies s)))))"

definition get_anomaly :: "string \<Rightarrow> store \<Rightarrow> anomaly option" where
  "get_anomaly i s = find (\<lambda>a. ay_id a = i) (list_anomalies any_anomaly s)"

definition anomaly_counts :: "store \<Rightarrow> (anomaly_state \<times> nat) list" where
  "anomaly_counts s =
     map (\<lambda>st. (st, length (filter (\<lambda>a. ay_state a = st) (st_anomalies s))))
       [Open, Triaged, Explained, Accepted, Dismissed]"

section \<open>Transitions\<close>

definition moved_row :: "anomaly_state \<Rightarrow> string \<Rightarrow> string \<Rightarrow> string \<Rightarrow> anomaly \<Rightarrow> anomaly" where
  "moved_row to reason analyst now a =
     (if analyst \<noteq> [] then a\<lparr>ay_state := to, ay_handled_by := analyst\<rparr>
      else a\<lparr>ay_state := to, ay_reason := reason\<rparr>)\<lparr>ay_closed_at := (if closed_state to then now else [])\<rparr>"

text \<open>The row is read back before it is reported.\<close>

definition report_move :: "string \<Rightarrow> anomaly_state \<Rightarrow> anomaly_state \<Rightarrow> string \<Rightarrow> recorder \<Rightarrow> string \<Rightarrow> unit op" where
  "report_move i from to reason rec analyst =
     andthen (query (get_anomaly i)) (\<lambda>back.
     case back of None \<Rightarrow> ok ()
     | Some a \<Rightarrow> emit rec (anomaly_event (''anomaly_'' @ anomaly_text to) (ay_handled_by a) a
         ([(''to'', JString (anomaly_text to)), (''from'', JString (anomaly_text from))] @
          (if reason \<noteq> [] then [(''reason'', JString reason)] else []) @
          (if analyst \<noteq> [] then [(''assigned_to'', JString analyst)] else []))))"

definition transition :: "string \<Rightarrow> anomaly_state \<Rightarrow> string \<Rightarrow> recorder \<Rightarrow>
    (anomaly_state \<Rightarrow> err option) \<Rightarrow> string \<Rightarrow> unit op" where
  "transition i to reason rec allowed analyst =
     andthen (ensure (to = Triaged \<or> \<not> blank reason) ErrNeedReason) (\<lambda>_.
     andthen (fetch (anomaly_row i) NoSuchAnomaly) (\<lambda>cur.
     andthen (case allowed (ay_state cur) of None \<Rightarrow> ok () | Some e \<Rightarrow> fail e) (\<lambda>_.
     andthen (exec (\<lambda>s. update_anomaly i (moved_row to reason analyst (st_now s)) s)) (\<lambda>_.
     report_move i (ay_state cur) to reason rec analyst))))"

definition unless_closed :: "anomaly_state \<Rightarrow> err option" where
  "unless_closed cur = (if closed_state cur then Some ErrClosed else None)"

definition assign_anomaly :: "string \<Rightarrow> string \<Rightarrow> recorder \<Rightarrow> unit op" where
  "assign_anomaly i analyst rec = transition i Triaged [] rec unless_closed analyst"

definition explain_anomaly :: "string \<Rightarrow> string \<Rightarrow> recorder \<Rightarrow> unit op" where
  "explain_anomaly i reason rec = transition i Explained reason rec unless_closed []"

definition accept_anomaly :: "string \<Rightarrow> string \<Rightarrow> recorder \<Rightarrow> unit op" where
  "accept_anomaly i reason rec =
     transition i Accepted reason rec
       (\<lambda>cur. if cur \<noteq> Explained \<and> cur \<noteq> Triaged then Some ErrNotExplained else None) []"

definition dismiss_anomaly :: "string \<Rightarrow> string \<Rightarrow> recorder \<Rightarrow> unit op" where
  "dismiss_anomaly i reason rec = transition i Dismissed reason rec unless_closed []"

section \<open>The detection pass\<close>

definition upsert :: "anomaly \<Rightarrow> bool op" where
  "upsert a =
     andthen (query (anomaly_row (ay_id a))) (\<lambda>known.
     case known of
       None \<Rightarrow> andthen (exec (\<lambda>s. s\<lparr>st_anomalies := st_anomalies s @ [a]\<rparr>)) (\<lambda>_. ok True)
     | Some _ \<Rightarrow>
         andthen (exec (update_anomaly (ay_id a) (\<lambda>r. r\<lparr>ay_amount := ay_amount a, ay_baseline := ay_baseline a,
             ay_excess := ay_excess a, ay_z := ay_z a, ay_driver := ay_driver a\<rparr>))) (\<lambda>_. ok False))"

text \<open>\<open>now.Unix()\<close> of the clock's RFC 3339 text.\<close>

definition unix_seconds :: "string \<Rightarrow> int" where
  "unix_seconds t =
     (case parse_date (take 10 t) of None \<Rightarrow> 0
      | Some d \<Rightarrow> (d - 719528) * 86400 + decimal (take 2 (drop 11 t)) * 3600 +
                  decimal (take 2 (drop 14 t)) * 60 + decimal (take 2 (drop 17 t)))"

definition finding_id :: "series_key \<Rightarrow> finding \<Rightarrow> string" where
  "finding_id k f = anomaly_id (sk_source k) (sk_team k) (sk_service k) (fi_day f) rule_version"

definition found_row :: "series_key \<Rightarrow> finding \<Rightarrow> string \<Rightarrow> string \<Rightarrow> store \<Rightarrow> anomaly" where
  "found_row k f who kind s =
     \<lparr>ay_id = finding_id k f, ay_source = sk_source k, ay_team = sk_team k, ay_service = sk_service k,
      ay_day = fi_day f, ay_direction = direction_text (fi_direction f), ay_amount = fi_amount f,
      ay_baseline = fi_baseline f, ay_excess = fi_excess f, ay_z = fi_z f, ay_rule = fi_rule f,
      ay_rule_version = rule_version, ay_driver = fi_driver f, ay_caused_by = who, ay_caused_by_kind = kind,
      ay_handled_by = [], ay_state = Open, ay_reason = [], ay_detected_at = st_now s, ay_closed_at = []\<rparr>"

definition found_anomaly :: "series_key \<Rightarrow> finding \<Rightarrow> store \<Rightarrow> err + anomaly" where
  "found_anomaly k f s =
     (case attribute k (fi_day f) s of Inl e \<Rightarrow> Inl e | Inr (who, kind) \<Rightarrow> Inr (found_row k f who kind s))"

definition record_row :: "recorder \<Rightarrow> anomaly \<Rightarrow> bool op" where
  "record_row rec a =
     andthen (upsert a) (\<lambda>new.
     if new then
       andthen (query (\<lambda>s. anomaly_event ''anomaly_detected'' [] a
           [(''pass'', JString (''detect-'' @ append_int (unix_seconds (st_now s))))])) (\<lambda>e.
       andthen (emit rec e) (\<lambda>_. ok True))
     else ok False)"

definition record_finding :: "recorder \<Rightarrow> series_key \<Rightarrow> finding \<Rightarrow> bool op" where
  "record_finding rec k f = andthen (attempt (found_anomaly k f)) (record_row rec)"

definition series_findings :: "config \<Rightarrow> driver list \<Rightarrow> series_key \<Rightarrow> store \<Rightarrow> err + finding list" where
  "series_findings cfg ds k s =
     (case series_days k s of Inl e \<Rightarrow> Inl e
      | Inr pts \<Rightarrow> (case series_drivers k ds s of Inl e \<Rightarrow> Inl e
          | Inr sds \<Rightarrow> Inr (find_irregular pts (sk_service k) sds cfg)))"

definition run_series :: "config \<Rightarrow> recorder \<Rightarrow> driver list \<Rightarrow> series_key \<Rightarrow> bool list op" where
  "run_series cfg rec ds k = andthen (attempt (series_findings cfg ds k)) (collect (record_finding rec k))"

text \<open>\<open>Run\<close>: how many it found, how many of them were new.\<close>

definition run_detection :: "config \<Rightarrow> recorder \<Rightarrow> (nat \<times> nat) op" where
  "run_detection cfg rec =
     andthen (query drivers) (\<lambda>ds.
     andthen (query all_series) (\<lambda>ks.
     andthen (collect (run_series cfg rec ds) ks) (\<lambda>news.
     ok (length (concat news), length (filter (\<lambda>b. b) (concat news))))))"

section \<open>The life of an anomaly\<close>

inductive anomaly_step :: "store \<Rightarrow> store \<Rightarrow> bool" where
  assign_step: "anomaly_step s (snd (assign_anomaly i analyst rec s))"
| explain_step: "anomaly_step s (snd (explain_anomaly i reason rec s))"
| accept_step: "anomaly_step s (snd (accept_anomaly i reason rec s))"
| dismiss_step: "anomaly_step s (snd (dismiss_anomaly i reason rec s))"
| detect_step: "anomaly_step s (snd (run_detection cfg rec s))"
| clock_step: "anomaly_step s (s\<lparr>st_now := now\<rparr>)"

inductive_cases anomaly_stepE: "anomaly_step s t"

lemma anomaly_step_keeps:
  assumes "\<And>i analyst rec. keeps R (assign_anomaly i analyst rec)"
    and "\<And>i reason rec. keeps R (explain_anomaly i reason rec)"
    and "\<And>i reason rec. keeps R (accept_anomaly i reason rec)"
    and "\<And>i reason rec. keeps R (dismiss_anomaly i reason rec)"
    and "\<And>cfg rec. keeps R (run_detection cfg rec)"
    and "\<And>s now. R s (s\<lparr>st_now := now\<rparr>)"
  shows "anomaly_step s t \<Longrightarrow> R s t"
  by (erule anomaly_stepE) (use assms in \<open>auto simp: keeps_def\<close>)

text \<open>The pass touches an existing row in its measurements only; a new row is open.\<close>

lemma upsert_known:
  "anomaly_row (ay_id a) s = Some r \<Longrightarrow>
   upsert a s = (Inr False, update_anomaly (ay_id a) (\<lambda>r. r\<lparr>ay_amount := ay_amount a, ay_baseline := ay_baseline a,
      ay_excess := ay_excess a, ay_z := ay_z a, ay_driver := ay_driver a\<rparr>) s)"
  by (simp add: upsert_def op_run)

lemma upsert_new:
  "anomaly_row (ay_id a) s = None \<Longrightarrow> upsert a s = (Inr True, s\<lparr>st_anomalies := st_anomalies s @ [a]\<rparr>)"
  by (simp add: upsert_def op_run)

text \<open>What a decision leaves on a row, and that a closed one keeps it.\<close>

definition decision :: "anomaly \<Rightarrow> anomaly_state \<times> string \<times> string \<times> string" where
  "decision a = (ay_state a, ay_reason a, ay_handled_by a, ay_closed_at a)"

definition closed_kept :: "store \<Rightarrow> store \<Rightarrow> bool" where
  "closed_kept s t \<longleftrightarrow>
     (\<forall>i a. anomaly_row i s = Some a \<and> closed_state (ay_state a) \<longrightarrow>
        (\<exists>b. anomaly_row i t = Some b \<and> decision b = decision a))"

interpretation ck: frame closed_kept
proof
  show "closed_kept s s" for s by (simp add: closed_kept_def)
  show "closed_kept s u" if st: "closed_kept s t" and tu: "closed_kept t u" for s t u
    unfolding closed_kept_def
  proof (intro allI impI)
    fix i a assume a: "anomaly_row i s = Some a \<and> closed_state (ay_state a)"
    then obtain b where b: "anomaly_row i t = Some b" "decision b = decision a"
      using st by (auto simp: closed_kept_def)
    then have "closed_state (ay_state b)" using a by (simp add: decision_def)
    with b show "\<exists>c. anomaly_row i u = Some c \<and> decision c = decision a"
      using tu by (force simp: closed_kept_def)
  qed
qed

lemma anomaly_row_update:
  assumes "\<And>r. ay_id (f r) = ay_id r"
  shows "anomaly_row j (update_anomaly i f s) = map_option (\<lambda>r. if ay_id r = i then f r else r) (anomaly_row j s)"
  using assms by (simp add: anomaly_row_def update_anomaly_def find_update_where)

lemma anomaly_row_id: "anomaly_row i s = Some a \<Longrightarrow> ay_id a = i"
  by (auto simp: anomaly_row_def find_Some_iff)

lemma anomaly_row_append:
  "anomaly_row i (s\<lparr>st_anomalies := st_anomalies s @ [a]\<rparr>) =
   (case anomaly_row i s of None \<Rightarrow> if ay_id a = i then Some a else None | Some r \<Rightarrow> Some r)"
proof -
  have "find P (xs @ [a]) = (case find P xs of None \<Rightarrow> if P a then Some a else None | Some r \<Rightarrow> Some r)" for P xs
    by (induction xs) auto
  then show ?thesis by (simp add: anomaly_row_def)
qed

lemma anomaly_row_journal [simp]: "anomaly_row i (journal rec e s) = anomaly_row i s"
  by (simp add: anomaly_row_def)

lemma closed_kept_same_rows: "st_anomalies t = st_anomalies s \<Longrightarrow> closed_kept s t"
  by (simp add: closed_kept_def anomaly_row_def)

lemma emit_closed_kept [intro!, simp]: "keeps closed_kept (emit rec e)"
  unfolding emit_def by (intro ck.exec_keeps closed_kept_same_rows) simp

lemma upsert_closed_kept [intro!, simp]: "keeps closed_kept (upsert a)"
proof (rule keepsI)
  fix s
  show "closed_kept s (snd (upsert a s))"
  proof (cases "anomaly_row (ay_id a) s")
    case None
    then show ?thesis by (auto simp: upsert_new closed_kept_def anomaly_row_append)
  next
    case (Some r)
    then show ?thesis
      by (auto simp: upsert_known closed_kept_def anomaly_row_update decision_def)
  qed
qed

lemma record_closed_kept [intro!, simp]: "keeps closed_kept (record_finding rec k f)"
  unfolding record_finding_def record_row_def by auto

lemma run_closed_kept [intro!, simp]: "keeps closed_kept (run_detection cfg rec)"
  unfolding run_detection_def run_series_def by auto

lemma report_move_rows [simp]: "st_anomalies (snd (report_move i from to reason rec analyst s)) = st_anomalies s"
  by (simp add: report_move_def emit_def op_run split: option.split)

lemma moved_row_id [simp]: "ay_id (moved_row to reason analyst now a) = ay_id a"
  by (simp add: moved_row_def)

text \<open>A transition that is refused leaves the store, and one that is not moves its row and reports.\<close>

lemma transition_cases:
  fixes s :: store
  obtains e where "transition i to reason rec allowed analyst s = (Inl e, s)"
  | cur where "anomaly_row i s = Some cur" and "allowed (ay_state cur) = None" and "to = Triaged \<or> \<not> blank reason"
      and "transition i to reason rec allowed analyst s =
        report_move i (ay_state cur) to reason rec analyst (update_anomaly i (moved_row to reason analyst (st_now s)) s)"
proof (cases "to = Triaged \<or> \<not> blank reason")
  case False
  then show thesis by (intro that(1)) (simp add: transition_def op_run)
next
  case True
  show thesis
  proof (cases "anomaly_row i s")
    case None
    with True show thesis by (intro that(1)) (simp add: transition_def op_run)
  next
    case (Some cur)
    show thesis
    proof (cases "allowed (ay_state cur)")
      case None
      with True Some show thesis by (intro that(2)) (simp_all add: transition_def op_run)
    next
      case (Some e)
      with True \<open>anomaly_row i s = Some cur\<close> show thesis by (intro that(1)) (simp add: transition_def op_run)
    qed
  qed
qed

lemma transition_closed_kept:
  assumes "\<And>st. closed_state st \<Longrightarrow> allowed st \<noteq> None"
  shows "keeps closed_kept (transition i to reason rec allowed analyst)"
proof (rule keepsI)
  fix s :: store
  show "closed_kept s (snd (transition i to reason rec allowed analyst s))"
  proof (rule transition_cases [of i to reason rec allowed analyst s])
    fix e assume "transition i to reason rec allowed analyst s = (Inl e, s)"
    then show ?thesis by (simp add: ck.refl)
  next
    fix cur
    assume cur: "anomaly_row i s = Some cur" "allowed (ay_state cur) = None"
      and run: "transition i to reason rec allowed analyst s =
        report_move i (ay_state cur) to reason rec analyst (update_anomaly i (moved_row to reason analyst (st_now s)) s)"
    let ?u = "update_anomaly i (moved_row to reason analyst (st_now s)) s"
    have "\<not> closed_state (ay_state cur)"
      using assms [of "ay_state cur"] cur(2) by auto
    have "closed_kept s ?u"
      unfolding closed_kept_def
    proof (intro allI impI)
      fix j a assume a: "anomaly_row j s = Some a \<and> closed_state (ay_state a)"
      then have "ay_id a = j" by (auto dest: anomaly_row_id)
      moreover have "j \<noteq> i" using a cur(1) \<open>\<not> closed_state (ay_state cur)\<close> by auto
      ultimately have "anomaly_row j ?u = Some a" using a by (simp add: anomaly_row_update)
      then show "\<exists>b. anomaly_row j ?u = Some b \<and> decision b = decision a" by blast
    qed
    moreover have "closed_kept ?u (snd (transition i to reason rec allowed analyst s))"
      unfolding run by (rule closed_kept_same_rows) simp
    ultimately show ?thesis by (rule ck.trans)
  qed
qed

lemma moves_closed_kept:
  "keeps closed_kept (assign_anomaly i analyst rec)" "keeps closed_kept (explain_anomaly i reason rec)"
  "keeps closed_kept (accept_anomaly i reason rec)" "keeps closed_kept (dismiss_anomaly i reason rec)"
  unfolding assign_anomaly_def explain_anomaly_def accept_anomaly_def dismiss_anomaly_def
  by (rule transition_closed_kept, auto simp: unless_closed_def closed_state_def)+

text \<open>
  A closed anomaly stays closed: once accepted or dismissed, no sequence of assignments,
  explanations, acceptances, dismissals and detection passes changes its state, its reason, who
  handled it or when it was closed. Only its measurements may be refreshed.
\<close>

theorem closed_is_final:
  assumes "anomaly_step\<^sup>*\<^sup>* s t" and "anomaly_row i s = Some a" and "closed_state (ay_state a)"
  shows "\<exists>b. anomaly_row i t = Some b \<and> decision b = decision a"
proof -
  have "closed_kept s t" using assms(1)
  proof (induction rule: rtranclp_induct)
    case (step t u)
    have "closed_kept t u"
      by (rule anomaly_step_keeps [OF moves_closed_kept run_closed_kept closed_kept_same_rows step.hyps(2)]) simp
    with step.IH show ?case by (rule ck.trans)
  qed (rule ck.refl)
  with assms(2,3) show ?thesis by (simp add: closed_kept_def)
qed

section \<open>Every closed anomaly says why\<close>

definition reasoned :: "anomaly \<Rightarrow> bool" where
  "reasoned a \<longleftrightarrow>
     (ay_state a = Explained \<or> closed_state (ay_state a) \<longrightarrow> \<not> blank (ay_reason a)) \<and>
     (ay_closed_at a \<noteq> [] \<longrightarrow> closed_state (ay_state a))"

definition all_reasoned :: "store \<Rightarrow> bool" where
  "all_reasoned s \<longleftrightarrow> (\<forall>a \<in> set (st_anomalies s). reasoned a)"

interpretation rk: frame "\<lambda>s t. all_reasoned s \<longrightarrow> all_reasoned t"
  by unfold_locales auto

lemma emit_reasoned [intro!, simp]: "keeps (\<lambda>s t. all_reasoned s \<longrightarrow> all_reasoned t) (emit rec e)"
  unfolding emit_def by (intro rk.exec_keeps) (simp add: all_reasoned_def)

lemma update_reasoned:
  "all_reasoned s \<Longrightarrow> (\<And>a. reasoned a \<Longrightarrow> reasoned (f a)) \<Longrightarrow> all_reasoned (update_anomaly i f s)"
  by (auto simp: all_reasoned_def update_anomaly_def dest!: update_where_cases)

lemma upsert_reasoned: "reasoned a \<Longrightarrow> keeps (\<lambda>s t. all_reasoned s \<longrightarrow> all_reasoned t) (upsert a)"
proof (rule keepsI)
  fix s :: store
  assume a: "reasoned a"
  show "all_reasoned s \<longrightarrow> all_reasoned (snd (upsert a s))"
  proof (cases "anomaly_row (ay_id a) s")
    case None
    then show ?thesis using a by (simp add: upsert_new all_reasoned_def)
  next
    case (Some r)
    then show ?thesis by (simp add: upsert_known) (auto intro!: update_reasoned simp: reasoned_def)
  qed
qed

lemma record_reasoned [intro!, simp]: "keeps (\<lambda>s t. all_reasoned s \<longrightarrow> all_reasoned t) (record_finding rec k f)"
proof (rule keepsI)
  fix s :: store
  show "all_reasoned s \<longrightarrow> all_reasoned (snd (record_finding rec k f s))"
  proof (cases "attribute k (fi_day f) s")
    case (Inl e)
    then show ?thesis by (simp add: record_finding_def op_run found_anomaly_def)
  next
    case (Inr w)
    then obtain a where a: "found_anomaly k f s = Inr a" "reasoned a"
      by (cases w) (simp add: found_anomaly_def found_row_def reasoned_def closed_state_def)
    have "keeps (\<lambda>s t. all_reasoned s \<longrightarrow> all_reasoned t) (record_row rec a)"
      unfolding record_row_def
      by (intro rk.andthen_keeps rk.if_keeps rk.query_keeps emit_reasoned rk.ok_keeps upsert_reasoned a)
    then show ?thesis by (simp add: record_finding_def andthen_run [of "attempt _"] attempt_run a keeps_def)
  qed
qed

lemma run_reasoned [intro!, simp]: "keeps (\<lambda>s t. all_reasoned s \<longrightarrow> all_reasoned t) (run_detection cfg rec)"
  unfolding run_detection_def run_series_def
  by (intro rk.andthen_keeps rk.query_keeps rk.collect_keeps rk.attempt_keeps rk.ok_keeps record_reasoned)

lemma transition_reasoned:
  assumes "analyst = [] \<or> to = Triaged"
  shows "keeps (\<lambda>s t. all_reasoned s \<longrightarrow> all_reasoned t) (transition i to reason rec allowed analyst)"
proof (rule keepsI)
  fix s :: store
  show "all_reasoned s \<longrightarrow> all_reasoned (snd (transition i to reason rec allowed analyst s))"
  proof (rule transition_cases [of i to reason rec allowed analyst s])
    fix cur
    assume why: "to = Triaged \<or> \<not> blank reason"
      and run: "transition i to reason rec allowed analyst s =
        report_move i (ay_state cur) to reason rec analyst (update_anomaly i (moved_row to reason analyst (st_now s)) s)"
    have "reasoned (moved_row to reason analyst (st_now s) a)" for a
      using why assms by (auto simp: reasoned_def moved_row_def closed_state_def)
    then have "all_reasoned s \<longrightarrow> all_reasoned (update_anomaly i (moved_row to reason analyst (st_now s)) s)"
      by (auto intro: update_reasoned)
    then show ?thesis unfolding run by (simp add: all_reasoned_def)
  qed simp
qed

lemma moves_reasoned:
  "keeps (\<lambda>s t. all_reasoned s \<longrightarrow> all_reasoned t) (assign_anomaly i analyst rec)"
  "keeps (\<lambda>s t. all_reasoned s \<longrightarrow> all_reasoned t) (explain_anomaly i reason rec)"
  "keeps (\<lambda>s t. all_reasoned s \<longrightarrow> all_reasoned t) (accept_anomaly i reason rec)"
  "keeps (\<lambda>s t. all_reasoned s \<longrightarrow> all_reasoned t) (dismiss_anomaly i reason rec)"
  unfolding assign_anomaly_def explain_anomaly_def accept_anomaly_def dismiss_anomaly_def
  by (rule transition_reasoned, simp)+

text \<open>
  C21. No anomaly is ever explained, accepted or dismissed without a reason a person could read, and
  none that is still open carries a closing date: whatever the moves and the passes, from a store
  where it is so.
\<close>

theorem closing_needs_a_reason:
  assumes "anomaly_step\<^sup>*\<^sup>* s t" and "list_all reasoned (st_anomalies s)"
  shows "list_all reasoned (st_anomalies t)"
proof -
  have "all_reasoned s \<longrightarrow> all_reasoned t" using assms(1)
  proof (induction rule: rtranclp_induct)
    case (step t u)
    have "all_reasoned t \<longrightarrow> all_reasoned u"
      by (rule anomaly_step_keeps [OF moves_reasoned run_reasoned _ step.hyps(2)]) (simp add: all_reasoned_def)
    with step.IH show ?case by blast
  qed simp
  with assms(2) show ?thesis by (simp add: all_reasoned_def list_all_iff)
qed

section \<open>A second pass adds nothing\<close>

text \<open>What a pass leaves: the tables it reads, the clock, and every row that was there.\<close>

definition ids :: "store \<Rightarrow> string set" where
  "ids s = ay_id ` set (st_anomalies s)"

definition pass_kept :: "store \<Rightarrow> store \<Rightarrow> bool" where
  "pass_kept s t \<longleftrightarrow> st_charges t = st_charges s \<and> st_drivers t = st_drivers s \<and>
     st_attribution t = st_attribution s \<and> ids s \<subseteq> ids t"

interpretation pp: frame pass_kept
  by unfold_locales (auto simp: pass_kept_def)

lemma anomaly_row_None: "anomaly_row i s = None \<longleftrightarrow> i \<notin> ids s"
  by (auto simp: anomaly_row_def find_None_iff ids_def)

lemma emit_pass_kept [intro!, simp]: "keeps pass_kept (emit rec e)"
  unfolding emit_def by (intro pp.exec_keeps) (simp add: pass_kept_def ids_def)

lemma update_anomaly_tables [simp]:
  "st_charges (update_anomaly i f s) = st_charges s" "st_drivers (update_anomaly i f s) = st_drivers s"
  "st_attribution (update_anomaly i f s) = st_attribution s"
  by (simp_all add: update_anomaly_def)

lemma ids_update: "(\<And>a. ay_id (f a) = ay_id a) \<Longrightarrow> ids (update_anomaly i f s) = ids s"
proof -
  assume "\<And>a. ay_id (f a) = ay_id a"
  then have "map ay_id (update_where (\<lambda>a. ay_id a = i) f (st_anomalies s)) = map ay_id (st_anomalies s)"
    by (rule update_where_keeps)
  then show ?thesis by (simp add: ids_def update_anomaly_def flip: set_map)
qed

lemma upsert_pass:
  "pass_kept s (snd (upsert a s)) \<and> ay_id a \<in> ids (snd (upsert a s)) \<and> fst (upsert a s) = Inr (ay_id a \<notin> ids s)"
proof (cases "anomaly_row (ay_id a) s")
  case None
  then show ?thesis using None by (simp add: upsert_new pass_kept_def anomaly_row_None) (auto simp: ids_def)
next
  case (Some r)
  then have "ay_id a \<in> ids s" using anomaly_row_None [of "ay_id a" s] by simp
  then show ?thesis by (simp add: upsert_known [OF Some] pass_kept_def ids_update)
qed

text \<open>Whose spend a day was can be read.\<close>

definition attributed :: "series_key \<Rightarrow> store \<Rightarrow> finding \<Rightarrow> bool" where
  "attributed k s f \<longleftrightarrow> (\<exists>w. attribute k (fi_day f) s = Inr w)"

lemma attributed_kept: "pass_kept s t \<Longrightarrow> attributed k t f = attributed k s f"
  by (simp add: attributed_def attribute_def agent_for_def pass_kept_def)

text \<open>Recording a finding: it is known after, and it is new exactly when it was not before.\<close>

lemma record_row_pass:
  "pass_kept s (snd (record_row rec a s)) \<and> ay_id a \<in> ids (snd (record_row rec a s)) \<and>
   fst (record_row rec a s) = Inr (ay_id a \<notin> ids s)"
proof -
  obtain t where up: "upsert a s = (Inr (ay_id a \<notin> ids s), t)"
    using upsert_pass [of s a] by (cases "upsert a s") simp
  then have t: "pass_kept s t" "ay_id a \<in> ids t" using upsert_pass [of s a] by simp_all
  have j: "ids (journal rec e t) = ids t" "pass_kept t (journal rec e t)" for e
    by (simp_all add: ids_def pass_kept_def)
  have "\<exists>u. (u = t \<or> (\<exists>e. u = journal rec e t)) \<and> record_row rec a s = (Inr (ay_id a \<notin> ids s), u)"
    by (cases "ay_id a \<in> ids s") (auto simp: record_row_def op_run up emit_def)
  then show ?thesis using t j pp.trans by auto
qed

lemma record_pass:
  assumes "attributed k s f"
  shows "pass_kept s (snd (record_finding rec k f s)) \<and> finding_id k f \<in> ids (snd (record_finding rec k f s)) \<and>
   fst (record_finding rec k f s) = Inr (finding_id k f \<notin> ids s)"
proof -
  obtain who kind where "attribute k (fi_day f) s = Inr (who, kind)" using assms by (auto simp: attributed_def)
  then have a: "found_anomaly k f s = Inr (found_row k f who kind s)" by (simp add: found_anomaly_def)
  have "record_finding rec k f s = record_row rec (found_row k f who kind s) s"
    by (simp add: record_finding_def andthen_run [of "attempt _"] attempt_run a)
  moreover have "ay_id (found_row k f who kind s) = finding_id k f" by (simp add: found_row_def)
  ultimately show ?thesis using record_row_pass [of s rec "found_row k f who kind s"] by simp
qed

lemma record_unattributed: "\<not> attributed k s f \<Longrightarrow> \<exists>e. record_finding rec k f s = (Inl e, s)"
  by (cases "attribute k (fi_day f) s") (auto simp: attributed_def record_finding_def op_run found_anomaly_def)

lemma record_keeps_pass: "keeps pass_kept (record_finding rec k f)"
  using record_pass record_unattributed pp.refl by (intro keepsI) (metis snd_conv)

lemma record_all_pass:
  assumes "\<forall>f \<in> set fs. attributed k s f"
  shows "pass_kept s (snd (collect (record_finding rec k) fs s)) \<and>
   finding_id k ` set fs \<subseteq> ids (snd (collect (record_finding rec k) fs s)) \<and>
   (\<exists>bs. fst (collect (record_finding rec k) fs s) = Inr bs \<and> length bs = length fs \<and>
      (finding_id k ` set fs \<subseteq> ids s \<longrightarrow> filter (\<lambda>b. b) bs = []))"
  using assms
proof (induction fs arbitrary: s)
  case Nil
  then show ?case by (simp add: op_run pp.refl)
next
  case (Cons f fs)
  then have f: "attributed k s f" by simp
  obtain t where r: "record_finding rec k f s = (Inr (finding_id k f \<notin> ids s), t)"
    using record_pass [OF f, of rec] by (cases "record_finding rec k f s") auto
  then have t: "pass_kept s t" "finding_id k f \<in> ids t" using record_pass [OF f, of rec] by simp_all
  then have "\<forall>f \<in> set fs. attributed k t f" using Cons.prems by (simp add: attributed_kept)
  note IH = Cons.IH [OF this]
  obtain bs u where c: "collect (record_finding rec k) fs t = (Inr bs, u)"
    using IH by (cases "collect (record_finding rec k) fs t") auto
  have u: "pass_kept t u" "finding_id k ` set fs \<subseteq> ids u" "length bs = length fs"
    "finding_id k ` set fs \<subseteq> ids t \<Longrightarrow> filter (\<lambda>b. b) bs = []"
    using IH c by auto
  have "ids s \<subseteq> ids t" "ids t \<subseteq> ids u" using t u by (auto simp: pass_kept_def)
  then show ?case using t u pp.trans [OF t(1) u(1)] by (auto simp: op_run r c)
qed

text \<open>The findings of a series depend on the charges and the drivers' rows alone.\<close>

lemma series_findings_reads:
  assumes "st_charges t = st_charges s"
  shows "series_findings cfg ds k t = series_findings cfg ds k s"
proof -
  have lat: "latest_day a b t = latest_day a b s" for a b by (simp add: latest_day_def assms)
  have win: "decision_window a b c t = decision_window a b c s" for a b c
    by (simp add: decision_window_def decision_anchor_def lat)
  have sum: "day_sum P t = day_sum P s" "day_overflows P t = day_overflows P s" for P
    by (simp_all add: day_sum_def [abs_def] day_overflows_def [abs_def] assms)
  then have "day_sums P t = day_sums P s" for P
    by (simp add: day_sums_def [abs_def] charge_days_def assms)
  then have "team_spend_medians a b c t = team_spend_medians a b c s" for a b c
    by (simp only: team_spend_medians_def win assms)
  then have "shares_of d c t = shares_of d c s" for d c by (simp only: shares_of_def)
  then have "driver_on k t d = driver_on k s d" for d by (simp only: driver_on_def)
  then have "driver_on k t = driver_on k s" by (rule ext)
  moreover have "team_spend_overflows a b c t = team_spend_overflows a b c s" for a b c
    by (simp only: team_spend_overflows_def win assms sum)
  then have "split_overflows k t = split_overflows k s" by (simp add: split_overflows_def [abs_def])
  ultimately have "series_drivers k ds t = series_drivers k ds s" by (simp only: series_drivers_def)
  moreover have "series_days k t = series_days k s" by (simp only: series_days_def assms sum)
  ultimately show ?thesis by (simp only: series_findings_def)
qed

text \<open>A series whose days, drivers and attributions can all be read.\<close>

definition series_ok :: "config \<Rightarrow> driver list \<Rightarrow> series_key \<Rightarrow> store \<Rightarrow> finding list \<Rightarrow> bool" where
  "series_ok cfg ds k s fs \<longleftrightarrow> series_findings cfg ds k s = Inr fs \<and> (\<forall>f \<in> set fs. attributed k s f)"

lemma findings_kept: "pass_kept s t \<Longrightarrow> series_findings cfg ds k t = series_findings cfg ds k s"
  by (rule series_findings_reads) (simp add: pass_kept_def)

lemma series_ok_kept: "pass_kept s t \<Longrightarrow> series_ok cfg ds k t fs = series_ok cfg ds k s fs"
  by (simp add: series_ok_def findings_kept attributed_kept)

lemma series_pass:
  assumes "series_ok cfg ds k s fs"
  shows "pass_kept s (snd (run_series cfg rec ds k s)) \<and>
    finding_id k ` set fs \<subseteq> ids (snd (run_series cfg rec ds k s)) \<and>
    (\<exists>bs. fst (run_series cfg rec ds k s) = Inr bs \<and> length bs = length fs \<and>
      (finding_id k ` set fs \<subseteq> ids s \<longrightarrow> filter (\<lambda>b. b) bs = []))"
  using record_all_pass [of fs k s rec] assms by (simp add: run_series_def op_run series_ok_def)

lemma collect_fails:
  "\<exists>k \<in> set ks. \<forall>s'. pass_kept s s' \<longrightarrow> (\<exists>e. fst (f k s') = Inl e) \<Longrightarrow>
   (\<And>k. keeps pass_kept (f k)) \<Longrightarrow> \<exists>e. fst (collect f ks s) = Inl e"
proof (induction ks arbitrary: s)
  case (Cons k ks)
  obtain r t where r: "f k s = (r, t)" by fastforce
  then have st: "pass_kept s t" using Cons.prems(2) by (metis keepsD)
  show ?case
  proof (cases r)
    case (Inr y)
    obtain j where j: "j \<in> set (k # ks)" "\<forall>s'. pass_kept s s' \<longrightarrow> (\<exists>e. fst (f j s') = Inl e)"
      using Cons.prems(1) by blast
    have "j \<noteq> k"
    proof
      assume "j = k"
      with j(2) pp.refl obtain e where "fst (f k s) = Inl e" by blast
      with r Inr show False by simp
    qed
    then have "j \<in> set ks" using j(1) by simp
    moreover have "\<forall>s'. pass_kept t s' \<longrightarrow> (\<exists>e. fst (f j s') = Inl e)"
      using j(2) pp.trans [OF st] by blast
    ultimately have "\<exists>j \<in> set ks. \<forall>s'. pass_kept t s' \<longrightarrow> (\<exists>e. fst (f j s') = Inl e)" by blast
    from Cons.IH [OF this Cons.prems(2)] obtain e where "fst (collect f ks t) = Inl e" by blast
    then show ?thesis by (cases "collect f ks t") (simp add: op_run r Inr)
  qed (simp add: op_run r)
qed simp

lemma run_series_keeps_pass: "keeps pass_kept (run_series cfg rec ds k)"
  unfolding run_series_def by (intro pp.andthen_keeps pp.attempt_keeps pp.collect_keeps record_keeps_pass)

lemma run_series_fails:
  assumes "\<not> (\<exists>fs. series_ok cfg ds k s fs)"
  shows "\<exists>e. fst (run_series cfg rec ds k s) = Inl e"
proof (cases "series_findings cfg ds k s")
  case (Inl e)
  then show ?thesis by (simp add: run_series_def op_run)
next
  case (Inr fs)
  then obtain f where f: "f \<in> set fs" "\<not> attributed k s f" using assms by (auto simp: series_ok_def)
  have "\<exists>f \<in> set fs. \<forall>s'. pass_kept s s' \<longrightarrow> (\<exists>e. fst (record_finding rec k f s') = Inl e)"
    using f record_unattributed attributed_kept by (metis fst_conv)
  from collect_fails [OF this record_keeps_pass] show ?thesis using Inr by (simp add: run_series_def op_run)
qed

text \<open>The whole loop, on any list of series whose findings are all there to be read.\<close>

definition known_on :: "config \<Rightarrow> driver list \<Rightarrow> series_key list \<Rightarrow> store \<Rightarrow> bool" where
  "known_on cfg ds ks s \<longleftrightarrow>
     (\<forall>k \<in> set ks. \<forall>fs. series_findings cfg ds k s = Inr fs \<longrightarrow> finding_id k ` set fs \<subseteq> ids s)"

definition found_on :: "config \<Rightarrow> driver list \<Rightarrow> series_key list \<Rightarrow> store \<Rightarrow> nat" where
  "found_on cfg ds ks s =
     sum_list (map (\<lambda>k. case series_findings cfg ds k s of Inl _ \<Rightarrow> 0 | Inr fs \<Rightarrow> length fs) ks)"

lemma known_on_kept: "pass_kept s t \<Longrightarrow> known_on cfg ds ks s \<Longrightarrow> known_on cfg ds ks t"
  unfolding known_on_def by (metis findings_kept pass_kept_def subset_trans)

lemma all_series_pass:
  assumes "\<forall>k \<in> set ks. \<exists>fs. series_ok cfg ds k s fs"
  shows "pass_kept s (snd (collect (run_series cfg rec ds) ks s)) \<and>
    known_on cfg ds ks (snd (collect (run_series cfg rec ds) ks s)) \<and>
    (\<exists>bss. fst (collect (run_series cfg rec ds) ks s) = Inr bss \<and> length (concat bss) = found_on cfg ds ks s \<and>
       (known_on cfg ds ks s \<longrightarrow> filter (\<lambda>b. b) (concat bss) = []))"
  using assms
proof (induction ks arbitrary: s)
  case Nil
  then show ?case by (simp add: op_run pp.refl known_on_def found_on_def)
next
  case (Cons k ks)
  then obtain fs where ok: "series_ok cfg ds k s fs" by auto
  then have fs: "series_findings cfg ds k s = Inr fs" by (simp add: series_ok_def)
  obtain bs t where r: "run_series cfg rec ds k s = (Inr bs, t)"
    using series_pass [OF ok, of rec] by (cases "run_series cfg rec ds k s") auto
  have t: "pass_kept s t" "finding_id k ` set fs \<subseteq> ids t" "length bs = length fs"
    "finding_id k ` set fs \<subseteq> ids s \<Longrightarrow> filter (\<lambda>b. b) bs = []"
    using series_pass [OF ok, of rec] r by auto
  have "\<forall>k \<in> set ks. \<exists>fs. series_ok cfg ds k t fs"
    using Cons.prems series_ok_kept [OF t(1)] by simp
  note IH = Cons.IH [OF this]
  obtain bss u where c: "collect (run_series cfg rec ds) ks t = (Inr bss, u)"
    using IH by (cases "collect (run_series cfg rec ds) ks t") auto
  have u: "pass_kept t u" "known_on cfg ds ks u" "length (concat bss) = found_on cfg ds ks t"
    "known_on cfg ds ks t \<Longrightarrow> filter (\<lambda>b. b) (concat bss) = []"
    using IH c by auto
  have run: "collect (run_series cfg rec ds) (k # ks) s = (Inr (bs # bss), u)" by (simp add: op_run r c)
  have su: "pass_kept s u" using t(1) u(1) by (rule pp.trans)
  have "known_on cfg ds (k # ks) u"
    using u(2) t(2) u(1) findings_kept [OF su, of cfg ds k] fs by (auto simp: known_on_def pass_kept_def)
  moreover have "found_on cfg ds (k # ks) s = length (concat (bs # bss))"
    using fs t(3) u(3) findings_kept [OF t(1)] by (simp add: found_on_def)
  moreover have "filter (\<lambda>b. b) (concat (bs # bss)) = []" if "known_on cfg ds (k # ks) s"
  proof -
    have "finding_id k ` set fs \<subseteq> ids s" "known_on cfg ds ks s" using that fs by (simp_all add: known_on_def)
    then show ?thesis using t(4) u(4) known_on_kept [OF t(1)] by simp
  qed
  ultimately show ?case using run su by auto
qed

lemma run_detection_unfold:
  "run_detection cfg rec s =
   (case collect (run_series cfg rec (drivers s)) (all_series s) s of
      (Inl e, t) \<Rightarrow> (Inl e, t)
    | (Inr news, t) \<Rightarrow> (Inr (length (concat news), length (filter (\<lambda>b. b) (concat news))), t))"
  by (auto simp: run_detection_def op_run split: prod.split sum.split)

lemma run_returned:
  assumes "run_detection cfg rec s = (Inr r, t)"
  shows "\<forall>k \<in> set (all_series s). \<exists>fs. series_ok cfg (drivers s) k s fs"
proof (rule ccontr)
  assume "\<not> ?thesis"
  then obtain k where k: "k \<in> set (all_series s)" "\<not> (\<exists>fs. series_ok cfg (drivers s) k s fs)" by blast
  have "\<exists>e. fst (run_series cfg rec (drivers s) k s') = Inl e" if "pass_kept s s'" for s'
    using k(2) series_ok_kept [OF that] by (intro run_series_fails) simp
  then have "\<exists>k \<in> set (all_series s). \<forall>s'. pass_kept s s' \<longrightarrow> (\<exists>e. fst (run_series cfg rec (drivers s) k s') = Inl e)"
    using k(1) by blast
  from collect_fails [OF this run_series_keeps_pass]
  obtain e where "fst (collect (run_series cfg rec (drivers s)) (all_series s) s) = Inl e" by blast
  then show False using assms by (cases "collect (run_series cfg rec (drivers s)) (all_series s) s") (simp add: run_detection_unfold)
qed

text \<open>
  C22. Detection reconciles and does not repeat itself. Where a pass has returned, any later pass
  over the same charges, drivers and attributions returns too, under any recorder and whatever was
  decided in between, finds exactly as many irregularities, and adds none of them: each is the row
  it already has. (A pass can fail: on a day that does not parse, a sum that overflows, or an
  attribution with a NULL in it.)
\<close>

theorem second_pass_adds_nothing:
  assumes "run_detection cfg rec s = (Inr (n, m), t)"
    and "st_charges u = st_charges t" and "st_drivers u = st_drivers t" and "st_attribution u = st_attribution t"
    and "ids t \<subseteq> ids u"
  shows "fst (run_detection cfg rec' u) = Inr (n, 0)"
proof -
  let ?ds = "drivers s" and ?ks = "all_series s"
  note all = run_returned [OF assms(1)]
  note one = all_series_pass [OF all, of rec]
  obtain bss where c: "collect (run_series cfg rec ?ds) ?ks s = (Inr bss, t)" and f: "n = length (concat bss)"
    using assms(1) by (auto simp: run_detection_unfold split: prod.splits sum.splits)
  have st: "pass_kept s t" "known_on cfg ?ds ?ks t" "n = found_on cfg ?ds ?ks s" using one c f by auto
  have tu: "pass_kept t u" using assms(2-5) by (simp add: pass_kept_def)
  have su: "pass_kept s u" by (rule pp.trans [OF st(1) tu])
  have same: "drivers u = ?ds" "all_series u = ?ks"
    using su by (simp_all add: drivers_def all_series_def pass_kept_def)
  have "\<forall>k \<in> set ?ks. \<exists>fs. series_ok cfg ?ds k u fs" using all series_ok_kept [OF su] by simp
  note two = all_series_pass [OF this, of rec']
  obtain bss' where b: "fst (collect (run_series cfg rec' ?ds) ?ks u) = Inr bss'"
    "length (concat bss') = found_on cfg ?ds ?ks u" "filter (\<lambda>b. b) (concat bss') = []"
    using two known_on_kept [OF tu st(2)] by blast
  have "found_on cfg ?ds ?ks u = n" using st(3) findings_kept [OF su] by (simp add: found_on_def)
  with b show ?thesis
    by (cases "collect (run_series cfg rec' ?ds) ?ks u") (simp add: run_detection_unfold same)
qed

text \<open>
  Spend that names no team is never judged: its series is listed, and the query for its days, which
  compares the team column with the empty string, selects none of its rows.
\<close>

lemma untagged_series_is_silent:
  "sk_team k = [] \<Longrightarrow> series_findings cfg ds k s \<in> {Inr [], Inl SumOverflows}"
  by (simp add: series_findings_def series_days_def on_series_def sort_names_def find_irregular_def series_drivers_def)

section \<open>Concrete runs\<close>

definition demo_anomaly :: "anomaly_state \<Rightarrow> anomaly" where
  "demo_anomaly st =
     \<lparr>ay_id = ''A-1'', ay_source = ''aws'', ay_team = ''growth'', ay_service = ''compute'', ay_day = ''2026-09-01'',
      ay_direction = ''up'', ay_amount = 90000, ay_baseline = 10000, ay_excess = 80000, ay_z = 9, ay_rule = ''rule'',
      ay_rule_version = ''v1'', ay_driver = [], ay_caused_by = ''growth'', ay_caused_by_kind = ''team'',
      ay_handled_by = [], ay_state = st, ay_reason = (if st = Open then [] else ''a backfill''),
      ay_detected_at = ''2026-09-02T06:00:00Z'', ay_closed_at = (if closed_state st then ''2026-09-03T06:00:00Z'' else [])\<rparr>"

definition demo_watch :: "anomaly_state \<Rightarrow> store" where
  "demo_watch st = empty_store\<lparr>st_anomalies := [demo_anomaly st],
     st_charges := [\<lparr>ch_source = ''aws'', ch_day = ''2026-09-01'', ch_service = ''compute'', ch_team = ''growth'',
       ch_category = ''Usage'', ch_billed = 90000, ch_provenance = []\<rparr>]\<rparr>"

lemma demo_closed: "anomaly_row ''A-1'' (demo_watch Dismissed) = Some (demo_anomaly Dismissed)"
  by (simp add: anomaly_row_def demo_watch_def demo_anomaly_def)

lemma closed_is_final_witness:
  "\<exists>b. anomaly_row ''A-1'' (snd (explain_anomaly ''A-1'' ''second thoughts'' None (demo_watch Dismissed))) = Some b \<and>
       decision b = decision (demo_anomaly Dismissed)"
  by (rule closed_is_final [OF r_into_rtranclp [of anomaly_step, OF explain_step] demo_closed])
    (simp add: demo_anomaly_def closed_state_def)

lemma closing_needs_a_reason_witness:
  "list_all reasoned (st_anomalies (snd (dismiss_anomaly ''A-1'' ''noise'' None (demo_watch Open))))"
  by (rule closing_needs_a_reason [OF r_into_rtranclp [of anomaly_step, OF dismiss_step]])
    (simp add: demo_watch_def demo_anomaly_def reasoned_def closed_state_def)

text \<open>A desk with two rises, and no anomaly recorded yet.\<close>

definition demo_spend :: store where
  "demo_spend = empty_store\<lparr>st_charges := map (\<lambda>p. \<lparr>ch_source = ''aws'', ch_day = pt_day p,
     ch_service = ''compute'', ch_team = ''growth'', ch_category = ''Usage'', ch_billed = pt_amount p,
     ch_provenance = []\<rparr>) demo_points\<rparr>"

abbreviation demo_key :: series_key where
  "demo_key \<equiv> \<lparr>sk_source = ''aws'', sk_team = ''growth'', sk_service = ''compute''\<rparr>"

lemma demo_series: "all_series demo_spend = [demo_key]"
  by (simp add: all_series_def demo_spend_def demo_points_def)

lemma demo_dates: "map (parse_date \<circ> pt_day) demo_points = map Some [740042, 740043, 740044, 740045, 740046]"
  by code_simp

lemma demo_days: "series_days demo_key demo_spend = Inr demo_points"
proof -
  have 1: "sort_names (map ch_day (filter (on_series demo_key) (st_charges demo_spend))) = map pt_day demo_points"
    by code_simp
  have 2: "\<not> list_ex (day_overflows (on_series demo_key) demo_spend) (map pt_day demo_points)" by code_simp
  have 3: "map (\<lambda>p. day_sum (on_series demo_key) demo_spend (pt_day p)) demo_points = map pt_amount demo_points"
    by code_simp
  have f: "format_date n = s" if "parse_date s = Some n" "n \<in> {740042..740046}" for s n
  proof -
    have "parse_date (format_date n) = Some n" using that(2) by (intro date_roundtrip) (simp_all add: year_start_def)
    with parse_date_order [OF this that(1)] show ?thesis by simp
  qed
  note d = demo_dates [unfolded demo_points_def, simplified]
  have 4: "map format_date [740042, 740043, 740044, 740045, 740046] = map pt_day demo_points"
    using d by (simp add: demo_points_def f)
  have "densify (hd (map pt_day demo_points)) (last (map pt_day demo_points)) (day_sum (on_series demo_key) demo_spend) =
      Inr (map (\<lambda>d. \<lparr>pt_day = d, pt_amount = day_sum (on_series demo_key) demo_spend d\<rparr>)
        (map format_date [740042, 740043, 740044, 740045, 740046]))"
    using d by (simp add: densify_def demo_points_def upto.simps)
  also have "\<dots> = Inr demo_points"
    unfolding 4 using 3 by (simp add: map_idI)
  finally have "densify (hd (map pt_day demo_points)) (last (map pt_day demo_points))
      (day_sum (on_series demo_key) demo_spend) = Inr demo_points" .
  then show ?thesis unfolding series_days_def Let_def 1 using 2 by (simp add: demo_points_def)
qed

lemma demo_series_ok: "series_ok demo_config (drivers demo_spend) demo_key demo_spend
    (find_irregular demo_points ''compute'' [] demo_config)"
proof -
  note demo_days
  moreover have "drivers demo_spend = []" by (simp add: drivers_def demo_spend_def empty_store_def)
  moreover have "attributed demo_key demo_spend f" for f
    by (simp add: attributed_def attribute_def agent_for_def demo_spend_def empty_store_def)
  ultimately show ?thesis by (simp add: series_ok_def series_findings_def series_drivers_def List.map_filter_simps)
qed

lemma demo_detection: "\<exists>m. run_detection demo_config None demo_spend =
    (Inr (2, m), snd (run_detection demo_config None demo_spend))"
proof -
  have ok: "\<forall>k \<in> set (all_series demo_spend). \<exists>fs. series_ok demo_config (drivers demo_spend) k demo_spend fs"
    using demo_series_ok by (auto simp: demo_series)
  have "found_on demo_config (drivers demo_spend) (all_series demo_spend) demo_spend = 2"
    using demo_series_ok demo_reported by (simp add: found_on_def demo_series series_ok_def)
  with all_series_pass [OF ok, of None] show ?thesis
    by (cases "collect (run_series demo_config None (drivers demo_spend)) (all_series demo_spend) demo_spend")
      (auto simp: run_detection_unfold)
qed

lemma second_pass_adds_nothing_witness:
  "fst (run_detection demo_config None (snd (run_detection demo_config None demo_spend))) = Inr (2, 0)"
  using demo_detection second_pass_adds_nothing [OF _ refl refl refl subset_refl, of demo_config None demo_spend 2] by blast

end
