(* ===== verification/Json.thy ===== *)
theory Json
  imports Detect
begin

text \<open>
  \<open>encoding/json\<close> as the option code uses it: the decoder of a JSON text, with the text of every
  object member kept (a \<open>json.RawMessage\<close> is that text) and number literals kept as written
  (a \<open>json.Number\<close> is its literal), and the rules by which a value goes into a Go field.
\<close>

section \<open>Values\<close>

datatype jtext = TNull | TBool bool | TNum string | TStr string
  | TArr "jtext list" | TObj "(string \<times> string \<times> jtext) list"

definition json_space :: "char \<Rightarrow> bool" where
  "json_space c \<longleftrightarrow> byte c \<in> {32, 9, 10, 13}"

definition skip_space :: "string \<Rightarrow> string" where
  "skip_space s = dropWhile json_space s"

section \<open>Strings\<close>

definition encode_rune :: "int \<Rightarrow> string" where
  "encode_rune r =
     (let c = (\<lambda>n. char_of (nat n)) in
      if r < 0x80 then [c r]
      else if r < 0x800 then [c (0xC0 + r div 64), c (0x80 + r mod 64)]
      else if r < 0x10000 then [c (0xE0 + r div 4096), c (0x80 + r div 64 mod 64), c (0x80 + r mod 64)]
      else [c (0xF0 + r div 262144), c (0x80 + r div 4096 mod 64), c (0x80 + r div 64 mod 64), c (0x80 + r mod 64)])"

definition hex_value :: "char \<Rightarrow> int option" where
  "hex_value c =
     (let b = int (byte c) in
      if 48 \<le> b \<and> b \<le> 57 then Some (b - 48)
      else if 97 \<le> b \<and> b \<le> 102 then Some (b - 87)
      else if 65 \<le> b \<and> b \<le> 70 then Some (b - 55)
      else None)"

definition hex4 :: "string \<Rightarrow> int option" where
  "hex4 s =
     (case s of a # b # c # d # _ \<Rightarrow>
        (case (hex_value a, hex_value b, hex_value c, hex_value d) of
           (Some w, Some x, Some y, Some z) \<Rightarrow> Some (((w * 16 + x) * 16 + y) * 16 + z)
         | _ \<Rightarrow> None)
      | _ \<Rightarrow> None)"

definition escape_char :: "char \<Rightarrow> char option" where
  "escape_char c =
     map_of [(CHR 0x22, CHR 0x22), (CHR 0x5C, CHR 0x5C), (CHR ''/'', CHR ''/''), (CHR ''b'', CHR 0x08),
             (CHR ''f'', CHR 0x0C), (CHR ''n'', CHR 0x0A), (CHR ''r'', CHR 0x0D), (CHR ''t'', CHR 0x09)] c"

text \<open>
  The inside of a string up to its closing quote: the bytes, escapes read, and what follows the
  quote. A surrogate that is half of no pair reads as U+FFFD.
\<close>

datatype piece = Raw char | Rune int

fun string_pieces :: "string \<Rightarrow> (piece list \<times> string) option" where
  "string_pieces [] = None"
| "string_pieces (c # s) =
     (if c = CHR 0x22 then Some ([], s)
      else if c = CHR 0x5C then
        (case s of [] \<Rightarrow> None
         | e # t \<Rightarrow>
             if e = CHR ''u'' then
               (case (hex4 t, t) of
                  (Some r, _ # _ # _ # _ # u) \<Rightarrow> map_option (\<lambda>(ps, w). (Rune r # ps, w)) (string_pieces u)
                | _ \<Rightarrow> None)
             else (case escape_char e of None \<Rightarrow> None
                   | Some x \<Rightarrow> map_option (\<lambda>(ps, w). (Raw x # ps, w)) (string_pieces t)))
      else if byte c < 32 then None
      else map_option (\<lambda>(ps, w). (Raw c # ps, w)) (string_pieces s))"

fun join_runes :: "piece list \<Rightarrow> string" where
  "join_runes [] = []"
| "join_runes (Raw c # ps) = c # join_runes ps"
| "join_runes (Rune r # ps) =
     (if 0xD800 \<le> r \<and> r < 0xE000 then
        (case ps of Rune q # qs \<Rightarrow>
           if r < 0xDC00 \<and> 0xDC00 \<le> q \<and> q < 0xE000
           then encode_rune ((r - 0xD800) * 1024 + (q - 0xDC00) + 0x10000) @ join_runes qs
           else encode_rune 0xFFFD @ join_runes ps
         | _ \<Rightarrow> encode_rune 0xFFFD @ join_runes ps)
      else encode_rune r @ join_runes ps)"

text \<open>Bytes that are not UTF-8 come out as U+FFFD.\<close>

definition clean_text :: "string \<Rightarrow> string" where
  "clean_text s = concat (map (encode_rune \<circ> rune_value) (runes s))"

definition read_string :: "string \<Rightarrow> (string \<times> string) option" where
  "read_string s = map_option (\<lambda>(ps, rest). (clean_text (join_runes ps), rest)) (string_pieces s)"

section \<open>Numbers\<close>

definition span :: "('a \<Rightarrow> bool) \<Rightarrow> 'a list \<Rightarrow> 'a list \<times> 'a list" where
  "span P s = (takeWhile P s, dropWhile P s)"

definition read_int_part :: "string \<Rightarrow> (string \<times> string) option" where
  "read_int_part s =
     (case s of [] \<Rightarrow> None
      | c # t \<Rightarrow> if c = CHR ''0'' then Some ([c], t)
                else if is_digit c then Some (span is_digit s) else None)"

definition read_frac_part :: "string \<Rightarrow> (string \<times> string) option" where
  "read_frac_part s =
     (case s of c # t \<Rightarrow>
        if c = CHR ''.'' then
          (let (ds, r) = span is_digit t in if ds = [] then None else Some (c # ds, r))
        else Some ([], s)
      | [] \<Rightarrow> Some ([], s))"

definition read_exp_part :: "string \<Rightarrow> (string \<times> string) option" where
  "read_exp_part s =
     (case s of c # t \<Rightarrow>
        if c = CHR ''e'' \<or> c = CHR ''E'' then
          (let (sg, t') = (case t of d # u \<Rightarrow> if d = CHR ''+'' \<or> d = CHR ''-'' then ([d], u) else ([], t) | [] \<Rightarrow> ([], t));
               (ds, r) = span is_digit t'
           in if ds = [] then None else Some (c # sg @ ds, r))
        else Some ([], s)
      | [] \<Rightarrow> Some ([], s))"

definition read_number :: "string \<Rightarrow> (string \<times> string) option" where
  "read_number s =
     (let (sg, s1) = (case s of c # t \<Rightarrow> if c = CHR ''-'' then ([c], t) else ([], s) | [] \<Rightarrow> ([], s)) in
      case read_int_part s1 of None \<Rightarrow> None
      | Some (i, s2) \<Rightarrow>
          (case read_frac_part s2 of None \<Rightarrow> None
           | Some (f, s3) \<Rightarrow>
               (case read_exp_part s3 of None \<Rightarrow> None
                | Some (e, s4) \<Rightarrow> Some (sg @ i @ f @ e, s4))))"

definition valid_number :: "string \<Rightarrow> bool" where
  "valid_number s \<longleftrightarrow> (case read_number s of Some (_, []) \<Rightarrow> True | _ \<Rightarrow> False)"

section \<open>The decoder\<close>

text \<open>
  Recursive descent, one unit of fuel a call; \<open>depth\<close> counts down the nesting the standard library
  allows. A value leaves the text after it. \<open>member_text\<close> is the text a value took.
\<close>

definition member_text :: "string \<Rightarrow> string \<Rightarrow> string" where
  "member_text s rest = take (length s - length rest) s"

definition keyword :: "string \<Rightarrow> jtext \<Rightarrow> string \<Rightarrow> (jtext \<times> string) option" where
  "keyword w v s = (if take (length w) s = w then Some (v, drop (length w) s) else None)"

fun read_value :: "nat \<Rightarrow> nat \<Rightarrow> string \<Rightarrow> (jtext \<times> string) option"
  and read_items :: "nat \<Rightarrow> nat \<Rightarrow> string \<Rightarrow> (jtext list \<times> string) option"
  and read_members :: "nat \<Rightarrow> nat \<Rightarrow> string \<Rightarrow> ((string \<times> string \<times> jtext) list \<times> string) option" where
  "read_value 0 depth s = None"
| "read_value (Suc n) depth s =
     (case s of [] \<Rightarrow> None
      | c # t \<Rightarrow>
          if c = CHR ''{'' then
            (if depth = 0 then None
             else case skip_space t of
                    [] \<Rightarrow> None
                  | d # u \<Rightarrow>
                      if d = CHR ''}'' then Some (TObj [], u)
                      else map_option (\<lambda>(ms, r). (TObj ms, r)) (read_members n (depth - 1) (d # u)))
          else if c = CHR ''['' then
            (if depth = 0 then None
             else case skip_space t of
                    [] \<Rightarrow> None
                  | d # u \<Rightarrow>
                      if d = CHR '']'' then Some (TArr [], u)
                      else map_option (\<lambda>(vs, r). (TArr vs, r)) (read_items n (depth - 1) (d # u)))
          else if c = CHR 0x22 then map_option (\<lambda>(v, r). (TStr v, r)) (read_string t)
          else if c = CHR ''t'' then keyword ''true'' (TBool True) s
          else if c = CHR ''f'' then keyword ''false'' (TBool False) s
          else if c = CHR ''n'' then keyword ''null'' TNull s
          else map_option (\<lambda>(v, r). (TNum v, r)) (read_number s))"
| "read_items 0 depth s = None"
| "read_items (Suc n) depth s =
     (case read_value n depth s of None \<Rightarrow> None
      | Some (v, r) \<Rightarrow>
          (case skip_space r of [] \<Rightarrow> None
           | d # u \<Rightarrow>
               if d = CHR '']'' then Some ([v], u)
               else if d = CHR '','' then
                 map_option (\<lambda>(vs, w). (v # vs, w)) (read_items n depth (skip_space u))
               else None))"
| "read_members 0 depth s = None"
| "read_members (Suc n) depth s =
     (case s of [] \<Rightarrow> None
      | q # t \<Rightarrow>
          if q \<noteq> CHR 0x22 then None
          else
            (case read_string t of None \<Rightarrow> None
             | Some (k, r) \<Rightarrow>
                 (case skip_space r of [] \<Rightarrow> None
                  | colon # r' \<Rightarrow>
                      if colon \<noteq> CHR '':'' then None
                      else
                        (let s1 = skip_space r' in
                         case read_value n depth s1 of None \<Rightarrow> None
                         | Some (v, s2) \<Rightarrow>
                             (case skip_space s2 of [] \<Rightarrow> None
                              | d # u \<Rightarrow>
                                  if d = CHR ''}'' then Some ([(k, member_text s1 s2, v)], u)
                                  else if d = CHR '','' then
                                    map_option (\<lambda>(ms, w). ((k, member_text s1 s2, v) # ms, w))
                                      (read_members n depth (skip_space u))
                                  else None)))))"

definition max_depth :: nat where "max_depth = 10000"

definition json_fuel :: "string \<Rightarrow> nat" where
  "json_fuel s = 2 * length s + 2"

text \<open>A value and the text after it (a \<open>Decoder\<close>'s), and a text that is one value (\<open>Unmarshal\<close>'s).\<close>

definition decode_json :: "string \<Rightarrow> (jtext \<times> string) option" where
  "decode_json s = read_value (json_fuel s) max_depth (skip_space s)"

definition parse_json :: "string \<Rightarrow> jtext option" where
  "parse_json s =
     (case decode_json s of Some (v, r) \<Rightarrow> if skip_space r = [] then Some v else None | None \<Rightarrow> None)"

section \<open>The fuel is enough\<close>

lemma skip_space_shorter: "length (skip_space s) \<le> length s"
  by (simp add: skip_space_def length_dropWhile_le)

lemma string_pieces_shorter: "string_pieces s = Some (ps, r) \<Longrightarrow> length r < length s"
proof (induction s arbitrary: ps r rule: string_pieces.induct)
  case (2 c s)
  show ?case
  proof (cases "c = CHR 0x22")
    case True
    then show ?thesis using "2.prems" by simp
  next
    case nq: False
    show ?thesis
    proof (cases "c = CHR 0x5C")
      case True
      then show ?thesis using "2.prems" "2.IH"(1,2)
        by (auto split: list.splits option.splits if_splits) (force dest: less_SucI)+
    next
      case False
      then show ?thesis using "2.prems" "2.IH"(3) nq by (auto split: if_splits)
    qed
  qed
qed simp

lemma read_string_shorter: "read_string s = Some (v, r) \<Longrightarrow> length r < length s"
  by (auto simp: read_string_def dest: string_pieces_shorter)

lemma span_shorter: "length (snd (span P s)) \<le> length s"
  by (simp add: span_def length_dropWhile_le)

lemma read_int_part_shorter: "read_int_part s = Some (v, r) \<Longrightarrow> length r < length s"
  by (auto simp: read_int_part_def span_def length_dropWhile_le less_Suc_eq_le split: list.splits if_splits)

lemma read_frac_part_shorter: "read_frac_part s = Some (v, r) \<Longrightarrow> length r \<le> length s"
  by (auto simp: read_frac_part_def span_def length_dropWhile_le le_SucI Let_def split: list.splits if_splits)

lemma read_exp_part_shorter: "read_exp_part s = Some (v, r) \<Longrightarrow> length r \<le> length s"
  by (auto simp: read_exp_part_def span_def Let_def split: list.splits if_splits)
    (metis dropWhile.simps(2) le_SucI length_Cons length_dropWhile_le)+

lemma read_number_shorter: "read_number s = Some (v, r) \<Longrightarrow> length r < length s"
  unfolding read_number_def Let_def
  by (auto split: list.splits option.splits if_splits prod.splits
      dest!: read_int_part_shorter read_frac_part_shorter read_exp_part_shorter)

lemma keyword_shorter: "w \<noteq> [] \<Longrightarrow> keyword w v s = Some (x, r) \<Longrightarrow> length r < length s"
proof -
  assume w: "w \<noteq> []" and k: "keyword w v s = Some (x, r)"
  then have "take (length w) s = w" "r = drop (length w) s" by (auto simp: keyword_def split: if_splits)
  then have "length w \<le> length s" by (metis length_take min.cobounded1)
  with w \<open>r = drop (length w) s\<close> show ?thesis by (cases w) auto
qed

lemma read_shorter:
  "read_value n d s = Some (v, r) \<Longrightarrow> length r < length s"
  "read_items n d s = Some (vs, r) \<Longrightarrow> length r < length s"
  "read_members n d s = Some (ms, r) \<Longrightarrow> length r < length s"
proof (induction n arbitrary: d s v vs ms r)
  case (Suc n)
  note sp = skip_space_shorter
  { case 1
    then obtain c t where s: "s = c # t" by (cases s) auto
    have inner: "length r < length s" if "skip_space t = e # u" "length r < length (e # u) \<or> r = u" for e u
      using that sp [of t] s by auto
    show ?case
      using 1 Suc.IH(2) [of "d - 1"] Suc.IH(3) [of "d - 1"] inner
        read_string_shorter [of t] keyword_shorter [of "''true''" "TBool True" s] read_number_shorter [of s]
        keyword_shorter [of "''false''" "TBool False" s] keyword_shorter [of "''null''" TNull s]
      by (fastforce simp: s split: if_splits list.splits) }
  { case 2
    then obtain w q where w: "read_value n d s = Some (w, q)" by (auto split: option.splits)
    then have "length q < length s" by (rule Suc.IH(1))
    moreover obtain e u where e: "skip_space q = e # u" using 2 w by (auto split: list.splits)
    moreover have "length (e # u) \<le> length q" using sp [of q] e by simp
    moreover have "r = u \<or> (\<exists>ws. read_items n d (skip_space u) = Some (ws, r))"
      using 2 w e by (auto split: if_splits)
    moreover have "length (skip_space u) \<le> length u" by (rule sp)
    ultimately show ?case using Suc.IH(2) [of d "skip_space u" _ r] by fastforce }
  { case 3
    then obtain q t where s: "s = q # t" and q: "q = CHR 0x22" by (cases s) (auto split: if_splits)
    obtain k a where k: "read_string t = Some (k, a)" using 3 s q by (auto split: option.splits)
    obtain a' where a: "skip_space a = CHR '':'' # a'" using 3 s q k by (auto split: list.splits if_splits)
    obtain w b where w: "read_value n d (skip_space a') = Some (w, b)"
      using 3 s q k a by (auto simp: Let_def split: option.splits)
    obtain e u where e: "skip_space b = e # u" using 3 s q k a w by (auto simp: Let_def split: list.splits)
    have "length b < length (skip_space a')" using w by (rule Suc.IH(1))
    then have len: "length u < length s"
      using read_string_shorter [OF k] sp [of a] sp [of a'] sp [of b] a e s by simp
    moreover have "r = u \<or> (\<exists>ws. read_members n d (skip_space u) = Some (ws, r))"
      using 3 s q k a w e by (auto simp: Let_def split: if_splits)
    moreover have "length (skip_space u) \<le> length u" by (rule sp)
    ultimately show ?case using Suc.IH(3) [of d "skip_space u" _ r] by fastforce }
qed simp_all

text \<open>One more unit of fuel than the text can use up changes nothing, so \<open>json_fuel\<close> is enough.\<close>

lemma fuel_step:
  "2 * length s + 1 \<le> n \<Longrightarrow> read_value (Suc n) d s = read_value n d s"
  "2 * length s + 2 \<le> n \<Longrightarrow> read_items (Suc n) d s = read_items n d s"
  "2 * length s + 2 \<le> n \<Longrightarrow> read_members (Suc n) d s = read_members n d s"
proof (induction n arbitrary: d s)
  case (Suc n)
  note sp = skip_space_shorter
  { case 1
    show ?case
    proof (cases s)
      case (Cons c t)
      have step: "read_members (Suc n) (d - 1) (skip_space t) = read_members n (d - 1) (skip_space t)"
        "read_items (Suc n) (d - 1) (skip_space t) = read_items n (d - 1) (skip_space t)"
        by (intro Suc.IH; use 1 Cons sp [of t] in simp)+
      then show ?thesis unfolding Cons read_value.simps(2)
        by (cases "skip_space t") (auto simp del: read_value.simps read_items.simps read_members.simps)
    qed simp }
  { case 2
    have v: "read_value (Suc n) d s = read_value n d s" using 2 by (intro Suc.IH) simp
    show ?case
    proof (cases "read_value n d s")
      case None
      then show ?thesis using v by (simp only: read_items.simps(2) option.case)
    next
      case (Some vr)
      obtain w q where w: "vr = (w, q)" by fastforce
      have "length q < length s" using read_shorter(1) Some w by simp
      then have "read_items (Suc n) d (skip_space u) = read_items n d (skip_space u)" if "skip_space q = e # u" for e u
        using 2 sp [of u] sp [of q] that by (intro Suc.IH) simp
      then show ?thesis using v Some w unfolding read_items.simps(2) [of "Suc n"] read_items.simps(2) [of n]
        by (cases "skip_space q") (auto simp del: read_value.simps read_items.simps read_members.simps)
    qed }
  { case 3
    show ?case
    proof (cases s)
      case (Cons q t)
      show ?thesis
      proof (cases "q = CHR 0x22 \<and> (\<exists>k a a'. read_string t = Some (k, a) \<and> skip_space a = CHR '':'' # a')")
        case False
        then show ?thesis by (auto simp: Cons split: option.split list.split)
      next
        case True
        then obtain k a a' where k: "read_string t = Some (k, a)" "skip_space a = CHR '':'' # a'" and q: "q = CHR 0x22" by blast
        have short: "length (skip_space a') < length s"
          using read_string_shorter [OF k(1)] sp [of a] sp [of a'] k(2) Cons by simp
        have v: "read_value (Suc n) d (skip_space a') = read_value n d (skip_space a')"
          using 3 short by (intro Suc.IH) simp
        have m: "read_members (Suc n) d (skip_space u) = read_members n d (skip_space u)"
          if "read_value n d (skip_space a') = Some (w, b)" "skip_space b = e # u" for w b e u
          using 3 short read_shorter(1) [OF that(1)] sp [of b] sp [of u] that(2) by (intro Suc.IH) simp
        have one: "read_members (Suc (Suc m)) d s =
          (case read_value (Suc m) d (skip_space a') of None \<Rightarrow> None
           | Some (v, s2) \<Rightarrow> (case skip_space s2 of [] \<Rightarrow> None
              | e # u \<Rightarrow> if e = CHR ''}'' then Some ([(k, member_text (skip_space a') s2, v)], u)
                       else if e = CHR '','' then map_option (\<lambda>(ms, w). ((k, member_text (skip_space a') s2, v) # ms, w))
                              (read_members (Suc m) d (skip_space u))
                       else None))" for m
          unfolding Cons q by (subst read_members.simps(2)) (simp add: k Let_def del: read_value.simps(2) read_members.simps(2))
        have two: "read_members (Suc n) d s =
          (case read_value n d (skip_space a') of None \<Rightarrow> None
           | Some (v, s2) \<Rightarrow> (case skip_space s2 of [] \<Rightarrow> None
              | e # u \<Rightarrow> if e = CHR ''}'' then Some ([(k, member_text (skip_space a') s2, v)], u)
                       else if e = CHR '','' then map_option (\<lambda>(ms, w). ((k, member_text (skip_space a') s2, v) # ms, w))
                              (read_members n d (skip_space u))
                       else None))"
          unfolding Cons q by (simp add: k Let_def)
        show ?thesis
          unfolding one [of n] two v
        proof (cases "read_value n d (skip_space a')")
          case (Some vb)
          obtain w b where wb: "vb = (w, b)" by fastforce
          show "(case read_value n d (skip_space a') of None \<Rightarrow> None
           | Some (v, s2) \<Rightarrow> (case skip_space s2 of [] \<Rightarrow> None
              | e # u \<Rightarrow> if e = CHR ''}'' then Some ([(k, member_text (skip_space a') s2, v)], u)
                       else if e = CHR '','' then map_option (\<lambda>(ms, w). ((k, member_text (skip_space a') s2, v) # ms, w))
                              (read_members (Suc n) d (skip_space u))
                       else None)) =
            (case read_value n d (skip_space a') of None \<Rightarrow> None
           | Some (v, s2) \<Rightarrow> (case skip_space s2 of [] \<Rightarrow> None
              | e # u \<Rightarrow> if e = CHR ''}'' then Some ([(k, member_text (skip_space a') s2, v)], u)
                       else if e = CHR '','' then map_option (\<lambda>(ms, w). ((k, member_text (skip_space a') s2, v) # ms, w))
                              (read_members n d (skip_space u))
                       else None))"
            using m [of w b] Some wb
            by (cases "skip_space b") (simp_all del: read_members.simps(2))
        qed simp
      qed
    qed simp }
qed simp_all

end
