(* ===== verification/Options.thy ===== *)
theory Options
  imports Board Chargeback Json
begin

text \<open>
  \<open>internal/crew/options.go\<close> and \<open>unitrule.go\<close>: the options block at the end of a deliverable, the
  gate it passes before it is stored, and the states an option moves through. A refusal is a
  \<open>target_fault\<close>; its wording, where it is journaled, is the argument \<open>say\<close>. One departure: of a
  field named twice in one JSON object the last value counts alone, where Go would decode the
  second list over the elements of the first.
\<close>

section \<open>Go fields\<close>

fun fold_key :: "string \<Rightarrow> string" where
  "fold_key [] = []"
| "fold_key [c] = [lower_char c]"
| "fold_key [c, d] =
     (if byte c = 0xC5 \<and> byte d = 0xBF then ''s'' else lower_char c # fold_key [d])"
| "fold_key (c # d # e # s) =
     (if byte c = 0xC5 \<and> byte d = 0xBF then CHR ''s'' # fold_key (e # s)
      else if byte c = 0xE2 \<and> byte d = 0x84 \<and> byte e = 0xAA then CHR ''k'' # fold_key s
      else lower_char c # fold_key (d # e # s))"

definition field_is :: "string \<Rightarrow> string \<Rightarrow> bool" where
  "field_is name key \<longleftrightarrow> fold_key key = fold_key name"

definition into_string :: "jtext \<Rightarrow> string \<Rightarrow> string option" where
  "into_string v old = (case v of TStr s \<Rightarrow> Some s | TNull \<Rightarrow> Some old | _ \<Rightarrow> None)"

definition into_string_ptr :: "jtext \<Rightarrow> string option option" where
  "into_string_ptr v = (case v of TStr s \<Rightarrow> Some (Some s) | TNull \<Rightarrow> Some None | _ \<Rightarrow> None)"

definition into_number :: "jtext \<Rightarrow> string \<Rightarrow> string option" where
  "into_number v old =
     (case v of TNum l \<Rightarrow> Some l | TStr s \<Rightarrow> if valid_number s then Some s else None
      | TNull \<Rightarrow> Some old | _ \<Rightarrow> None)"

definition into_int64 :: "jtext \<Rightarrow> int \<Rightarrow> int option" where
  "into_int64 v old = (case v of TNum l \<Rightarrow> parse_int64 l | TNull \<Rightarrow> Some old | _ \<Rightarrow> None)"

definition into_int64_ptr :: "jtext \<Rightarrow> int option option" where
  "into_int64_ptr v = (case v of TNum l \<Rightarrow> map_option Some (parse_int64 l) | TNull \<Rightarrow> Some None | _ \<Rightarrow> None)"

definition into_strings :: "jtext \<Rightarrow> string list option" where
  "into_strings v =
     (case v of TNull \<Rightarrow> Some [] | TArr vs \<Rightarrow> those (map (\<lambda>w. into_string w []) vs) | _ \<Rightarrow> None)"

text \<open>\<open>strconv.ParseFloat\<close> of a literal: None where it leaves the range of a float64.\<close>

definition pow10 :: "int \<Rightarrow> rat" where
  "pow10 e = (if 0 \<le> e then 10 ^ nat e else 1 / 10 ^ nat (- e))"

definition number_rat :: "string \<Rightarrow> rat" where
  "number_rat l =
     (let neg = (l \<noteq> [] \<and> hd l = CHR ''-''); s1 = (if neg then tl l else l);
          (i, s2) = span is_digit s1;
          f = (case read_frac_part s2 of Some (_ # ds, _) \<Rightarrow> ds | _ \<Rightarrow> []);
          s3 = (case read_frac_part s2 of Some (_, r) \<Rightarrow> r | None \<Rightarrow> s2);
          e = (case s3 of _ # x \<Rightarrow> (case x of c # y \<Rightarrow> if c = CHR ''-'' then - decimal y
                                            else if c = CHR ''+'' then decimal y else decimal x
                                   | [] \<Rightarrow> 0) | [] \<Rightarrow> 0);
          v = of_int (decimal (i @ f)) * pow10 (e - int (length f))
      in if neg then - v else v)"

definition parse_float :: "string \<Rightarrow> rat option" where
  "parse_float l =
     (let v = number_rat l in
      if \<bar>v\<bar> \<ge> 2 ^ 1024 - 2 ^ 970 then None
      else if \<bar>v\<bar> * 2 ^ 1075 \<le> 1 then Some 0
      else Some (f64 v))"

definition into_float_ptr :: "jtext \<Rightarrow> rat option option" where
  "into_float_ptr v = (case v of TNum l \<Rightarrow> map_option Some (parse_float l) | TNull \<Rightarrow> Some None | _ \<Rightarrow> None)"

text \<open>A struct takes the members in order; a value its field cannot take fails the whole decode.\<close>

fun set_fields :: "(string \<Rightarrow> string \<Rightarrow> jtext \<Rightarrow> 'r \<Rightarrow> 'r option) \<Rightarrow> (string \<times> string \<times> jtext) list \<Rightarrow> 'r \<Rightarrow> 'r option" where
  "set_fields f [] r = Some r"
| "set_fields f ((k, raw, v) # ms) r = (case f k raw v r of None \<Rightarrow> None | Some r' \<Rightarrow> set_fields f ms r')"

definition decode_struct :: "(string \<Rightarrow> string \<Rightarrow> jtext \<Rightarrow> 'r \<Rightarrow> 'r option) \<Rightarrow> 'r \<Rightarrow> jtext \<Rightarrow> 'r option" where
  "decode_struct f r v = (case v of TNull \<Rightarrow> Some r | TObj ms \<Rightarrow> set_fields f ms r | _ \<Rightarrow> None)"

section \<open>The options block\<close>

definition options_block_max_bytes :: int where "options_block_max_bytes = 65536"
definition options_max :: nat where "options_max = 3"
definition target_max_bytes :: int where "target_max_bytes = 4096"
definition window_max_days :: int where "window_max_days = 366"

text \<open>The first match of the fence's pattern: the text between the open_fence line and the next fence.\<close>

definition fence :: string where "fence = [CHR 0x60, CHR 0x60, CHR 0x60]"

definition starts_with :: "string \<Rightarrow> string \<Rightarrow> bool" where
  "starts_with p s \<longleftrightarrow> take (length p) s = p"

fun until_fence :: "string \<Rightarrow> string option" where
  "until_fence [] = None"
| "until_fence (c # s) = (if starts_with fence (c # s) then Some [] else map_option ((#) c) (until_fence s))"

definition open_fence :: "string \<Rightarrow> string option" where
  "open_fence s =
     (if starts_with (fence @ ''options'') s then
        (let r = dropWhile (\<lambda>c. c = CHR '' '' \<or> c = CHR 0x09) (drop 10 s);
             r' = (case r of c # t \<Rightarrow> if c = CHR 0x0D then t else r | [] \<Rightarrow> r)
         in case r' of c # t \<Rightarrow> if c = CHR 0x0A then until_fence t else None | [] \<Rightarrow> None)
      else None)"

fun find_block :: "string \<Rightarrow> string option" where
  "find_block [] = None"
| "find_block (c # s) = (case open_fence (c # s) of Some b \<Rightarrow> Some b | None \<Rightarrow> find_block s)"

record raw_option =
  ro_class :: string
  ro_summary :: string
  ro_figure :: string
  ro_saving :: string
  ro_risk :: string
  ro_needs :: string
  ro_evidence :: "string list"
  ro_target :: string

definition empty_option :: raw_option where
  "empty_option = \<lparr>ro_class = [], ro_summary = [], ro_figure = [], ro_saving = [], ro_risk = [],
     ro_needs = [], ro_evidence = [], ro_target = []\<rparr>"

definition set_option_field :: "string \<Rightarrow> string \<Rightarrow> jtext \<Rightarrow> raw_option \<Rightarrow> raw_option option" where
  "set_option_field k raw v r =
     (if field_is ''class'' k then map_option (\<lambda>x. r\<lparr>ro_class := x\<rparr>) (into_string v (ro_class r))
      else if field_is ''summary'' k then map_option (\<lambda>x. r\<lparr>ro_summary := x\<rparr>) (into_string v (ro_summary r))
      else if field_is ''figure_cents'' k then map_option (\<lambda>x. r\<lparr>ro_figure := x\<rparr>) (into_number v (ro_figure r))
      else if field_is ''saving_cents'' k then map_option (\<lambda>x. r\<lparr>ro_saving := x\<rparr>) (into_number v (ro_saving r))
      else if field_is ''risk'' k then map_option (\<lambda>x. r\<lparr>ro_risk := x\<rparr>) (into_string v (ro_risk r))
      else if field_is ''needs'' k then map_option (\<lambda>x. r\<lparr>ro_needs := x\<rparr>) (into_string v (ro_needs r))
      else if field_is ''evidence'' k then map_option (\<lambda>x. r\<lparr>ro_evidence := x\<rparr>) (into_strings v)
      else if field_is ''target'' k then Some (r\<lparr>ro_target := raw\<rparr>)
      else Some r)"

definition set_block_field :: "string \<Rightarrow> string \<Rightarrow> jtext \<Rightarrow> raw_option list \<Rightarrow> raw_option list option" where
  "set_block_field k raw v rs =
     (if field_is ''options'' k then
        (case v of TNull \<Rightarrow> Some []
         | TArr vs \<Rightarrow> those (map (decode_struct set_option_field empty_option) vs)
         | _ \<Rightarrow> None)
      else Some rs)"

definition decode_block :: "string \<Rightarrow> raw_option list option" where
  "decode_block s = (case parse_json s of None \<Rightarrow> None | Some v \<Rightarrow> decode_struct set_block_field [] v)"

definition cents_of :: "string \<Rightarrow> int option" where
  "cents_of n = (if n = [] then Some 0 else parse_int64 n)"

definition normalized_target :: "string \<Rightarrow> string" where
  "normalized_target raw = (if trim_space raw = [] \<or> trim_space raw = ''null'' then [] else raw)"

definition option_of :: "nat \<Rightarrow> raw_option \<Rightarrow> target_fault + option_row" where
  "option_of i r =
     (if blank (ro_class r) then Inl (NamesNoClass i)
      else case cents_of (ro_figure r) of None \<Rightarrow> Inl (FigureNotCents i)
      | Some figure \<Rightarrow>
          if figure < 0 then Inl (FigureNegative i)
          else case cents_of (ro_saving r) of None \<Rightarrow> Inl (SavingNotCents i)
          | Some saving \<Rightarrow> Inr
              \<lparr>op_artifact = 0, op_ordinal = int i, op_class = trim_space (ro_class r), op_summary = ro_summary r,
               op_figure = figure, op_saving = saving, op_risk = ro_risk r, op_needs = ro_needs r,
               op_evidence = ro_evidence r, op_target = normalized_target (ro_target r), op_state = OptionOpen,
               op_decided_by = [], op_decided_at = [], op_reason = [], op_on_behalf_of = [], op_behalf_reason = []\<rparr>)"

fun options_from :: "nat \<Rightarrow> raw_option list \<Rightarrow> target_fault + option_row list" where
  "options_from i [] = Inr []"
| "options_from i (r # rs) =
     (case option_of i r of Inl e \<Rightarrow> Inl e
      | Inr o' \<Rightarrow> (case options_from (Suc i) rs of Inl e \<Rightarrow> Inl e | Inr os \<Rightarrow> Inr (o' # os)))"

datatype parsed = NoFence | Malformed target_fault | Parsed "option_row list"

definition parse_options :: "string \<Rightarrow> parsed" where
  "parse_options body =
     (case find_block body of None \<Rightarrow> NoFence
      | Some raw \<Rightarrow>
          if int (length raw) > options_block_max_bytes then Malformed (BlockTooLong (length raw))
          else case decode_block raw of None \<Rightarrow> Malformed BlockNotJSON
          | Some rs \<Rightarrow>
              if length rs > options_max then Malformed (TooManyOptions (length rs))
              else case options_from 1 rs of Inl e \<Rightarrow> Malformed e | Inr os \<Rightarrow> Parsed os)"

section \<open>Targets\<close>

definition business_unit_max_bytes :: nat where "business_unit_max_bytes = 80"
definition tokenfuse_provenance :: string where "tokenfuse_provenance = ''tokenfuse-focus''"

datatype unit_reading = NotUnit | UnitFault target_fault | UnitNamed string string

definition name_plain :: "(name_fault \<Rightarrow> target_fault) \<Rightarrow> target_fault \<Rightarrow> string \<Rightarrow> nat \<Rightarrow> target_fault option" where
  "name_plain wrap pad s limit =
     (if s = [] \<or> trim_space s \<noteq> s then Some pad else map_option wrap (plain_check s limit))"

definition odd_key :: "string list \<Rightarrow> target_fault option" where
  "odd_key ks =
     (case find (\<lambda>k. k \<noteq> ''unit'' \<and> k \<noteq> ''business_unit'') (sort_names ks) of None \<Rightarrow> None
      | Some k \<Rightarrow> Some (if k \<in> set [''rule_id'', ''method'', ''share''] then UnitAndRule k else UnitOddField k))"

definition parse_unit_target :: "string \<Rightarrow> unit_reading" where
  "parse_unit_target raw =
     (case parse_json raw of
        Some (TObj ms) \<Rightarrow>
          (let obj = map_of (rev (map (\<lambda>(k, raw, v). (k, v)) ms)) in
           case obj ''unit'' of None \<Rightarrow> NotUnit
           | Some uv \<Rightarrow>
               (case odd_key (map fst ms) of Some f \<Rightarrow> UnitFault f
                | None \<Rightarrow>
                    (case into_string uv [] of None \<Rightarrow> UnitFault UnitNotString
                     | Some unit \<Rightarrow>
                         (case name_plain UnitNotPlain UnitPadded unit unit_max_bytes of Some f \<Rightarrow> UnitFault f
                          | None \<Rightarrow>
                              (case obj ''business_unit'' of None \<Rightarrow> UnitFault NoBusinessUnit
                               | Some bv \<Rightarrow>
                                   (case into_string bv [] of None \<Rightarrow> UnitFault BusinessNotString
                                    | Some bu \<Rightarrow>
                                        (case name_plain BusinessNotPlain BusinessPadded bu business_unit_max_bytes of
                                           Some f \<Rightarrow> UnitFault f | None \<Rightarrow> UnitNamed unit bu)))))))
      | _ \<Rightarrow> NotUnit)"

definition unit_rule_refusal :: "string \<Rightarrow> store \<Rightarrow> target_fault option" where
  "unit_rule_refusal unit s =
     (if roster_team unit then Some (UnitIsTeam unit)
      else if filter (\<lambda>c. ch_team c = unit \<and> unit \<noteq> [] \<and> ch_provenance c = tokenfuse_provenance) (st_charges s) = []
      then Some (UnitHasNoRows unit) else None)"

record rule_target =
  gt_rule :: string
  gt_method :: string
  gt_share :: "rat option"

definition set_rule_field :: "string \<Rightarrow> string \<Rightarrow> jtext \<Rightarrow> rule_target \<Rightarrow> rule_target option" where
  "set_rule_field k raw v r =
     (if field_is ''rule_id'' k then map_option (\<lambda>x. r\<lparr>gt_rule := x\<rparr>) (into_number v (gt_rule r))
      else if field_is ''method'' k then map_option (\<lambda>x. r\<lparr>gt_method := x\<rparr>) (into_string v (gt_method r))
      else if field_is ''share'' k then map_option (\<lambda>x. r\<lparr>gt_share := x\<rparr>) (into_float_ptr v)
      else Some r)"

definition rule_target_fault :: "rule_target \<Rightarrow> target_fault option" where
  "rule_target_fault t =
     (case parse_int64 (gt_rule t) of None \<Rightarrow> Some RuleIdBad
      | Some i \<Rightarrow>
          if i \<le> 0 then Some RuleIdBad
          else if blank (gt_method t) then Some NoMethod
          else case gt_share t of None \<Rightarrow> None
               | Some x \<Rightarrow> if x < 0 \<or> x > 1 then Some ShareBad else None)"

definition validate_allocation_target :: "string \<Rightarrow> target_fault option" where
  "validate_allocation_target raw =
     (if int (length raw) > target_max_bytes then Some (TargetTooLong (length raw))
      else if raw = [] then Some TargetMissing
      else case parse_unit_target raw of
             UnitFault f \<Rightarrow> Some f
           | UnitNamed _ _ \<Rightarrow> None
           | NotUnit \<Rightarrow>
               (case parse_json raw of None \<Rightarrow> Some TargetNotJSON
                | Some v \<Rightarrow>
                    (case decode_struct set_rule_field \<lparr>gt_rule = [], gt_method = [], gt_share = None\<rparr> v of
                       None \<Rightarrow> Some TargetNotJSON | Some t \<Rightarrow> rule_target_fault t)))"

record driver_target =
  wt_start :: string
  wt_end :: string

definition set_window_field :: "string \<Rightarrow> string \<Rightarrow> jtext \<Rightarrow> driver_target \<Rightarrow> driver_target option" where
  "set_window_field k raw v r =
     (if field_is ''start'' k then map_option (\<lambda>x. r\<lparr>wt_start := x\<rparr>) (into_string v (wt_start r))
      else if field_is ''end'' k then map_option (\<lambda>x. r\<lparr>wt_end := x\<rparr>) (into_string v (wt_end r))
      else Some r)"

definition window_fault :: "string \<Rightarrow> string \<Rightarrow> target_fault option" where
  "window_fault start until =
     (case parse_date start of None \<Rightarrow> Some (StartBad start)
      | Some a \<Rightarrow>
          (case parse_date until of None \<Rightarrow> Some (EndBad until)
           | Some b \<Rightarrow>
               if b < a then Some EndBeforeStart
               else if b - a > window_max_days then Some WindowTooLong else None))"

definition decode_window :: "string \<Rightarrow> driver_target option" where
  "decode_window raw =
     (case parse_json raw of None \<Rightarrow> None
      | Some v \<Rightarrow> decode_struct set_window_field \<lparr>wt_start = [], wt_end = []\<rparr> v)"

definition validate_driver_target :: "string \<Rightarrow> string \<Rightarrow> bool \<Rightarrow> target_fault option" where
  "validate_driver_target class' raw has_anomaly =
     (let optional = (class' = ''driver.one-time'' \<and> has_anomaly) in
      if int (length raw) > target_max_bytes then Some (TargetTooLong (length raw))
      else if raw = [] then (if optional then None else Some TargetMissing)
      else if optional then Some WindowNotNeeded
      else case decode_window raw of None \<Rightarrow> Some TargetNotJSON
           | Some t \<Rightarrow> window_fault (wt_start t) (wt_end t))"

record announced_target =
  nt_scope :: string
  nt_start :: string
  nt_end :: string
  nt_daily :: "int option"
  nt_team :: "string option"

definition no_announced :: announced_target where
  "no_announced = \<lparr>nt_scope = [], nt_start = [], nt_end = [], nt_daily = None, nt_team = None\<rparr>"

definition set_announced_field :: "bool \<Rightarrow> string \<Rightarrow> string \<Rightarrow> jtext \<Rightarrow> announced_target \<Rightarrow> announced_target option" where
  "set_announced_field strict k raw v r =
     (if field_is ''scope'' k then map_option (\<lambda>x. r\<lparr>nt_scope := x\<rparr>) (into_string v (nt_scope r))
      else if field_is ''start'' k then map_option (\<lambda>x. r\<lparr>nt_start := x\<rparr>) (into_string v (nt_start r))
      else if field_is ''end'' k then map_option (\<lambda>x. r\<lparr>nt_end := x\<rparr>) (into_string v (nt_end r))
      else if field_is ''daily_cents'' k then map_option (\<lambda>x. r\<lparr>nt_daily := x\<rparr>) (into_int64_ptr v)
      else if field_is ''team'' k then map_option (\<lambda>x. r\<lparr>nt_team := x\<rparr>) (into_string_ptr v)
      else if strict then None else Some r)"

definition announced_fault :: "announced_target \<Rightarrow> target_fault option" where
  "announced_fault t =
     (if trim_space (nt_scope t) = [] \<or> trim_space (nt_scope t) = ''*'' then Some ScopeBad
      else if nt_daily t = None \<or> nt_daily t = Some 0 then Some NoExpectedMove
      else case (case nt_team t of None \<Rightarrow> None
                 | Some m \<Rightarrow> if trim_space m = [] \<or> trim_space m \<noteq> m then Some TeamPadded
                            else map_option TeamNotPlain (plain_check m unit_max_bytes)) of
             Some f \<Rightarrow> Some f
           | None \<Rightarrow> window_fault (nt_start t) (nt_end t))"

definition validate_announced_target :: "string \<Rightarrow> target_fault option" where
  "validate_announced_target raw =
     (if raw = [] then Some TargetMissing
      else if int (length raw) > target_max_bytes then Some (TargetTooLong (length raw))
      else case decode_json raw of None \<Rightarrow> Some TargetNotJSON
      | Some (v, rest) \<Rightarrow>
          (case decode_struct (set_announced_field True) no_announced v of None \<Rightarrow> Some TargetNotJSON
           | Some t \<Rightarrow> if skip_space rest \<noteq> [] then Some TrailingData else announced_fault t))"

definition decode_announced :: "string \<Rightarrow> announced_target option" where
  "decode_announced raw =
     (case parse_json raw of None \<Rightarrow> None | Some v \<Rightarrow> decode_struct (set_announced_field False) no_announced v)"

definition saving_fault_of :: "saving_fault \<Rightarrow> target_fault" where
  "saving_fault_of f = (case f of NoSpendToMeasure \<Rightarrow> NothingToMeasure | LargerThanSpend d m \<Rightarrow> LargerSaving d m)"

end
