(* ===== verification/Choices.thy ===== *)
theory Choices
  imports Options
begin

text \<open>
  The rest of \<open>internal/crew/options.go\<close>: the gate a deliverable's options pass when they are
  saved, the rows of \<open>artifact_options\<close>, and the states a row moves through. The rival query of
  \<open>LiveRivalsOf\<close> carries no \<open>ORDER BY\<close>; the model answers it in table order.
\<close>

section \<open>Reads\<close>

definition option_key :: "option_row \<Rightarrow> int \<times> int" where
  "option_key x = (op_artifact x, op_ordinal x)"

definition in_order :: "option_row list \<Rightarrow> option_row list" where
  "in_order os = sort_key op_artifact (sort_key op_ordinal os)"

definition options :: "int \<Rightarrow> store \<Rightarrow> option_row list" where
  "options a s = sort_key op_ordinal (filter (\<lambda>x. op_artifact x = a) (st_options s))"

definition get_option :: "int \<Rightarrow> int \<Rightarrow> store \<Rightarrow> option_row option" where
  "get_option a k s = find (\<lambda>x. op_ordinal x = k) (options a s)"

text \<open>\<open>JOIN artifacts a ON a.id = o.artifact JOIN tasks t ON t.id = a.task\<close>.\<close>

definition option_home :: "option_row \<Rightarrow> store \<Rightarrow> (artifact \<times> task) option" where
  "option_home x s =
     (case artifact_row (op_artifact x) s of None \<Rightarrow> None
      | Some a \<Rightarrow> map_option (Pair a) (find (\<lambda>t. tk_id t = ar_task a) (st_tasks s)))"

definition homed :: "(artifact \<Rightarrow> task \<Rightarrow> bool) \<Rightarrow> option_row \<Rightarrow> store \<Rightarrow> bool" where
  "homed P x s = (case option_home x s of None \<Rightarrow> False | Some (a, t) \<Rightarrow> P a t)"

definition open_options_for_sprint :: "int \<Rightarrow> store \<Rightarrow> option_row list" where
  "open_options_for_sprint sprint s =
     in_order (filter (\<lambda>x. op_state x = OptionOpen \<and>
       homed (\<lambda>a t. tk_sprint t = sprint \<and> ar_state a = PostedDraft) x s) (st_options s))"

definition carried_options_for :: "int \<Rightarrow> string \<Rightarrow> store \<Rightarrow> option_row list" where
  "carried_options_for sprint owner s =
     in_order (filter (\<lambda>x. op_state x = OptionCarried \<and>
       homed (\<lambda>a t. tk_sprint t = sprint \<and> tk_owner t = owner) x s) (st_options s))"

definition live :: "option_row \<Rightarrow> bool" where
  "live x \<longleftrightarrow> op_state x \<in> {OptionOpen, OptionCarried}"

definition anomaly_of_artifact :: "int \<Rightarrow> store \<Rightarrow> string" where
  "anomaly_of_artifact a s =
     (case task_of_artifact a s of None \<Rightarrow> []
      | Some k \<Rightarrow> (case get_task k s of None \<Rightarrow> [] | Some t \<Rightarrow> coalesce (tk_anomaly t)))"

definition live_rivals_of :: "option_row \<Rightarrow> store \<Rightarrow> option_row list" where
  "live_rivals_of x s =
     filter (\<lambda>y. op_ordinal y \<noteq> op_ordinal x \<and> live y) (options (op_artifact x) s) @
     (let aid = anomaly_of_artifact (op_artifact x) s in
      if op_class x \<noteq> ''anomaly.explain'' \<or> aid = [] then []
      else filter (\<lambda>y. op_class y = ''anomaly.explain'' \<and> op_artifact y \<noteq> op_artifact x \<and> live y \<and>
             homed (\<lambda>a t. tk_anomaly t = Some aid) y s \<and>
             trim_space (op_summary y) \<noteq> trim_space (op_summary x)) (st_options s))"

section \<open>The gate\<close>

definition artifact_task :: "int \<Rightarrow> store \<Rightarrow> err + task" where
  "artifact_task a s =
     (case task_of_artifact a s of None \<Rightarrow> Inl ErrNotFound
      | Some k \<Rightarrow> (case get_task k s of None \<Rightarrow> Inl ErrNotFound | Some t \<Rightarrow> Inr t))"

definition artifact_has_anomaly :: "int \<Rightarrow> store \<Rightarrow> err + bool" where
  "artifact_has_anomaly a s =
     (case artifact_task a s of Inl e \<Rightarrow> Inl e | Inr t \<Rightarrow> Inr (coalesce (tk_anomaly t) \<noteq> []))"

definition announced_saving_refusal :: "int \<Rightarrow> string \<Rightarrow> store \<Rightarrow> err + target_fault option" where
  "announced_saving_refusal a raw s =
     (case decode_announced raw of None \<Rightarrow> Inl TargetUndecodable
      | Some n \<Rightarrow>
          (case artifact_task a s of Inl e \<Rightarrow> Inl e
           | Inr t \<Rightarrow> Inr (map_option saving_fault_of
               (saving_refusal (tk_desk t) (trim_space (nt_scope n))
                  (case nt_team n of None \<Rightarrow> [] | Some m \<Rightarrow> m) (nt_start n)
                  (case nt_daily n of None \<Rightarrow> 0 | Some d \<Rightarrow> d) s))))"

definition rule_refusal :: "string \<Rightarrow> store \<Rightarrow> target_fault option" where
  "rule_refusal raw s =
     (case validate_allocation_target raw of Some f \<Rightarrow> Some f
      | None \<Rightarrow> (case parse_unit_target raw of UnitNamed u _ \<Rightarrow> unit_rule_refusal u s | _ \<Rightarrow> None))"

text \<open>What the gate asks of the target, by the option's class.\<close>

definition target_refusal :: "int \<Rightarrow> string \<Rightarrow> string \<Rightarrow> store \<Rightarrow> err + target_fault option" where
  "target_refusal a cls raw s =
     (if cls = ''allocation.rule'' then Inr (rule_refusal raw s)
      else if cls = ''driver.recurring'' \<or> cls = ''driver.one-time'' then
        (case artifact_has_anomaly a s of Inl e \<Rightarrow> Inl e
         | Inr h \<Rightarrow> Inr (validate_driver_target cls raw h))
      else if cls = ''driver.announced'' then
        (case validate_announced_target raw of Some f \<Rightarrow> Inr (Some f)
         | None \<Rightarrow> announced_saving_refusal a raw s)
      else Inr None)"

definition option_refusal :: "int \<Rightarrow> string \<Rightarrow> job_description \<Rightarrow> option_row \<Rightarrow> store \<Rightarrow> err + target_fault option" where
  "option_refusal a role jd x s =
     (if op_class x \<notin> valid_classes_for jd then Inr (Some (ClassNotListed (op_class x) role))
      else if class_for roles_yaml (op_class x) = None then Inr (Some (ClassUndefined (op_class x)))
      else target_refusal a (op_class x) (op_target x) s)"

fun first_refusal :: "int \<Rightarrow> string \<Rightarrow> job_description \<Rightarrow> option_row list \<Rightarrow> store \<Rightarrow> err + target_fault option" where
  "first_refusal a role jd [] s = Inr None"
| "first_refusal a role jd (x # xs) s =
     (case option_refusal a role jd x s of
        Inl e \<Rightarrow> Inl e
      | Inr (Some f) \<Rightarrow> Inr (Some f)
      | Inr None \<Rightarrow> first_refusal a role jd xs s)"

datatype gate_answer = Refuse target_fault | Admit "option_row list"

definition gate :: "int \<Rightarrow> string \<Rightarrow> string \<Rightarrow> store \<Rightarrow> err + gate_answer" where
  "gate a role body s =
     (case parse_options body of
        Malformed f \<Rightarrow> Inr (Refuse f)
      | NoFence \<Rightarrow>
          (case role_for roles_yaml role of
             Some jd \<Rightarrow> Inr (if allows_no_options jd then Admit [] else Refuse (NoBlock role))
           | None \<Rightarrow> Inr (Admit []))
      | Parsed xs \<Rightarrow>
          (case role_for roles_yaml role of
             None \<Rightarrow> Inr (Refuse (NoRoleOnFile role))
           | Some jd \<Rightarrow>
               if xs = [] then Inr (if allows_no_options jd then Admit [] else Refuse (ZeroOptions role))
               else (case first_refusal a role jd xs s of
                       Inl e \<Rightarrow> Inl e
                     | Inr (Some f) \<Rightarrow> Inr (Refuse f)
                     | Inr None \<Rightarrow> Inr (Admit xs))))"

definition option_refused :: "(target_fault \<Rightarrow> string) \<Rightarrow> int \<Rightarrow> string \<Rightarrow> target_fault \<Rightarrow> event" where
  "option_refused say a role f =
     mk_event ''option_refused'' role ''low'' [(''artifact'', JInt a), (''reason'', JString (say f))]"

definition insert_option :: "int \<Rightarrow> option_row \<Rightarrow> unit op" where
  "insert_option a x =
     andthen (query (\<lambda>s. \<exists>y \<in> set (st_options s). op_artifact y = a \<and> op_ordinal y = op_ordinal x)) (\<lambda>dup.
     andthen (ensure (\<not> dup) DuplicateKey) (\<lambda>_.
     exec (\<lambda>s. s\<lparr>st_options := st_options s @ [x\<lparr>op_artifact := a\<rparr>]\<rparr>)))"

definition validate_and_save_options ::
  "int \<Rightarrow> string \<Rightarrow> string \<Rightarrow> (target_fault \<Rightarrow> string) \<Rightarrow> recorder \<Rightarrow> target_fault option op" where
  "validate_and_save_options a role body say rec =
     andthen (attempt (gate a role body)) (\<lambda>v.
     case v of
       Refuse f \<Rightarrow> andthen (emit rec (option_refused say a role f)) (\<lambda>_. ok (Some f))
     | Admit xs \<Rightarrow> andthen (each (insert_option a) xs) (\<lambda>_. ok None))"

section \<open>Writes\<close>

definition is_option :: "int \<Rightarrow> int \<Rightarrow> option_row \<Rightarrow> bool" where
  "is_option a k x \<longleftrightarrow> op_artifact x = a \<and> op_ordinal x = k"

definition set_option_state_as ::
  "int \<Rightarrow> int \<Rightarrow> option_state \<Rightarrow> string \<Rightarrow> string \<Rightarrow> string \<Rightarrow> string \<Rightarrow> unit op" where
  "set_option_state_as a k st by reason behalf why =
     andthen (query (\<lambda>s. \<exists>x \<in> set (st_options s). is_option a k x)) (\<lambda>hit.
     andthen (exec (\<lambda>s. s\<lparr>st_options := update_where (is_option a k)
        (\<lambda>x. x\<lparr>op_state := st, op_decided_by := by, op_decided_at := sql_now s, op_reason := reason,
               op_on_behalf_of := behalf, op_behalf_reason := why\<rparr>) (st_options s)\<rparr>)) (\<lambda>_.
     ensure hit ErrNotFound))"

definition set_option_state :: "int \<Rightarrow> int \<Rightarrow> option_state \<Rightarrow> string \<Rightarrow> string \<Rightarrow> unit op" where
  "set_option_state a k st by reason = set_option_state_as a k st by reason [] []"

definition mark_option_applied :: "int \<Rightarrow> int \<Rightarrow> string \<Rightarrow> unit op" where
  "mark_option_applied a k actor = set_option_state a k OptionApplied actor []"

definition mark_option_refused :: "int \<Rightarrow> int \<Rightarrow> string \<Rightarrow> string \<Rightarrow> unit op" where
  "mark_option_refused a k actor reason =
     andthen (ensure (\<not> blank reason) ErrNeedReason) (\<lambda>_. set_option_state a k OptionRefused actor reason)"

definition mark_option_carried :: "int \<Rightarrow> int \<Rightarrow> unit op" where
  "mark_option_carried a k = set_option_state a k OptionCarried ''supervisor'' []"

definition mark_option_not_chosen :: "int \<Rightarrow> int \<Rightarrow> string \<Rightarrow> string \<Rightarrow> unit op" where
  "mark_option_not_chosen a k actor reason = set_option_state a k OptionNotChosen actor reason"

section \<open>What the parser lets through\<close>

lemma cents_of_bounds: "cents_of n = Some v \<Longrightarrow> in64 v"
  by (auto simp: cents_of_def in64_def min64_def max64_def split: if_splits dest: parse_int64_in64)

text \<open>A row as the parser makes it: undecided, with a class and a figure that is not negative.\<close>

definition fresh_row :: "option_row \<Rightarrow> bool" where
  "fresh_row x \<longleftrightarrow> op_state x = OptionOpen \<and> op_class x \<noteq> [] \<and> 0 \<le> op_figure x \<and> in64 (op_figure x) \<and>
     in64 (op_saving x) \<and> op_decided_by x = [] \<and> op_reason x = [] \<and> op_on_behalf_of x = [] \<and> op_behalf_reason x = []"

lemma option_of_fresh:
  assumes "option_of i r = Inr x"
  shows "fresh_row x \<and> op_ordinal x = int i \<and> op_class x = trim_space (ro_class r)"
proof -
  obtain f v where fv: "cents_of (ro_figure r) = Some f" "cents_of (ro_saving r) = Some v" "0 \<le> f"
    and nb: "\<not> blank (ro_class r)"
    using assms by (auto simp: option_of_def split: if_splits option.splits)
  then show ?thesis
    using assms cents_of_bounds [OF fv(1)] cents_of_bounds [OF fv(2)]
    by (auto simp: option_of_def fresh_row_def blank_def)
qed

lemma options_from_fresh:
  "options_from i rs = Inr xs \<Longrightarrow>
   map op_ordinal xs = map int [i..<i + length xs] \<and> list_all fresh_row xs \<and> length xs = length rs"
proof (induction rs arbitrary: i xs)
  case (Cons r rs)
  then obtain x ys where x: "option_of i r = Inr x" "options_from (Suc i) rs = Inr ys" "xs = x # ys"
    by (auto split: sum.splits)
  with Cons.IH [OF x(2)] option_of_fresh [OF x(1)] show ?case
    by (simp add: upt_conv_Cons del: upt_Suc)
qed simp

lemma parsed_fresh:
  assumes "parse_options body = Parsed xs"
  shows "length xs \<le> 3 \<and> map op_ordinal xs = map int [1..<Suc (length xs)] \<and> list_all fresh_row xs"
proof -
  obtain raw rs where "find_block body = Some raw" "decode_block raw = Some rs" "length rs \<le> options_max"
    "options_from 1 rs = Inr xs"
    using assms by (auto simp: parse_options_def split: option.splits if_splits sum.splits)
  with options_from_fresh [of 1 rs xs] show ?thesis by (simp add: options_max_def)
qed

section \<open>What the gate lets through\<close>

lemma first_refusal_none:
  "first_refusal a role jd xs s = Inr None \<longleftrightarrow> list_all (\<lambda>x. option_refusal a role jd x s = Inr None) xs"
  by (induction xs) (auto split: sum.splits option.splits)

lemma gate_admits:
  assumes "gate a role body s = Inr (Admit xs)"
  shows "xs = [] \<or> (\<exists>jd. role_for roles_yaml role = Some jd \<and> parse_options body = Parsed xs \<and>
           list_all (\<lambda>x. option_refusal a role jd x s = Inr None) xs)"
  using assms
  by (auto simp: gate_def first_refusal_none [symmetric] split: parsed.splits option.splits if_splits sum.splits)

lemma insert_option_ok:
  "insert_option a x s = (Inr u, t) \<longleftrightarrow>
     \<not> (\<exists>y \<in> set (st_options s). op_artifact y = a \<and> op_ordinal y = op_ordinal x) \<and>
     t = s\<lparr>st_options := st_options s @ [x\<lparr>op_artifact := a\<rparr>]\<rparr>"
  by (auto simp: insert_option_def op_ok)

lemma insert_options_ok:
  "each (insert_option a) xs s = (Inr u, t) \<Longrightarrow>
   t = s\<lparr>st_options := st_options s @ map (\<lambda>x. x\<lparr>op_artifact := a\<rparr>) xs\<rparr>"
proof (induction xs arbitrary: s)
  case (Cons x xs)
  from Cons.prems obtain m where m: "m = s\<lparr>st_options := st_options s @ [x\<lparr>op_artifact := a\<rparr>]\<rparr>"
    and r: "each (insert_option a) xs m = (Inr u, t)"
    by (auto simp: op_ok insert_option_ok)
  from Cons.IH [OF r] m show ?case by simp
qed (simp add: op_ok)

lemma saved_cases:
  assumes "validate_and_save_options a role body say rec s = (Inr r, t)"
  obtains (refuse) f where "gate a role body s = Inr (Refuse f)" and "r = Some f"
      and "t = journal rec (option_refused say a role f) s"
  | (admit) xs where "gate a role body s = Inr (Admit xs)" and "r = None"
      and "each (insert_option a) xs s = (Inr (), t)"
proof -
  obtain v where v: "gate a role body s = Inr v"
    and c: "(case v of Refuse f \<Rightarrow> andthen (emit rec (option_refused say a role f)) (\<lambda>_. ok (Some f))
             | Admit xs \<Rightarrow> andthen (each (insert_option a) xs) (\<lambda>_. ok None)) s = (Inr r, t)"
    using assms unfolding validate_and_save_options_def op_ok by blast
  show ?thesis
  proof (cases v)
    case (Refuse f)
    then show ?thesis using refuse [of f] v c by (simp add: op_ok emit_def)
  next
    case (Admit xs)
    then show ?thesis using admit [of xs] v c by (simp add: op_ok)
  qed
qed

definition admitted :: "int \<Rightarrow> string \<Rightarrow> store \<Rightarrow> option_row \<Rightarrow> bool" where
  "admitted a role s x \<longleftrightarrow>
     op_artifact x = a \<and> fresh_row x \<and>
     list_ex (\<lambda>jd. op_class x \<in> valid_classes_for jd) (case role_for roles_yaml role of None \<Rightarrow> [] | Some jd \<Rightarrow> [jd]) \<and>
     class_for roles_yaml (op_class x) \<noteq> None \<and> target_refusal a (op_class x) (op_target x) s = Inr None"

lemma option_refusal_none:
  "option_refusal a role jd x s = Inr None \<longleftrightarrow>
     op_class x \<in> valid_classes_for jd \<and> class_for roles_yaml (op_class x) \<noteq> None \<and>
     target_refusal a (op_class x) (op_target x) s = Inr None"
  by (simp add: option_refusal_def)

text \<open>
  C8. What the save-time gate stores. When it saves a deliverable's options, the table gains at most
  three rows, numbered from one, each open and undecided, with a figure that is not negative, a
  class the writer's own job description lists and the practice defines, and a target that the
  class's own check accepts.
\<close>

theorem saved_options_passed_the_gate:
  assumes "validate_and_save_options a role body say rec s = (Inr None, t)"
  shows "\<exists>new. st_options t = st_options s @ new \<and> length new \<le> 3 \<and>
           map op_ordinal new = map int [1..<Suc (length new)] \<and> list_all (admitted a role s) new"
proof -
  obtain xs where g: "gate a role body s = Inr (Admit xs)" and e: "each (insert_option a) xs s = (Inr (), t)"
    using assms by (cases rule: saved_cases) auto
  let ?new = "map (\<lambda>x. x\<lparr>op_artifact := a\<rparr>) xs"
  have new: "st_options t = st_options s @ ?new" using insert_options_ok [OF e] by simp
  from gate_admits [OF g] show ?thesis
  proof
    assume "xs = []"
    with new show ?thesis by (intro exI [of _ "[]"]) simp
  next
    assume "\<exists>jd. role_for roles_yaml role = Some jd \<and> parse_options body = Parsed xs \<and>
      list_all (\<lambda>x. option_refusal a role jd x s = Inr None) xs"
    then obtain jd where jd: "role_for roles_yaml role = Some jd" and p: "parse_options body = Parsed xs"
      and none: "list_all (\<lambda>x. option_refusal a role jd x s = Inr None) xs" by blast
    note f = parsed_fresh [OF p]
    have "admitted a role s (x\<lparr>op_artifact := a\<rparr>)" if "x \<in> set xs" for x
      using that f none jd by (auto simp: admitted_def fresh_row_def option_refusal_none list_all_iff)
    then have "list_all (admitted a role s) ?new" by (simp add: list_all_iff)
    with new f show ?thesis by (intro exI [of _ ?new]) (simp add: o_def)
  qed
qed

text \<open>
  A refused deliverable. When the gate refuses, no table changes: the refusal is one event, under
  the writing role's name, and nothing else.
\<close>

theorem refusal_is_one_event:
  assumes "validate_and_save_options a role body say rec s = (Inr (Some f), t)"
  shows "t = journal rec (option_refused say a role f) s"
  using assms by (cases rule: saved_cases) auto

text \<open>An investigator's deliverable with one option.\<close>

definition demo_block :: string where
  "demo_block = [CHR 0x7B, CHR 0x22] @ ''options'' @ [CHR 0x22] @ '':['' @
     [CHR 0x7B, CHR 0x22] @ ''class'' @ [CHR 0x22, CHR '':'', CHR 0x22] @ ''anomaly.explain'' @ [CHR 0x22] @ ''}]}''"

definition demo_body :: string where
  "demo_body = fence @ ''options'' @ [CHR 0x0A] @ demo_block @ fence"

definition demo_option :: option_row where
  "demo_option = \<lparr>op_artifact = 0, op_ordinal = 1, op_class = ''anomaly.explain'', op_summary = [], op_figure = 0,
     op_saving = 0, op_risk = [], op_needs = [], op_evidence = [], op_target = [], op_state = OptionOpen,
     op_decided_by = [], op_decided_at = [], op_reason = [], op_on_behalf_of = [], op_behalf_reason = []\<rparr>"

lemma demo_found: "find_block demo_body = Some demo_block"
  by code_simp

lemma demo_short: "int (length demo_block) \<le> options_block_max_bytes"
  by code_simp

lemma demo_decoded: "decode_block demo_block = Some [empty_option\<lparr>ro_class := ''anomaly.explain''\<rparr>]"
  by code_simp

lemma demo_parsed: "parse_options demo_body = Parsed [demo_option]"
  using demo_short
  by (simp add: parse_options_def demo_found demo_decoded options_max_def option_of_def empty_option_def cents_of_def
      normalized_target_def blank_def trim_space_solid solid_def byte_def demo_option_def not_le)

lemma demo_role: "(case role_for roles_yaml ''investigator-aws'' of Some jd \<Rightarrow> op_class demo_option \<in> valid_classes_for jd | None \<Rightarrow> False)"
  "class_for roles_yaml (op_class demo_option) \<noteq> None"
  by code_simp+

lemma demo_saved:
  "validate_and_save_options 7 ''investigator-aws'' demo_body say None empty_store =
   (Inr None, empty_store\<lparr>st_options := [demo_option\<lparr>op_artifact := 7\<rparr>]\<rparr>)"
proof -
  obtain jd where jd: "role_for roles_yaml ''investigator-aws'' = Some jd" "op_class demo_option \<in> valid_classes_for jd"
    using demo_role(1) by (auto split: option.splits)
  have "target_refusal 7 (op_class demo_option) raw s = Inr None" for raw s
    by (simp add: target_refusal_def demo_option_def)
  then have "first_refusal 7 ''investigator-aws'' jd [demo_option] empty_store = Inr None"
    using jd(2) demo_role(2) by (simp add: option_refusal_def)
  then have "gate 7 ''investigator-aws'' demo_body empty_store = Inr (Admit [demo_option])"
    by (simp add: gate_def demo_parsed jd(1) del: first_refusal.simps)
  then show ?thesis
    by (simp add: validate_and_save_options_def op_run insert_option_def empty_store_def)
qed

theorem saved_options_passed_the_gate_witness:
  "\<exists>new. st_options (empty_store\<lparr>st_options := [demo_option\<lparr>op_artifact := 7\<rparr>]\<rparr>) = st_options empty_store @ new \<and>
     length new \<le> 3 \<and> map op_ordinal new = map int [1..<Suc (length new)] \<and>
     list_all (admitted 7 ''investigator-aws'' empty_store) new"
  by (rule saved_options_passed_the_gate [OF demo_saved])

lemma demo_refused:
  "validate_and_save_options 7 ''investigator-aws'' ''prose'' say None s = (Inr (Some (NoBlock ''investigator-aws'')), s)"
proof -
  have np: "parse_options ''prose'' = NoFence"
    by (simp add: parse_options_def open_fence_def starts_with_def fence_def)
  have "(case role_for roles_yaml ''investigator-aws'' of Some jd \<Rightarrow> \<not> allows_no_options jd | None \<Rightarrow> False)" by code_simp
  then show ?thesis
    by (auto simp: validate_and_save_options_def gate_def np op_run emit_def journal_def split: option.splits)
qed

theorem refusal_is_one_event_witness:
  "snd (validate_and_save_options 7 ''investigator-aws'' ''prose'' (\<lambda>_. []) None empty_store) =
   journal None (option_refused (\<lambda>_. []) 7 ''investigator-aws'' (NoBlock ''investigator-aws'')) empty_store"
  using refusal_is_one_event [OF demo_refused] by (simp add: demo_refused)

section \<open>Which block is read\<close>

text \<open>A text holds no fence where no place in it starts three backquotes.\<close>

fun fenceless :: "string \<Rightarrow> bool" where
  "fenceless [] = True"
| "fenceless (c # s) = (\<not> starts_with fence (c # s) \<and> fenceless s)"

lemma starts_with_append: "starts_with (p @ q) s \<Longrightarrow> starts_with p s"
proof -
  assume "starts_with (p @ q) s"
  then have "take (length p) s = take (length p) (p @ q)"
    unfolding starts_with_def by (metis length_append min.absorb1 le_add1 take_take)
  then show "starts_with p s" by (simp add: starts_with_def)
qed

lemma until_fence_skips:
  assumes "fenceless (x @ [CHR 0x60, CHR 0x60])"
  shows "until_fence (x @ fence @ rest) = Some x"
  using assms
proof (induction x)
  case Nil
  then show ?case by (simp add: fence_def starts_with_def)
next
  case (Cons c x)
  have "starts_with fence (c # x @ fence @ rest) \<longleftrightarrow> starts_with fence (c # x @ [CHR 0x60, CHR 0x60])"
    by (cases x; cases "tl x") (auto simp: starts_with_def fence_def)
  then show ?case using Cons by auto
qed

lemma find_block_skips:
  assumes "fenceless (p @ [CHR 0x60, CHR 0x60])" and "s = fence @ t" and "open_fence s = Some b"
  shows "find_block (p @ s) = Some b"
  using assms(1)
proof (induction p)
  case Nil
  then show ?case using assms(2,3) by (simp add: fence_def)
next
  case (Cons c p)
  have "starts_with fence (c # p @ s) \<longleftrightarrow> starts_with fence (c # p @ [CHR 0x60, CHR 0x60])"
    by (cases p; cases "tl p") (auto simp: starts_with_def fence_def assms(2))
  then have "\<not> starts_with fence (c # p @ s)" using Cons.prems by simp
  then have "open_fence (c # p @ s) = None"
    by (auto simp: open_fence_def dest: starts_with_append)
  then show ?case using Cons by auto
qed

text \<open>
  Which block counts. Of a deliverable with two options blocks the gate reads the FIRST: whatever
  follows the first closing fence, the parser answers as if the body had ended there. (The comment
  on the pattern says it finds the last one.)
\<close>

theorem first_block_wins:
  assumes "fenceless (p @ [CHR 0x60, CHR 0x60])" and "fenceless (b @ [CHR 0x60, CHR 0x60])"
  shows "parse_options (p @ fence @ ''options'' @ [CHR 0x0A] @ b @ fence @ rest) =
         parse_options (p @ fence @ ''options'' @ [CHR 0x0A] @ b @ fence)"
proof -
  have "open_fence (fence @ ''options'' @ [CHR 0x0A] @ b @ fence @ r) = Some b" for r
    using until_fence_skips [OF assms(2), of r]
    by (simp add: open_fence_def starts_with_def fence_def)
  then have "find_block (p @ fence @ ''options'' @ [CHR 0x0A] @ b @ fence @ r) = Some b" for r
    by (intro find_block_skips [OF assms(1) refl])
  from this [of rest] this [of "[]"] show ?thesis by (simp add: parse_options_def)
qed

theorem first_block_wins_witness:
  "parse_options (''A: '' @ fence @ ''options'' @ [CHR 0x0A] @ demo_block @ fence @ demo_body) =
   parse_options (''A: '' @ fence @ ''options'' @ [CHR 0x0A] @ demo_block @ fence)"
  by (rule first_block_wins; code_simp)

end
