(* ===== verification/Answers.thy ===== *)
theory Answers
  imports Choices
begin

text \<open>
  What happens to a carried option and around it in \<open>internal/crew\<close>: \<open>answer.go\<close> (a person's
  answer, and for whom it was given), \<open>decision.go\<close> (the owner's decision request),
  \<open>halt.go\<close> (a desk's halt) and \<open>guard.go\<close> (the report of who is past their guard). The names a
  halt suspended are kept as the list they were written from: an analyst's name holds no comma
  and no space, so \<open>strings.Join\<close> and \<open>splitList\<close> give the list back.
\<close>

section \<open>answer.go\<close>

record answer =
  aw_actor :: string
  aw_as :: string
  aw_behalf :: string
  aw_reason :: string

definition answered_as_owner :: string where "answered_as_owner = ''owner''"
definition answered_as_admin :: string where "answered_as_admin = ''admin_on_behalf_of_owner''"
definition behalf_reason_max_bytes :: nat where "behalf_reason_max_bytes = 500"

definition owner_answer :: "string \<Rightarrow> answer" where
  "owner_answer o' = \<lparr>aw_actor = o', aw_as = answered_as_owner, aw_behalf = [], aw_reason = []\<rparr>"

definition admin_answer_for :: "string \<Rightarrow> string \<Rightarrow> string \<Rightarrow> answer" where
  "admin_answer_for admin o' reason =
     \<lparr>aw_actor = admin, aw_as = answered_as_admin, aw_behalf = o', aw_reason = reason\<rparr>"

definition on_behalf :: "answer \<Rightarrow> bool" where
  "on_behalf a \<longleftrightarrow> aw_behalf a \<noteq> []"

fun behalf_scan :: "bool \<Rightarrow> int list \<Rightarrow> answer_fault option" where
  "behalf_scan visible [] = (if visible then None else Some BehalfReasonMissing)"
| "behalf_scan visible (c # cs) =
     (if c = 10 \<or> c = 9 then behalf_scan visible cs
      else if is_control c then Some BehalfReasonControl
      else if c = 0x2028 \<or> c = 0x2029 then Some BehalfReasonLine
      else if 0x202A \<le> c \<and> c \<le> 0x202E \<or> 0x2066 \<le> c \<and> c \<le> 0x2069 then Some BehalfReasonDirection
      else if c \<in> {0x200B, 0x200C, 0x200D, 0xFEFF} then behalf_scan visible cs
      else behalf_scan (visible \<or> \<not> is_space_rune c) cs)"

definition valid_behalf_reason :: "string \<Rightarrow> answer_fault + string" where
  "valid_behalf_reason s =
     (let r = trim_space s in
      if r = [] then Inl BehalfReasonMissing
      else if length r > behalf_reason_max_bytes then Inl (BehalfReasonLong (length r))
      else if \<not> valid_text r then Inl BehalfReasonNotText
      else case behalf_scan False (map rune_value (runes r)) of Some f \<Rightarrow> Inl f | None \<Rightarrow> Inr r)"

definition validate_answer :: "answer \<Rightarrow> answer_fault option" where
  "validate_answer a =
     (if \<not> on_behalf a then (if aw_reason a \<noteq> [] then Some ReasonForNobody else None)
      else if aw_as a \<noteq> answered_as_admin then Some (MustBeMarked (aw_behalf a) (aw_as a))
      else case valid_behalf_reason (aw_reason a) of Inl f \<Rightarrow> Some f | Inr _ \<Rightarrow> None)"

definition answer_ok :: "answer \<Rightarrow> unit op" where
  "answer_ok a = (case validate_answer a of None \<Rightarrow> ok () | Some f \<Rightarrow> fail (BadAnswer f))"

definition trimmed_reason :: "answer \<Rightarrow> string" where
  "trimmed_reason a =
     (if \<not> on_behalf a then []
      else case valid_behalf_reason (aw_reason a) of Inl _ \<Rightarrow> [] | Inr r \<Rightarrow> r)"

definition mark_option_applied_as :: "int \<Rightarrow> int \<Rightarrow> answer \<Rightarrow> unit op" where
  "mark_option_applied_as a k ans =
     andthen (answer_ok ans) (\<lambda>_.
     set_option_state_as a k OptionApplied (aw_actor ans) [] (aw_behalf ans) (trimmed_reason ans))"

definition answer_data :: "answer \<Rightarrow> (string \<times> json) list" where
  "answer_data ans =
     (if aw_as ans = [] then []
      else [(''answered_by'', JString (aw_actor ans)), (''answered_as'', JString (aw_as ans))] @
           (if on_behalf ans then [(''on_behalf_of'', JString (aw_behalf ans)),
                                   (''on_behalf_reason'', JString (trimmed_reason ans))] else []))"

definition refuse_option :: "int \<Rightarrow> int \<Rightarrow> answer \<Rightarrow> string \<Rightarrow> recorder \<Rightarrow> unit op" where
  "refuse_option a k ans reason rec =
     andthen (answer_ok ans) (\<lambda>_.
     andthen (ensure (\<not> blank reason) ErrNeedReason) (\<lambda>_.
     andthen (fetch (get_option a k) ErrNotFound) (\<lambda>x.
     andthen (set_option_state_as a k OptionRefused (aw_actor ans) reason (aw_behalf ans) (trimmed_reason ans)) (\<lambda>_.
     emit rec (mk_event ''option_refused'' (aw_actor ans) ''low''
       ([(''artifact'', JInt a), (''ordinal'', JInt k), (''class'', JString (op_class x)),
         (''reason'', JString reason)] @ answer_data ans))))))"

definition answered_options_for :: "int \<Rightarrow> string \<Rightarrow> store \<Rightarrow> option_row list" where
  "answered_options_for sprint owner s =
     sort_key (\<lambda>x. map byte (op_decided_at x)) (in_order (filter (\<lambda>x.
       op_state x \<in> {OptionApplied, OptionRefused} \<and> op_decided_by x \<noteq> ''supervisor'' \<and>
       homed (\<lambda>a t. tk_sprint t = sprint \<and> tk_owner t = owner) x s) (st_options s)))"

section \<open>decision.go\<close>

definition supervisor_task_title :: string where "supervisor_task_title = ''Decision requests''"

definition ensure_task :: "int \<Rightarrow> string \<Rightarrow> string \<Rightarrow> string \<Rightarrow> string \<Rightarrow> cents \<Rightarrow> int op" where
  "ensure_task sprint title goal assignee desk budget = (\<lambda>s.
     case find (\<lambda>t. tk_sprint t = sprint \<and> tk_assignee t = Some assignee \<and> tk_title t = title) (st_tasks s) of
       Some t \<Rightarrow> (Inr (tk_id t), s)
     | None \<Rightarrow>
         let t = new_task sprint title goal assignee desk (state_for assignee) budget None s
         in (Inr (tk_id t), insert_task t s))"

definition ensure_supervisor_task :: "int \<Rightarrow> int op" where
  "ensure_supervisor_task sprint =
     ensure_task sprint supervisor_task_title
       (''Route what this sprint'' @ [CHR 0x27] @ ''s deliverables handed up: apply what the supervisor'' @ [CHR 0x27] @
        ''s own job description decides, and ask the owner for the rest.'')
       ''supervisor'' ''management'' 0"

definition request_row :: "int \<Rightarrow> string \<Rightarrow> store \<Rightarrow> request option" where
  "request_row sprint owner s = find (\<lambda>r. rq_sprint r = sprint \<and> rq_owner r = owner) (st_requests s)"

definition decision_request_for :: "int \<Rightarrow> string \<Rightarrow> store \<Rightarrow> int option" where
  "decision_request_for sprint owner s = map_option rq_artifact (request_row sprint owner s)"

definition existing_lapses :: "int \<Rightarrow> string \<Rightarrow> store \<Rightarrow> string option" where
  "existing_lapses sprint owner s = map_option rq_lapses (request_row sprint owner s)"

definition new_request :: "int \<Rightarrow> string \<Rightarrow> string \<Rightarrow> string \<Rightarrow> int \<Rightarrow> int op" where
  "new_request sprint owner body lapses task =
     andthen (query (\<lambda>s. next_id (map ar_id (st_artifacts s)))) (\<lambda>i.
     andthen (exec (\<lambda>s. s\<lparr>st_artifacts := st_artifacts s @
        [\<lparr>ar_id = i, ar_task = task, ar_author = ''supervisor'', ar_title = ''Decision request for '' @ owner,
          ar_body = body, ar_state = Draft, ar_reason = [], ar_created = sql_now s, ar_stamped = [],
          ar_stamper = []\<rparr>]\<rparr>)) (\<lambda>_.
     andthen (query (\<lambda>s. \<exists>r \<in> set (st_requests s). rq_artifact r = i)) (\<lambda>dup.
     andthen (ensure (\<not> dup) DuplicateKey) (\<lambda>_.
     andthen (exec (\<lambda>s. s\<lparr>st_requests := st_requests s @
        [\<lparr>rq_artifact = i, rq_sprint = sprint, rq_owner = owner, rq_lapses = lapses\<rparr>]\<rparr>)) (\<lambda>_.
     ok i)))))"

definition write_decision_request :: "int \<Rightarrow> string \<Rightarrow> string \<Rightarrow> string \<Rightarrow> int op" where
  "write_decision_request sprint owner body lapses =
     andthen (query (decision_request_for sprint owner)) (\<lambda>known.
     case known of
       Some i \<Rightarrow>
         andthen (exec (update_artifact i (\<lambda>a. a\<lparr>ar_body := body, ar_state := Draft\<rparr>))) (\<lambda>_. ok i)
     | None \<Rightarrow> andthen (ensure_supervisor_task sprint) (new_request sprint owner body lapses))"

definition post_decision_request_if_complete :: "int \<Rightarrow> string \<Rightarrow> unit op" where
  "post_decision_request_if_complete sprint owner =
     andthen (query (carried_options_for sprint owner)) (\<lambda>remaining.
     if remaining \<noteq> [] then ok ()
     else andthen (query (decision_request_for sprint owner)) (\<lambda>known.
       case known of None \<Rightarrow> ok ()
       | Some i \<Rightarrow> exec (\<lambda>s. s\<lparr>st_artifacts := update_where (\<lambda>a. ar_id a = i \<and> ar_state a \<noteq> PostedDraft)
           (\<lambda>a. a\<lparr>ar_state := PostedDraft, ar_stamped := sql_now s, ar_stamper := owner\<rparr>) (st_artifacts s)\<rparr>)))"

section \<open>halt.go\<close>

definition active_halt :: "string \<Rightarrow> store \<Rightarrow> desk_halt option" where
  "active_halt desk s = find (\<lambda>h. dh_desk h = desk) (st_halts s)"

definition halts :: "store \<Rightarrow> desk_halt list" where
  "halts s = sort_key (\<lambda>h. map byte (dh_desk h)) (st_halts s)"

definition state_changed :: "string \<Rightarrow> string \<Rightarrow> string \<Rightarrow> string \<Rightarrow> string \<Rightarrow> event" where
  "state_changed n sev st reason by =
     mk_event ''agent_state_changed'' n sev [(''analyst'', JString n), (''state'', JString st),
       (''reason'', JString reason), (''by'', JString by)]"

definition halted_by :: "string \<Rightarrow> store \<Rightarrow> string list" where
  "halted_by desk s = map an_name (filter (\<lambda>a. an_desk a = desk \<and> an_state a = ''active'') (roster s))"

text \<open>\<open>ApplyHalt\<close>: the names it suspended, or None where the desk was halted already.\<close>

definition apply_halt :: "string \<Rightarrow> string \<Rightarrow> string \<Rightarrow> string \<Rightarrow> string \<Rightarrow> recorder \<Rightarrow> string list option op" where
  "apply_halt raw reason by owner day rec =
     (let desk = trim_space raw in
     andthen (ensure (desk \<noteq> []) HaltNamesNoDesk) (\<lambda>_.
     andthen (ensure (\<not> blank reason) ErrNeedReason) (\<lambda>_.
     andthen (query (active_halt desk)) (\<lambda>h.
     if h \<noteq> None then ok None
     else
       andthen (query (halted_by desk)) (\<lambda>ns.
       andthen (each (\<lambda>n. andthen (set_state n ''suspended'' reason) (\<lambda>_.
                   emit rec (state_changed n ''high'' ''suspended'' reason by))) ns) (\<lambda>_.
       andthen (exec (\<lambda>s. s\<lparr>st_halts := st_halts s @
          [\<lparr>dh_desk = desk, dh_reason = reason, dh_started = day, dh_applied_by = by, dh_owner = owner,
            dh_suspended = ns\<rparr>]\<rparr>)) (\<lambda>_.
       ok (Some ns))))))))"

definition lift_halt :: "string \<Rightarrow> string \<Rightarrow> string \<Rightarrow> recorder \<Rightarrow> string list op" where
  "lift_halt desk reason by rec =
     andthen (ensure (\<not> blank reason) ErrNeedReason) (\<lambda>_.
     andthen (fetch (active_halt desk) (NotHalted desk)) (\<lambda>h.
     andthen (each (\<lambda>n. andthen (set_state n ''active'' []) (\<lambda>_.
                 emit rec (state_changed n ''info'' ''active'' reason by))) (dh_suspended h)) (\<lambda>_.
     andthen (exec (\<lambda>s. s\<lparr>st_halts := filter (\<lambda>h. dh_desk h \<noteq> desk) (st_halts s)\<rparr>)) (\<lambda>_.
     ok (dh_suspended h)))))"

section \<open>guard.go\<close>

definition guard_severity :: "cents \<Rightarrow> cents \<Rightarrow> string" where
  "guard_severity spent monthly =
     (if spent \<ge> wrap64 (monthly * 2) then ''high''
      else if spent \<ge> wrap64 (monthly * 3) sdiv 2 then ''medium'' else ''low'')"

definition guard_event :: "string \<Rightarrow> analyst \<Rightarrow> cents \<Rightarrow> event" where
  "guard_event month a spent =
     (let over = cents_sub spent (an_monthly a) in
      mk_event ''guard_passed'' (an_name a) (guard_severity spent (an_monthly a))
        [(''analyst'', JString (an_name a)), (''month'', JString month), (''desk'', JString (an_desk a)),
         (''owner'', JString (an_owner a)), (''guard'', JString (cents_string (an_monthly a))),
         (''spent'', JString (cents_string spent)), (''over'', JString (cents_string over)),
         (''over_cents'', JInt over),
         (''over_percent'', JString (append_int (round_even (f64 (f64 (f64 (of_int over) / f64 (of_int (an_monthly a))) * 100))))),
         (''enforced'', JBool False),
         (''note'', JString ''This console records the guard; it does not enforce it. Nothing was refused.'')])"

definition past_guard :: "string \<Rightarrow> store \<Rightarrow> (analyst \<times> cents) list" where
  "past_guard month s =
     filter (\<lambda>(a, spent). 0 < an_monthly a \<and> an_monthly a < spent)
       (map (\<lambda>a. (a, spend_in_month month s (an_name a))) (roster s))"

text \<open>The recorder's error, unlike elsewhere, stops the report.\<close>

definition check_guards :: "string \<Rightarrow> recorder \<Rightarrow> (nat \<times> cents) op" where
  "check_guards month rec =
     (case rec of None \<Rightarrow> ok (0, 0)
      | Some takes \<Rightarrow>
          andthen (query (past_guard month)) (\<lambda>ps.
          andthen (each (\<lambda>(a, spent).
              andthen (ensure (takes (guard_event month a spent)) RecorderFailed) (\<lambda>_.
              emit rec (guard_event month a spent))) ps) (\<lambda>_.
          ok (length ps, cents_sum (map (\<lambda>(a, spent). cents_sub spent (an_monthly a)) ps)))))"

end
