(* ===== verification/Forecast.thy ===== *)
theory Forecast
  imports Anomaly Chargeback
begin

text \<open>
  \<open>internal/finops/forecast.go\<close> and \<open>announced.go\<close>: the run rate, the projection that knows a
  desk's drivers, freezing it, scoring it when the month has closed, and what an announced change
  turned out to be. A Go map from days is an association list with one entry a day; only sums
  and counts are taken over it. Two driver lines with one start and one label keep the registry's
  order (\<open>sort.Slice\<close> leaves it open).
\<close>

section \<open>Days\<close>

text \<open>A \<open>time.Duration\<close> saturates at 106751 whole days.\<close>

definition days_apart :: "int \<Rightarrow> int \<Rightarrow> int" where
  "days_apart a b = max (- 106751) (min 106751 (b - a))"

definition signed_days :: "string \<Rightarrow> string \<Rightarrow> int" where
  "signed_days from to =
     (case parse_date from of None \<Rightarrow> 0
      | Some a \<Rightarrow> (case parse_date to of None \<Rightarrow> 0 | Some b \<Rightarrow> days_apart a b))"

definition inclusive_days_between :: "string \<Rightarrow> string \<Rightarrow> int" where
  "inclusive_days_between from to =
     (case parse_date from of None \<Rightarrow> 1
      | Some a \<Rightarrow> (case parse_date to of None \<Rightarrow> 1 | Some b \<Rightarrow> max 1 (days_apart a b + 1)))"

definition days_in_month :: "string \<Rightarrow> int" where
  "days_in_month period =
     (case parse_date (period @ ''-01'') of None \<Rightarrow> 30
      | Some _ \<Rightarrow> days_in (decimal (take 2 (drop 5 period))) (decimal (take 4 period)))"

definition next_day :: "string \<Rightarrow> string" where
  "next_day day = shift_day day 1"

text \<open>\<open>for day := start; day <= end; day = nextDay(day)\<close>: None where it does not end.\<close>

partial_function (option) window_days :: "string \<Rightarrow> string \<Rightarrow> string list option" where
  [code]: "window_days day until =
     (if str_lt until day then Some []
      else Option.bind (window_days (next_day day) until) (\<lambda>ds. Some (day # ds)))"

definition month_first :: "string \<Rightarrow> string" where
  "month_first period = period @ ''-01''"

definition month_last :: "string \<Rightarrow> string" where
  "month_last period = period @ ''-'' @ fmt_int 2 (days_in_month period)"

definition driver_window_in_month :: "driver \<Rightarrow> string \<Rightarrow> string \<Rightarrow> (string \<times> string) option" where
  "driver_window_in_month d first final =
     (if str_lt (dr_end d) (dr_start d) then None
      else let start = (if str_lt (dr_start d) first then first else dr_start d);
               until = (if str_lt final (dr_end d) then final else dr_end d)
           in if str_lt until start then None else Some (start, until))"

section \<open>The run rate\<close>

definition landed_by :: "string \<Rightarrow> string \<Rightarrow> charge \<Rightarrow> bool" where
  "landed_by period cutoff c \<longleftrightarrow> take 7 (ch_day c) = period \<and> str_le (take 2 (drop 8 (ch_day c))) cutoff"

definition cut_of :: "int \<Rightarrow> string" where
  "cut_of through = fmt_int 2 (if through < 1 then 1 else through)"

definition desks_in_period :: "string \<Rightarrow> string \<Rightarrow> store \<Rightarrow> string list" where
  "desks_in_period period cutoff s = sort_names (map ch_source (filter (landed_by period cutoff) (st_charges s)))"

definition source_total :: "string \<Rightarrow> string \<Rightarrow> string \<Rightarrow> store \<Rightarrow> cents" where
  "source_total period cutoff src s =
     cents_sum (map ch_billed (filter (\<lambda>c. landed_by period cutoff c \<and> ch_source c = src) (st_charges s)))"

definition source_days :: "string \<Rightarrow> string \<Rightarrow> string \<Rightarrow> store \<Rightarrow> nat" where
  "source_days period cutoff src s =
     length (charge_days (\<lambda>c. landed_by period cutoff c \<and> ch_source c = src) s)"

definition days_landed :: "string \<Rightarrow> string \<Rightarrow> store \<Rightarrow> int" where
  "days_landed period cutoff s =
     int (foldl max 0 (map (\<lambda>src. source_days period cutoff src s) (desks_in_period period cutoff s)))"

definition run_rate :: "cents \<Rightarrow> int \<Rightarrow> int \<Rightarrow> cents" where
  "run_rate sofar over landed = wrap64 (sofar * over) sdiv landed"

definition project_as_at :: "string \<Rightarrow> int \<Rightarrow> store \<Rightarrow> err + (string \<times> cents) list \<times> string" where
  "project_as_at period through s =
     (let cutoff = cut_of through; n = days_landed period cutoff s; m = days_in_month period in
      if n = 0 then Inl (NoChargeData period)
      else Inr (map (\<lambda>src. (src, run_rate (source_total period cutoff src s) m n)) (desks_in_period period cutoff s),
                ''run rate over the '' @ append_int n @ '' days of '' @ period @
                '' that have data, extended to '' @ append_int m))"

definition project :: "string \<Rightarrow> store \<Rightarrow> err + (string \<times> cents) list \<times> string" where
  "project period s = project_as_at period 31 s"

section \<open>The projection with drivers\<close>

definition day_cents :: "string \<Rightarrow> string \<Rightarrow> string \<Rightarrow> string \<Rightarrow> store \<Rightarrow> (string \<times> cents) list" where
  "day_cents source service period cutoff s =
     day_sums (\<lambda>c. ch_source c = source \<and> landed_by period cutoff c \<and> (service \<noteq> [] \<longrightarrow> ch_service c = service)) s"

definition team_day_cents ::
  "string \<Rightarrow> string \<Rightarrow> string \<Rightarrow> string \<Rightarrow> string \<Rightarrow> store \<Rightarrow> (string \<times> cents) list" where
  "team_day_cents source service team period cutoff s =
     day_sums (\<lambda>c. ch_source c = source \<and> ch_service c = service \<and> ch_team c = team \<and> landed_by period cutoff c) s"

definition decision_day_cents :: "driver \<Rightarrow> string \<Rightarrow> string \<Rightarrow> store \<Rightarrow> (string \<times> cents) list" where
  "decision_day_cents d period cutoff s =
     (if dr_kind d = ''announced'' \<and> dr_team d \<noteq> []
      then team_day_cents (dr_source d) (dr_scope d) (dr_team d) period cutoff s
      else day_cents (dr_source d) (dr_scope d) period cutoff s)"

record driver_line =
  li_label :: string
  li_kind :: string
  li_start :: string
  li_end :: string
  li_effect :: cents
  li_daily :: "cents option"

text \<open>A driver that reaches into the month: its clipped window, and its own days unless it is wide.\<close>

record applied =
  ap_driver :: driver
  ap_start :: string
  ap_end :: string
  ap_scoped :: "(string \<times> cents) list option"

definition overlapping :: "string \<Rightarrow> string \<Rightarrow> string \<Rightarrow> store \<Rightarrow> applied list" where
  "overlapping desk period cutoff s =
     List.map_filter (\<lambda>d.
       if dr_source d \<noteq> desk then None
       else map_option (\<lambda>(a, b). \<lparr>ap_driver = d, ap_start = a, ap_end = b,
              ap_scoped = (if dr_scope d = ''*'' then None else Some (decision_day_cents d period cutoff s))\<rparr>)
            (driver_window_in_month d (month_first period) (month_last period)))
       (drivers s)"

fun wide_days :: "applied list \<Rightarrow> string list option" where
  "wide_days [] = Some []"
| "wide_days (a # as) =
     (if ap_scoped a \<noteq> None then wide_days as
      else case window_days (ap_start a) (ap_end a) of None \<Rightarrow> None
           | Some ds \<Rightarrow> map_option ((@) ds) (wide_days as))"

definition inside :: "applied \<Rightarrow> string \<Rightarrow> bool" where
  "inside a day \<longleftrightarrow> str_le (ap_start a) day \<and> str_le day (ap_end a)"

definition day_of :: "(string \<times> cents) list \<Rightarrow> string \<Rightarrow> cents" where
  "day_of ds day = (case map_of ds day of None \<Rightarrow> 0 | Some v \<Rightarrow> v)"

definition clean_day :: "applied list \<Rightarrow> string \<times> cents \<Rightarrow> cents" where
  "clean_day as dv =
     wrap64 (snd dv - sum_list (map (\<lambda>a. case ap_scoped a of None \<Rightarrow> 0
                                   | Some ds \<Rightarrow> if inside a (fst dv) then day_of ds (fst dv) else 0) as))"

definition line_effect :: "(string \<times> cents) list \<Rightarrow> applied \<Rightarrow> cents" where
  "line_effect by_day a =
     (let hit = filter (\<lambda>dv. inside a (fst dv)) (case ap_scoped a of None \<Rightarrow> by_day | Some ds \<Rightarrow> ds);
          n = inclusive_days_between (ap_start a) (ap_end a)
      in if hit \<noteq> [] then run_rate (cents_sum (map snd hit)) n (int (length hit))
         else case dr_expected (ap_driver a) of
                Some e \<Rightarrow> if dr_kind (ap_driver a) = ''announced'' then wrap64 (e * n) else 0
              | None \<Rightarrow> 0)"

definition line_of :: "(string \<times> cents) list \<Rightarrow> applied \<Rightarrow> driver_line" where
  "line_of by_day a =
     \<lparr>li_label = dr_label (ap_driver a), li_kind = dr_kind (ap_driver a), li_start = ap_start a, li_end = ap_end a,
      li_effect = line_effect by_day a,
      li_daily = (if dr_kind (ap_driver a) = ''announced'' then dr_expected (ap_driver a) else None)\<rparr>"

definition line_text :: "driver_line \<Rightarrow> string" where
  "line_text l =
     (case li_daily l of
        Some d \<Rightarrow> li_label l @ '' (announced, '' @ li_start l @ '' to '' @ li_end l @ '', '' @ cents_string d @
                  ''/day, effect '' @ cents_string (li_effect l) @ '')''
      | None \<Rightarrow> li_label l @ '' ('' @ li_kind l @ '', '' @ li_start l @ '' to '' @ li_end l @ '', '' @
                cents_string (li_effect l) @ '')'')"

text \<open>The arithmetic, once the excluded days are known: the clean part, then every driver's line.\<close>

definition clean_part :: "string \<Rightarrow> (string \<times> cents) list \<Rightarrow> applied list \<Rightarrow> string list \<Rightarrow> cents \<times> string" where
  "clean_part period by_day as wide =
     (let days = filter (\<lambda>dv. fst dv \<notin> set wide) by_day;
          rest = days_in_month period - int (length (remdups wide))
      in if days \<noteq> [] \<and> rest > 0
         then (run_rate (cents_sum (map (clean_day as) days)) rest (int (length days)),
               ''run rate over the '' @ append_int (int (length days)) @ '' non-driver days of '' @ period @
               '' that have data, extended to '' @ append_int rest)
         else (0, ''every day of '' @ period @ '' that has landed falls inside a driver'' @ [CHR 0x27] @ ''s own window''))"

definition sort_lines :: "driver_line list \<Rightarrow> driver_line list" where
  "sort_lines ls = sort_key (\<lambda>l. map byte (li_start l)) (sort_key (\<lambda>l. map byte (li_label l)) ls)"

definition price_month ::
  "string \<Rightarrow> (string \<times> cents) list \<Rightarrow> applied list \<Rightarrow> string list \<Rightarrow> cents \<times> string \<times> driver_line list" where
  "price_month period by_day as wide =
     (let (clean, basis) = clean_part period by_day as wide;
          ls = map (line_of by_day) as; sorted = sort_lines ls
      in (wrap64 (clean + cents_sum (map li_effect ls)),
          (if ls = [] then basis
           else basis @ ''; drivers applied: '' @ join '', '' (map line_text sorted)), sorted))"

definition project_with_drivers_as_at ::
  "string \<Rightarrow> string \<Rightarrow> int \<Rightarrow> store \<Rightarrow> err + cents \<times> string \<times> driver_line list" where
  "project_with_drivers_as_at desk period through s =
     (let cutoff = cut_of through; by_day = day_cents desk [] period cutoff s; as = overlapping desk period cutoff s in
      if by_day = [] then Inl (NoChargeData period)
      else case wide_days as of None \<Rightarrow> Inl NeverReturns
           | Some wide \<Rightarrow> Inr (price_month period by_day as wide))"

definition project_with_drivers :: "string \<Rightarrow> string \<Rightarrow> store \<Rightarrow> err + cents \<times> string \<times> driver_line list" where
  "project_with_drivers desk period s = project_with_drivers_as_at desk period 31 s"

section \<open>Freezing\<close>

definition is_frozen :: "string \<Rightarrow> store \<Rightarrow> bool" where
  "is_frozen period s \<longleftrightarrow> (\<exists>f \<in> set (st_forecasts s). fc_period f = period)"

definition freeze_desk :: "string \<Rightarrow> string \<Rightarrow> int \<Rightarrow> string \<Rightarrow> store \<Rightarrow> err + forecast" where
  "freeze_desk period by through desk s =
     (case project_with_drivers_as_at desk period through s of
        Inl e \<Rightarrow> Inl e
      | Inr (figure, basis, _) \<Rightarrow> Inr \<lparr>fc_period = period, fc_source = desk, fc_cents = figure, fc_basis = basis,
          fc_frozen_at = st_now s, fc_frozen_by = by\<rparr>)"

text \<open>One transaction: the rows of every desk, or none.\<close>

definition freeze_as_at :: "string \<Rightarrow> string \<Rightarrow> int \<Rightarrow> unit op" where
  "freeze_as_at period by through =
     andthen (query (is_frozen period)) (\<lambda>frozen.
     andthen (ensure (\<not> frozen) (AlreadyFrozen period)) (\<lambda>_.
     andthen (query (desks_in_period period (cut_of through))) (\<lambda>ds.
     andthen (ensure (ds \<noteq> []) (NoChargeData period)) (\<lambda>_.
     andthen (collect (\<lambda>d. attempt (freeze_desk period by through d)) ds) (\<lambda>rows.
     exec (\<lambda>s. s\<lparr>st_forecasts := st_forecasts s @ rows\<rparr>))))))"

definition freeze :: "string \<Rightarrow> string \<Rightarrow> unit op" where
  "freeze period by = freeze_as_at period by 31"

definition set_forecast_basis :: "string \<Rightarrow> string \<Rightarrow> unit op" where
  "set_forecast_basis period basis =
     (if basis = [] then ok ()
      else exec (\<lambda>s. s\<lparr>st_forecasts := update_where (\<lambda>f. fc_period f = period) (\<lambda>f. f\<lparr>fc_basis := basis\<rparr>)
                         (st_forecasts s)\<rparr>))"

definition open_period :: "store \<Rightarrow> string" where
  "open_period s = (case max_text (map (\<lambda>c. take 7 (ch_day c)) (st_charges s)) of None \<Rightarrow> [] | Some m \<Rightarrow> m)"

definition frozen_periods :: "store \<Rightarrow> string list" where
  "frozen_periods s = rev (sort_names (map fc_period (st_forecasts s)))"

section \<open>Scoring\<close>

record scored =
  sc_row :: forecast
  sc_actual :: cents
  sc_has_act :: bool
  sc_error_pct :: rat
  sc_grade :: string

definition grade :: "rat \<Rightarrow> string" where
  "grade e = (if e \<le> 12 then ''trusted'' else if e \<le> 15 then ''working'' else if e \<le> 20 then ''starting'' else ''off'')"

definition actual_of :: "string \<Rightarrow> string \<Rightarrow> store \<Rightarrow> cents" where
  "actual_of period source s =
     cents_sum (map ch_billed (filter (\<lambda>c. take 7 (ch_day c) = period \<and> ch_source c = source) (st_charges s)))"

definition error_pct :: "cents \<Rightarrow> cents \<Rightarrow> rat" where
  "error_pct actual forecast =
     f64 (f64 (\<bar>f64 (of_int (cents_sub actual forecast))\<bar> / \<bar>f64 (of_int forecast)\<bar>) * 100)"

definition score :: "string \<Rightarrow> store \<Rightarrow> forecast \<Rightarrow> scored" where
  "score open_p s f =
     (if str_le open_p (fc_period f)
      then \<lparr>sc_row = f, sc_actual = 0, sc_has_act = False, sc_error_pct = 0, sc_grade = []\<rparr>
      else
        let a = actual_of (fc_period f) (fc_source f) s in
        if fc_cents f = 0
        then \<lparr>sc_row = f, sc_actual = a, sc_has_act = True, sc_error_pct = 0, sc_grade = []\<rparr>
        else \<lparr>sc_row = f, sc_actual = a, sc_has_act = True, sc_error_pct = error_pct a (fc_cents f),
              sc_grade = grade (error_pct a (fc_cents f))\<rparr>)"

definition forecasts :: "string \<Rightarrow> store \<Rightarrow> scored list" where
  "forecasts open_p s =
     map (score open_p s) (rev (sort_key (\<lambda>f. map byte (fc_period f))
       (rev (sort_key (\<lambda>f. map byte (fc_source f)) (st_forecasts s)))))"

definition scorable :: "scored \<Rightarrow> bool" where
  "scorable x \<longleftrightarrow> sc_has_act x \<and> fc_cents (sc_row x) \<noteq> 0"

definition accuracy :: "string \<Rightarrow> store \<Rightarrow> (rat \<times> nat) option" where
  "accuracy open_p s =
     (let xs = filter scorable (forecasts open_p s) in
      if xs = [] then None
      else Some (f64 (foldl (\<lambda>t x. f64 (t + sc_error_pct x)) 0 xs / of_nat (length xs)), length xs))"

section \<open>What an announced change turned out to be\<close>

record team_share =
  ts_team :: string
  ts_median :: cents
  ts_percent :: rat
  ts_expected :: cents

record announced_effect =
  ae_label :: string
  ae_source :: string
  ae_scope :: string
  ae_start :: string
  ae_end :: string
  ae_announced :: cents
  ae_measured :: cents
  ae_days :: nat
  ae_answered :: bool
  ae_days_before :: int
  ae_split :: "team_share list"

definition announced_split :: "driver \<Rightarrow> cents \<Rightarrow> store \<Rightarrow> team_share list" where
  "announced_split d e s =
     (let ms = team_spend_medians (dr_source d) (dr_scope d) (dr_start d) s;
          parts = split_by_median e ms; all_of = cents_sum (map snd ms)
      in map (\<lambda>(t, m). \<lparr>ts_team = t, ts_median = m,
            ts_percent = (if all_of > 0 then f64 (f64 (f64 (of_int m) * 100) / f64 (of_int all_of)) else 0),
            ts_expected = (case map_of parts t of None \<Rightarrow> 0 | Some v \<Rightarrow> v)\<rparr>) ms)"

text \<open>The newest applied option that carries the label.\<close>

definition announced_answer :: "string \<Rightarrow> store \<Rightarrow> string option" where
  "announced_answer label s =
     (case max_text [op_decided_at x. x \<leftarrow> st_options s,
              op_class x = ''driver.announced'' \<and> op_state x = OptionApplied \<and> op_summary x = label] of
        None \<Rightarrow> None
      | Some d \<Rightarrow> if length d < 10 then None else Some (take 10 d))"

definition measured_effect :: "driver \<Rightarrow> string \<Rightarrow> string \<Rightarrow> string \<Rightarrow> store \<Rightarrow> cents \<times> nat" where
  "measured_effect d start until period s =
     (case spend_median (dr_source d) (dr_scope d) (dr_team d) (dr_start d) s of
        None \<Rightarrow> (0, 0)
      | Some base \<Rightarrow>
          let hit = filter (\<lambda>dv. str_le start (fst dv) \<and> str_le (fst dv) until)
                      (decision_day_cents d period ''31'' s)
          in if hit = [] then (0, 0)
             else (cents_sum (map (\<lambda>dv. cents_sub (snd dv) base) hit) sdiv int (length hit), length hit))"

definition effect_row :: "driver \<Rightarrow> cents \<Rightarrow> cents \<times> nat \<Rightarrow> string option \<Rightarrow> store \<Rightarrow> announced_effect" where
  "effect_row d e m answered s =
     \<lparr>ae_label = dr_label d, ae_source = dr_source d, ae_scope = dr_scope d, ae_start = dr_start d,
      ae_end = dr_end d, ae_announced = e, ae_measured = fst m, ae_days = snd m,
      ae_answered = (answered \<noteq> None),
      ae_days_before = (case answered of None \<Rightarrow> 0 | Some day \<Rightarrow> signed_days day (dr_start d)),
      ae_split = (if dr_team d = [] then announced_split d e s else [])\<rparr>"

definition effect_of :: "string \<Rightarrow> driver \<Rightarrow> store \<Rightarrow> announced_effect option" where
  "effect_of period d s =
     (case dr_expected d of None \<Rightarrow> None
      | Some e \<Rightarrow>
          if dr_kind d \<noteq> ''announced'' then None
          else case driver_window_in_month d (month_first period) (month_last period) of None \<Rightarrow> None
               | Some (a, b) \<Rightarrow>
                   Some (effect_row d e (measured_effect d a b period s) (announced_answer (dr_label d) s) s))"

definition effect_gap :: "announced_effect \<Rightarrow> cents" where
  "effect_gap e = (if ae_days e = 0 then 0 else cents_abs (cents_sub (ae_measured e) (ae_announced e)))"

definition announced_effects :: "string \<Rightarrow> store \<Rightarrow> announced_effect list" where
  "announced_effects period s =
     sort_key (\<lambda>e. ae_days e = 0) (sort_key (\<lambda>e. - effect_gap e)
       (sort_key (\<lambda>e. map byte (ae_source e)) (sort_key (\<lambda>e. map byte (ae_label e))
         (List.map_filter (\<lambda>d. effect_of period d s) (drivers s)))))"

definition announced_effect_of :: "string \<Rightarrow> string \<Rightarrow> store \<Rightarrow> err + announced_effect option" where
  "announced_effect_of label source s =
     (case find (\<lambda>d. dr_kind d = ''announced'' \<and> dr_expected d \<noteq> None \<and> dr_label d = label \<and> dr_source d = source)
             (drivers s) of
        None \<Rightarrow> Inr None
      | Some d \<Rightarrow>
          if length (dr_start d) < 7 then Inr None
          else case find (\<lambda>e. ae_label e = label \<and> ae_source e = source \<and> ae_start e = dr_start d)
                      (announced_effects (take 7 (dr_start d)) s) of
                 None \<Rightarrow> Inl (NotCounted label source)
               | Some e \<Rightarrow> Inr (Some e))"

section \<open>Misses\<close>

fun text_contains :: "string \<Rightarrow> string \<Rightarrow> bool" where
  "text_contains [] p = (p = [])"
| "text_contains (c # s) p = (take (length p) (c # s) = p \<or> text_contains s p)"

text \<open>A label's place among the effects with a measured figure; the last one of a name counts.\<close>

fun effect_rank :: "announced_effect list \<Rightarrow> nat \<Rightarrow> nat \<Rightarrow> driver \<Rightarrow> nat" where
  "effect_rank [] i best d = best"
| "effect_rank (e # es) i best d =
     effect_rank es (Suc i)
       (if ae_days e \<noteq> 0 \<and> ae_source e = dr_source d \<and> ae_label e = dr_label d then i else best) d"

definition missed :: "string \<Rightarrow> string \<Rightarrow> string \<Rightarrow> store \<Rightarrow> driver list" where
  "missed desk period basis s =
     (let es = announced_effects period s in
      sort_key (effect_rank es 0 (length es))
        (filter (\<lambda>d. dr_source d = desk \<and>
            driver_window_in_month d (month_first period) (month_last period) \<noteq> None \<and>
            \<not> text_contains basis (dr_label d)) (drivers s)))"

definition gap_cents :: "scored \<Rightarrow> cents" where
  "gap_cents x = cents_abs (cents_sub (sc_actual x) (fc_cents (sc_row x)))"

definition worse_miss :: "scored \<Rightarrow> scored \<Rightarrow> bool" where
  "worse_miss a b =
     (if sc_error_pct a \<noteq> sc_error_pct b then sc_error_pct a > sc_error_pct b
      else if gap_cents a \<noteq> gap_cents b then gap_cents a > gap_cents b
      else if fc_period (sc_row a) \<noteq> fc_period (sc_row b) then str_lt (fc_period (sc_row b)) (fc_period (sc_row a))
      else str_lt (fc_source (sc_row a)) (fc_source (sc_row b)))"

definition top_miss :: "scored list \<Rightarrow> scored option" where
  "top_miss xs =
     foldl (\<lambda>top x. case top of None \<Rightarrow> Some x | Some t \<Rightarrow> if worse_miss x t then Some x else top) None xs"

definition largest_miss :: "string \<Rightarrow> store \<Rightarrow> (scored \<times> driver list) option" where
  "largest_miss open_p s =
     map_option (\<lambda>x. (x, missed (fc_source (sc_row x)) (fc_period (sc_row x)) (fc_basis (sc_row x)) s))
       (top_miss (filter scorable (forecasts open_p s)))"

end
