(* ===== verification/Apply.thy ===== *)
theory Apply
  imports Answers Forecast
begin

text \<open>
  \<open>internal/finops/apply.go\<close>: what applying an option does. One operation per decision class that
  has a side effect, the table that picks it, and \<open>ApplyAs\<close>, which resolves the whole choice of
  the deliverable: the option applied, every live rival not chosen, one event journaled.
\<close>

section \<open>Side effects\<close>

definition owner_of_option :: "option_row \<Rightarrow> store \<Rightarrow> err + string" where
  "owner_of_option x s =
     (case task_of_artifact (op_artifact x) s of None \<Rightarrow> Inl ErrNotFound
      | Some k \<Rightarrow> (case task_owner k s of None \<Rightarrow> Inl ErrNotFound
                   | Some w \<Rightarrow> Inr (if w = [] then ''unclaimed'' else w)))"

definition option_name :: "option_row \<Rightarrow> string" where
  "option_name x = append_int (op_ordinal x)"

definition apply_halt_option :: "option_row \<Rightarrow> string \<Rightarrow> recorder \<Rightarrow> unit op" where
  "apply_halt_option x actor rec =
     (let desk = trim_space (op_needs x);
          reason = (if blank (op_summary x)
                    then ''data.halt applied on option '' @ option_name x @ '', no reason given in the deliverable''
                    else trim_space (op_summary x))
      in andthen (ensure (desk \<noteq> []) (OptionNamesNoDesk (op_ordinal x))) (\<lambda>_.
         andthen (attempt (owner_of_option x)) (\<lambda>owner.
         andthen (query today) (\<lambda>day.
         andthen (apply_halt desk reason actor owner day rec) (\<lambda>_. ok ())))))"

definition apply_explainer_publish :: "option_row \<Rightarrow> string \<Rightarrow> unit op" where
  "apply_explainer_publish x actor =
     andthen (fetch (get_artifact (op_artifact x)) ErrNotFound) (\<lambda>art.
     andthen (publish_artifact ''leadership''
        (if blank (op_summary x) then ar_title art else trim_space (op_summary x))
        ''leadership'' (ar_author art) (ar_body art) (op_figure x) actor) (\<lambda>_. ok ()))"

definition put_unit_rule :: "unit_rule \<Rightarrow> unit_rule list \<Rightarrow> unit_rule list" where
  "put_unit_rule r rs =
     (if \<exists>q \<in> set rs. ur_unit q = ur_unit r then update_where (\<lambda>q. ur_unit q = ur_unit r) (\<lambda>_. r) rs else rs @ [r])"

definition apply_unit_rule :: "option_row \<Rightarrow> string \<Rightarrow> string \<Rightarrow> string \<Rightarrow> unit op" where
  "apply_unit_rule x unit bu actor =
     andthen (query (unit_rule_refusal unit)) (\<lambda>r.
     case r of Some f \<Rightarrow> fail (UnitRefused f)
     | None \<Rightarrow> exec (\<lambda>s. s\<lparr>st_unit_rules := put_unit_rule
          \<lparr>ur_unit = unit, ur_business_unit = bu, ur_decided_by = actor, ur_artifact = op_artifact x,
           ur_ordinal = op_ordinal x, ur_applied_at = sql_now s\<rparr> (st_unit_rules s)\<rparr>))"

record rule_choice =
  rc_rule :: int
  rc_method :: string

definition set_choice_field :: "string \<Rightarrow> string \<Rightarrow> jtext \<Rightarrow> rule_choice \<Rightarrow> rule_choice option" where
  "set_choice_field k raw v r =
     (if field_is ''rule_id'' k then map_option (\<lambda>x. r\<lparr>rc_rule := x\<rparr>) (into_int64 v (rc_rule r))
      else if field_is ''method'' k then map_option (\<lambda>x. r\<lparr>rc_method := x\<rparr>) (into_string v (rc_method r))
      else Some r)"

definition decode_choice :: "string \<Rightarrow> rule_choice option" where
  "decode_choice raw =
     (case parse_json raw of None \<Rightarrow> None
      | Some v \<Rightarrow> decode_struct set_choice_field \<lparr>rc_rule = 0, rc_method = []\<rparr> v)"

definition apply_allocation_rule :: "option_row \<Rightarrow> string \<Rightarrow> unit op" where
  "apply_allocation_rule x actor =
     (case parse_unit_target (op_target x) of
        UnitFault f \<Rightarrow> fail (TargetRefused f)
      | UnitNamed u b \<Rightarrow> apply_unit_rule x u b actor
      | NotUnit \<Rightarrow>
          (case (if op_target x = [] then None else decode_choice (op_target x)) of
             None \<Rightarrow> ok ()
           | Some c \<Rightarrow> if rc_rule c \<le> 0 \<or> rc_method c = [] then ok () else set_rule (rc_rule c) (rc_method c)))"

definition narration_goal :: "string \<Rightarrow> frozen \<Rightarrow> string" where
  "narration_goal period row =
     ''Write the showback narration for '' @ fz_team row @ [CHR 0x27] @ ''s '' @ fz_source row @ '' spend in '' @ period @
     '': '' @ cents_string (fz_direct row) @ '' direct, '' @ cents_string (fz_allocated row) @ '' allocated, '' @
     cents_string (frozen_loaded row) @ '' total.''"

definition queue_showback_tasks :: "string \<Rightarrow> int \<Rightarrow> unit op" where
  "queue_showback_tasks period sprint =
     andthen (query (\<lambda>s. (pe_teams (frozen_period period s), map an_name (roster s)))) (\<lambda>(rows, names).
     each (\<lambda>row.
        if ''reporter-'' @ fz_source row \<notin> set names then ok ()
        else andthen (ensure_task sprint
               (''Showback narration: '' @ fz_team row @ '' on '' @ fz_source row @ '', '' @ period)
               (narration_goal period row) (''reporter-'' @ fz_source row) (fz_source row) 0) (\<lambda>_. ok ())) rows)"

text \<open>\<open>decodeDriverTarget\<close>: None for an absent target.\<close>

definition decode_driver_target :: "string \<Rightarrow> err + driver_target option" where
  "decode_driver_target raw =
     (if raw = [] then Inr None
      else case decode_window raw of None \<Rightarrow> Inl TargetUndecodable
           | Some t \<Rightarrow> if blank (wt_start t) \<or> blank (wt_end t) then Inl EmptyWindow else Inr (Some t))"

definition task_anomaly :: "task \<Rightarrow> store \<Rightarrow> anomaly option" where
  "task_anomaly t s = (if coalesce (tk_anomaly t) = [] then None else get_anomaly (coalesce (tk_anomaly t)) s)"

definition driver_row :: "option_row \<Rightarrow> task \<Rightarrow> string \<Rightarrow> store \<Rightarrow> err + driver" where
  "driver_row x t kind s =
     (let an = task_anomaly t s;
          scope = (case an of None \<Rightarrow> ''*'' | Some a \<Rightarrow> ay_service a);
          source = (case an of None \<Rightarrow> tk_desk t | Some a \<Rightarrow> ay_source a);
          row = (\<lambda>a b. \<lparr>dr_start = a, dr_end = b, dr_scope = scope, dr_label = op_summary x, dr_kind = kind,
                        dr_source = source, dr_expected = None, dr_team = []\<rparr>)
      in if source = [] then Inl (NoDeskForDriver kind)
         else case (if kind = ''one-time'' then an else None) of
                Some a \<Rightarrow> Inr (row (ay_day a) (ay_day a))
              | None \<Rightarrow>
                  (case decode_driver_target (op_target x) of
                     Inl e \<Rightarrow> Inl e
                   | Inr None \<Rightarrow> Inl (NoDriverWindow kind)
                   | Inr (Some w) \<Rightarrow> Inr (row (wt_start w) (wt_end w))))"

definition apply_driver :: "option_row \<Rightarrow> task \<Rightarrow> string \<Rightarrow> unit op" where
  "apply_driver x t kind = andthen (attempt (driver_row x t kind)) insert_driver"

definition announced_row :: "option_row \<Rightarrow> task \<Rightarrow> string \<Rightarrow> store \<Rightarrow> err + driver" where
  "announced_row x t actor s =
     (case may_decide roles_yaml (if actor = ''supervisor'' then ''supervisor'' else ''owner'') (op_class x) of
        Some why \<Rightarrow> Inl (OwnersAlone why)
      | None \<Rightarrow>
          let source = (case task_anomaly t s of None \<Rightarrow> tk_desk t | Some a \<Rightarrow> ay_source a) in
          if source = [] then Inl (NoDeskForDriver ''announced'')
          else case validate_announced_target (op_target x) of Some f \<Rightarrow> Inl (TargetRefused f)
          | None \<Rightarrow>
              (case decode_announced (op_target x) of None \<Rightarrow> Inl TargetUndecodable
               | Some n \<Rightarrow>
                   let daily = (case nt_daily n of None \<Rightarrow> 0 | Some d \<Rightarrow> d);
                       team = (case nt_team n of None \<Rightarrow> [] | Some m \<Rightarrow> m);
                       scope = trim_space (nt_scope n)
                   in case saving_refusal source scope team (nt_start n) daily s of
                        Some f \<Rightarrow> Inl (SavingRefused (saving_fault_of f))
                      | None \<Rightarrow> Inr \<lparr>dr_start = nt_start n, dr_end = nt_end n, dr_scope = scope,
                          dr_label = op_summary x, dr_kind = ''announced'', dr_source = source,
                          dr_expected = Some daily, dr_team = team\<rparr>))"

definition apply_announced :: "option_row \<Rightarrow> task \<Rightarrow> string \<Rightarrow> unit op" where
  "apply_announced x t actor = andthen (attempt (announced_row x t actor)) insert_driver"

definition on_anomaly :: "task \<Rightarrow> (string \<Rightarrow> unit op) \<Rightarrow> unit op" where
  "on_anomaly t f = (if coalesce (tk_anomaly t) = [] then ok () else f (coalesce (tk_anomaly t)))"

definition in_open_period :: "(string \<Rightarrow> unit op) \<Rightarrow> unit op" where
  "in_open_period f = andthen (query open_period) (\<lambda>p. if p = [] then ok () else f p)"

definition apply_reopen :: "option_row \<Rightarrow> string \<Rightarrow> unit op" where
  "apply_reopen x actor =
     andthen (query closed_periods) (\<lambda>ps.
     case ps of [] \<Rightarrow> fail NothingClosed
     | p # _ \<Rightarrow> reopen p (if op_summary x = [] then ''reopened by '' @ actor else op_summary x))"

definition apply_side_effect :: "option_row \<Rightarrow> task \<Rightarrow> string \<Rightarrow> recorder \<Rightarrow> unit op" where
  "apply_side_effect x t actor rec =
     (let c = op_class x in
      if c = ''anomaly.explain'' then on_anomaly t (\<lambda>i. explain_anomaly i (op_summary x) rec)
      else if c = ''anomaly.dismiss'' then on_anomaly t (\<lambda>i. dismiss_anomaly i (op_summary x) rec)
      else if c = ''anomaly.accept'' then on_anomaly t (\<lambda>i. accept_anomaly i (op_summary x) rec)
      else if c = ''driver.one-time'' then apply_driver x t ''one-time''
      else if c = ''driver.recurring'' then apply_driver x t ''recurring''
      else if c = ''driver.announced'' then apply_announced x t actor
      else if c = ''forecast.freeze'' then
        in_open_period (\<lambda>p. andthen (freeze p actor) (\<lambda>_. set_forecast_basis p (op_summary x)))
      else if c = ''period.close'' then
        in_open_period (\<lambda>p. andthen (close_period p actor) (\<lambda>_. queue_showback_tasks p (tk_sprint t)))
      else if c = ''period.reopen'' then apply_reopen x actor
      else if c = ''allocation.rule'' then apply_allocation_rule x actor
      else if c = ''explainer.publish'' then apply_explainer_publish x actor
      else if c = ''data.halt'' then apply_halt_option x actor rec
      else ok ())"

section \<open>ApplyAs\<close>

definition rival_json :: "option_row \<Rightarrow> json" where
  "rival_json y = JObject [(''artifact'', JInt (op_artifact y)), (''ordinal'', JInt (op_ordinal y)),
                           (''class'', JString (op_class y))]"

definition applied_event :: "option_row \<Rightarrow> answer \<Rightarrow> int \<Rightarrow> option_row list \<Rightarrow> event" where
  "applied_event x ans task rivals =
     mk_event ''option_applied'' (aw_actor ans) ''info''
       ([(''artifact'', JInt (op_artifact x)), (''ordinal'', JInt (op_ordinal x)),
         (''class'', JString (op_class x)), (''task'', JInt task), (''figure_cents'', JInt (op_figure x))] @
        (if rivals \<noteq> [] then [(''not_chosen'', JArray (map rival_json rivals))] else []) @ answer_data ans)"

definition not_chosen_reason :: "option_row \<Rightarrow> string" where
  "not_chosen_reason x = ''not chosen: option '' @ option_name x @ '' ('' @ op_class x @ '') was applied''"

definition apply_as :: "option_row \<Rightarrow> answer \<Rightarrow> recorder \<Rightarrow> unit op" where
  "apply_as x ans rec =
     andthen (answer_ok ans) (\<lambda>_.
     andthen (fetch (task_of_artifact (op_artifact x)) ErrNotFound) (\<lambda>k.
     andthen (fetch (get_task k) ErrNotFound) (\<lambda>t.
     andthen (apply_side_effect x t (aw_actor ans) rec) (\<lambda>_.
     andthen (mark_option_applied_as (op_artifact x) (op_ordinal x) ans) (\<lambda>_.
     andthen (query (live_rivals_of x)) (\<lambda>rivals.
     andthen (each (\<lambda>y. mark_option_not_chosen (op_artifact y) (op_ordinal y) (aw_actor ans) (not_chosen_reason x))
                rivals) (\<lambda>_.
     emit rec (applied_event x ans k rivals))))))))"

definition apply_option :: "option_row \<Rightarrow> string \<Rightarrow> recorder \<Rightarrow> unit op" where
  "apply_option x actor rec = apply_as x \<lparr>aw_actor = actor, aw_as = [], aw_behalf = [], aw_reason = []\<rparr> rec"

end
