(* ===== verification/Supervise.thy ===== *)
theory Supervise
  imports Apply
begin

text \<open>
  \<open>internal/finops/supervise.go\<close>, with \<open>wholeNumberThreshold\<close> and \<open>daysBetween\<close> of
  \<open>dataquality.go\<close>: the supervisor's pass over one sprint. \<open>byOwner\<close> is an association list in
  the order the owners were first seen; the contradictions are looked for anomaly by anomaly in
  the order they were first seen, where the code ranges over a map whose entries are
  disjoint sets of deliverables. \<open>quote\<close> is the verb \<open>%q\<close>.
\<close>

section \<open>Ranking and grouping\<close>

definition risk_rank :: "string \<Rightarrow> nat" where
  "risk_rank r = (if r = ''low'' then 0 else if r = ''medium'' then 1 else if r = ''high'' then 2 else 3)"

definition rank_options :: "option_row list \<Rightarrow> option_row list" where
  "rank_options xs = sort_key (\<lambda>x. - op_saving x) (sort_key (\<lambda>x. risk_rank (op_risk x)) xs)"

definition first_seen :: "'a list \<Rightarrow> 'a list" where
  "first_seen xs = rev (remdups (rev xs))"

definition group_by_artifact :: "option_row list \<Rightarrow> (int \<times> option_row list) list" where
  "group_by_artifact ranked =
     map (\<lambda>a. (a, filter (\<lambda>x. op_artifact x = a) ranked)) (first_seen (map op_artifact ranked))"

section \<open>What an option is judged by\<close>

definition anomaly_of_option :: "option_row \<Rightarrow> store \<Rightarrow> err + string" where
  "anomaly_of_option x s =
     (if op_class x \<notin> {''anomaly.explain'', ''anomaly.dismiss'', ''anomaly.accept''} then Inr []
      else (case artifact_task (op_artifact x) s of Inl e \<Rightarrow> Inl e | Inr t \<Rightarrow> Inr (coalesce (tk_anomaly t))))"

definition recorded_figure :: "option_row \<Rightarrow> store \<Rightarrow> err + cents option" where
  "recorded_figure x s =
     (case artifact_task (op_artifact x) s of Inl e \<Rightarrow> Inl e
      | Inr t \<Rightarrow>
          if coalesce (tk_anomaly t) = [] then Inr None
          else (case get_anomaly (coalesce (tk_anomaly t)) s of None \<Rightarrow> Inl NoSuchAnomaly
                | Some a \<Rightarrow> Inr (Some (cents_abs (ay_excess a)))))"

definition analyst_owned :: "string \<Rightarrow> bool" where
  "analyst_owned c = (case class_for roles_yaml c of None \<Rightarrow> False | Some jc \<Rightarrow> jc_owner jc = ''analyst'')"

definition anomaly_threshold :: int where
  "anomaly_threshold = (case threshold_for roles_yaml ''T.anomaly'' of None \<Rightarrow> 0 | Some t \<Rightarrow> th_cents t)"

definition judged_figure :: "option_row \<Rightarrow> cents option \<Rightarrow> cents" where
  "judged_figure x recorded = (case recorded of None \<Rightarrow> op_figure x | Some r \<Rightarrow> r)"

definition figure_agrees :: "option_row \<Rightarrow> cents option \<Rightarrow> bool" where
  "figure_agrees x recorded = (case recorded of None \<Rightarrow> True | Some r \<Rightarrow> op_figure x = r)"

section \<open>Contradictions\<close>

definition disagreement_note :: "(string \<Rightarrow> string) \<Rightarrow> string \<Rightarrow> task \<Rightarrow> option_row \<Rightarrow> string" where
  "disagreement_note quote anomaly t rival =
     ''two analysts answered differently on anomaly '' @ anomaly @ '': '' @ coalesce (tk_assignee t) @
     '' (task '' @ append_int (tk_id t) @ '') says '' @ quote (op_summary rival)"

type_synonym routing = "(int \<times> string) list \<times> ((int \<times> int) \<times> string) list"

fun explained_anomalies :: "option_row list \<Rightarrow> store \<Rightarrow> err + (string \<times> option_row) list" where
  "explained_anomalies [] s = Inr []"
| "explained_anomalies (x # xs) s =
     (if op_class x \<noteq> ''anomaly.explain'' then explained_anomalies xs s
      else (case artifact_task (op_artifact x) s of Inl e \<Rightarrow> Inl e
            | Inr t \<Rightarrow>
                (case explained_anomalies xs s of Inl e \<Rightarrow> Inl e
                 | Inr ps \<Rightarrow> Inr (if coalesce (tk_anomaly t) = [] then ps else (coalesce (tk_anomaly t), x) # ps))))"

text \<open>A deliverable's lowest option on the anomaly stands for it.\<close>

fun lowest_option :: "option_row \<Rightarrow> option_row list \<Rightarrow> option_row" where
  "lowest_option x [] = x"
| "lowest_option x (y # ys) = lowest_option (if op_ordinal y < op_ordinal x then y else x) ys"

definition representatives :: "option_row list \<Rightarrow> option_row list" where
  "representatives opts = map (\<lambda>(a, ys). lowest_option (hd ys) (tl ys)) (group_by_artifact opts)"

fun rival_notes :: "(string \<Rightarrow> string) \<Rightarrow> string \<Rightarrow> (option_row \<times> option_row) list \<Rightarrow> store \<Rightarrow>
    err + ((int \<times> int) \<times> string) list" where
  "rival_notes quote anomaly [] s = Inr []"
| "rival_notes quote anomaly ((x, rival) # ps) s =
     (case artifact_task (op_artifact rival) s of Inl e \<Rightarrow> Inl e
      | Inr t \<Rightarrow>
          (case rival_notes quote anomaly ps s of Inl e \<Rightarrow> Inl e
           | Inr ns \<Rightarrow> Inr ((option_key x, disagreement_note quote anomaly t rival) # ns)))"

definition route_group :: "(string \<Rightarrow> string) \<Rightarrow> string \<Rightarrow> option_row list \<Rightarrow> store \<Rightarrow> err + routing" where
  "route_group quote anomaly opts s =
     (case representatives opts of
        x0 # x1 # xs \<Rightarrow>
          if list_all (\<lambda>y. trim_space (op_summary y) = trim_space (op_summary x0)) (x1 # xs) then Inr ([], [])
          else
            (case task_of_artifact (op_artifact x0) s of None \<Rightarrow> Inl ErrNotFound
             | Some k \<Rightarrow>
                 (case task_owner k s of None \<Rightarrow> Inl ErrNotFound
                  | Some w \<Rightarrow>
                      (case rival_notes quote anomaly ((x0, x1) # map (\<lambda>y. (y, x0)) (x1 # xs)) s of Inl e \<Rightarrow> Inl e
                       | Inr ns \<Rightarrow> Inr (map (\<lambda>y. (op_artifact y, w)) (x0 # x1 # xs), ns))))
      | _ \<Rightarrow> Inr ([], []))"

fun route_groups :: "(string \<Rightarrow> string) \<Rightarrow> (string \<times> option_row list) list \<Rightarrow> store \<Rightarrow> err + routing" where
  "route_groups quote [] s = Inr ([], [])"
| "route_groups quote ((a, g) # gs) s =
     (case route_group quote a g s of Inl e \<Rightarrow> Inl e
      | Inr (rs, ns) \<Rightarrow> (case route_groups quote gs s of Inl e \<Rightarrow> Inl e | Inr (rs', ns') \<Rightarrow> Inr (rs @ rs', ns @ ns')))"

definition contradiction_routing :: "(string \<Rightarrow> string) \<Rightarrow> option_row list \<Rightarrow> store \<Rightarrow> err + routing" where
  "contradiction_routing quote ranked s =
     (case explained_anomalies ranked s of Inl e \<Rightarrow> Inl e
      | Inr ps \<Rightarrow> route_groups quote
          (map (\<lambda>a. (a, map snd (filter (\<lambda>p. fst p = a) ps))) (first_seen (map fst ps))) s)"

section \<open>One deliverable\<close>

record sweep =
  sw_applied :: "option_row list"
  sw_carried :: "option_row list"
  sw_settled :: "string list"
  sw_owners :: "(string \<times> option_row list) list"
  sw_notes :: "((int \<times> int) \<times> string) list"

definition no_sweep :: sweep where
  "no_sweep = \<lparr>sw_applied = [], sw_carried = [], sw_settled = [], sw_owners = [], sw_notes = []\<rparr>"

definition mismatch_note :: "cents \<Rightarrow> cents \<Rightarrow> string" where
  "mismatch_note figure recorded =
     ''the figure written for this option, '' @ cents_string figure @ '', does not match the anomaly'' @ [CHR 0x27] @
     ''s recorded excess of '' @ cents_string recorded @
     ''; it is not applied automatically, and the owner decides.''"

definition carry_note :: "((int \<times> int) \<times> string) list \<Rightarrow> cents option \<Rightarrow> option_row \<Rightarrow> string option" where
  "carry_note notes recorded x =
     (let n = map_of notes (option_key x);
          msg = (case recorded of None \<Rightarrow> None
                 | Some r \<Rightarrow> if op_figure x \<noteq> r then Some (mismatch_note (op_figure x) r) else None)
      in case msg of None \<Rightarrow> n
         | Some m \<Rightarrow> Some (case n of Some k \<Rightarrow> if k = [] then m else k @ '' '' @ m | None \<Rightarrow> m))"

fun add_owned :: "string \<Rightarrow> option_row list \<Rightarrow> (string \<times> option_row list) list \<Rightarrow> (string \<times> option_row list) list" where
  "add_owned w xs [] = [(w, xs)]"
| "add_owned w xs ((v, ys) # rest) = (if v = w then (v, ys @ xs) # rest else (v, ys) # add_owned w xs rest)"

definition carry_group ::
  "routing \<Rightarrow> cents option \<Rightarrow> string \<Rightarrow> option_row list \<Rightarrow> sweep \<Rightarrow> sweep op" where
  "carry_group r recorded owner opts acc =
     andthen (each (\<lambda>x. mark_option_carried (op_artifact x) (op_ordinal x)) opts) (\<lambda>_.
     ok (acc\<lparr>sw_carried := sw_carried acc @ opts,
             sw_owners := add_owned owner opts (sw_owners acc),
             sw_notes := List.map_filter (\<lambda>x. map_option (Pair (option_key x)) (carry_note (snd r) recorded x)) opts @
                         sw_notes acc\<rparr>))"

definition apply_top :: "recorder \<Rightarrow> option_row \<Rightarrow> string \<Rightarrow> sweep \<Rightarrow> sweep op" where
  "apply_top rec best aid acc =
     andthen (apply_option best ''supervisor'' rec) (\<lambda>_.
     ok (acc\<lparr>sw_applied := sw_applied acc @ [best],
             sw_settled := (if aid = [] then sw_settled acc else aid # sw_settled acc)\<rparr>))"

definition may_apply :: "routing \<Rightarrow> option_row \<Rightarrow> cents option \<Rightarrow> string \<Rightarrow> sweep \<Rightarrow> bool" where
  "may_apply r best recorded aid acc \<longleftrightarrow>
     supervisor_may_select roles_yaml (op_class best) = None \<and>
     judged_figure best recorded \<le> anomaly_threshold \<and>
     figure_agrees best recorded \<and>
     map_of (fst r) (op_artifact best) = None \<and>
     \<not> (aid \<noteq> [] \<and> aid \<in> set (sw_settled acc) \<and> analyst_owned (op_class best))"

definition decide_group :: "routing \<Rightarrow> recorder \<Rightarrow> int \<times> option_row list \<Rightarrow> sweep \<Rightarrow> sweep op" where
  "decide_group r rec g acc =
     (let best = hd (snd g) in
     andthen (attempt (recorded_figure best)) (\<lambda>recorded.
     andthen (attempt (anomaly_of_option best)) (\<lambda>aid.
     if may_apply r best recorded aid acc then apply_top rec best aid acc
     else andthen (attempt (owner_of_option best)) (\<lambda>w.
       carry_group r recorded (case map_of (fst r) (fst g) of None \<Rightarrow> w | Some o' \<Rightarrow> o') (snd g) acc))))"

fun decide_groups :: "routing \<Rightarrow> recorder \<Rightarrow> (int \<times> option_row list) list \<Rightarrow> sweep \<Rightarrow> sweep op" where
  "decide_groups r rec [] acc = ok acc"
| "decide_groups r rec (g # gs) acc = andthen (decide_group r rec g acc) (decide_groups r rec gs)"

section \<open>Stale halts\<close>

definition whole_number_threshold :: "string \<Rightarrow> bool \<Rightarrow> int option" where
  "whole_number_threshold name percent =
     (case threshold_for roles_yaml name of None \<Rightarrow> None
      | Some th \<Rightarrow>
          let v = trim_space (th_value th); (digits, rest) = cut_at (CHR ''%'') v in
          if percent \<and> (digits = v \<or> digits = []) then None
          else case parse_int64 (if percent then trim_space digits else v) of None \<Rightarrow> None
               | Some n \<Rightarrow> if n < 0 then None else Some n)"

definition days_between :: "string \<Rightarrow> string \<Rightarrow> int" where
  "days_between from to =
     (case parse_date from of None \<Rightarrow> 0
      | Some a \<Rightarrow> (case parse_date to of None \<Rightarrow> 0 | Some b \<Rightarrow> max 0 (days_apart a b)))"

definition stale_halts :: "store \<Rightarrow> desk_halt list" where
  "stale_halts s =
     (case whole_number_threshold ''T.stale_days'' False of None \<Rightarrow> []
      | Some n \<Rightarrow> filter (\<lambda>h. n \<le> days_between (dh_started h) (today s)) (halts s))"

definition halt_owner :: "desk_halt \<Rightarrow> string" where
  "halt_owner h = (if dh_owner h = [] then ''unclaimed'' else dh_owner h)"

section \<open>The decision request\<close>

definition sprint_label :: "int \<Rightarrow> store \<Rightarrow> string" where
  "sprint_label i s =
     (case find (\<lambda>p. sp_id p = i) (st_sprints s) of None \<Rightarrow> ''sprint '' @ append_int i | Some p \<Rightarrow> sp_label p)"

definition nl :: string where "nl = [CHR 0x0A]"

definition artifact_task_text :: "int \<Rightarrow> store \<Rightarrow> string" where
  "artifact_task_text a s = append_int (case task_of_artifact a s of None \<Rightarrow> 0 | Some k \<Rightarrow> k)"

definition option_lines :: "((int \<times> int) \<times> string) list \<Rightarrow> option_row \<Rightarrow> string" where
  "option_lines notes x =
     ''- **'' @ op_class x @ ''** (option '' @ append_int (op_ordinal x) @ ''): '' @ op_summary x @ nl @
     ''  Figure: '' @ cents_string (op_figure x) @ ''. Saving: '' @ cents_string (op_saving x) @ ''. Risk: '' @
     op_risk x @ ''. Needs: '' @ op_needs x @ ''.'' @ nl @
     (case map_of notes (option_key x) of None \<Rightarrow> [] | Some n \<Rightarrow> ''  '' @ n @ nl)"

definition group_lines :: "((int \<times> int) \<times> string) list \<Rightarrow> store \<Rightarrow> int \<times> option_row list \<Rightarrow> string" where
  "group_lines notes s g =
     ''### Task '' @ artifact_task_text (fst g) s @ (if length (snd g) > 1 then '': choose at most one'' else []) @ nl @
     concat (map (option_lines notes) (snd g)) @ nl"

definition preference_lines :: "option_row list \<Rightarrow> store \<Rightarrow> string" where
  "preference_lines xs s =
     (case xs of [] \<Rightarrow> []
      | best # _ \<Rightarrow> ''**Preference:** '' @ op_class best @ '' on task '' @ artifact_task_text (op_artifact best) s @ '' ('' @
          op_summary best @ ''), ranked highest by saving, then by risk. This is a ranking, not a judgement: '' @
          ''nobody has weighed the reasons yet.'' @ nl @ nl)"

definition halt_lines :: "desk_halt list \<Rightarrow> string" where
  "halt_lines hs =
     (if hs = [] then []
      else ''### Data quality: halted past T.stale_days'' @ nl @
           concat (map (\<lambda>h. ''- **'' @ dh_desk h @ ''** halted since '' @ dh_started h @ '': '' @ dh_reason h @ nl) hs) @ nl)"

definition deadline_lines :: "string \<Rightarrow> store \<Rightarrow> string" where
  "deadline_lines lapses s =
     (if str_lt lapses (today s)
      then ''**Unanswered since '' @ lapses @ ''.** This is the supervisor'' @ [CHR 0x27] @
           ''s own deadline, now past; nothing enforces it.'' @ nl
      else ''**Answer by '' @ lapses @ ''.** This is the supervisor'' @ [CHR 0x27] @
           ''s own deadline; nothing enforces it.'' @ nl)"

definition decision_request_body ::
  "int \<Rightarrow> option_row list \<Rightarrow> ((int \<times> int) \<times> string) list \<Rightarrow> string \<Rightarrow> desk_halt list \<Rightarrow> store \<Rightarrow> string" where
  "decision_request_body sprint xs notes lapses hs s =
     ''## Decision needed: '' @ append_int (int (length xs)) @ '' option(s) from '' @ sprint_label sprint s @ nl @ nl @
     ''These are classes this practice'' @ [CHR 0x27] @ ''s supervisor may not decide alone, '' @
     ''figures above T.anomaly even where it could, or a question two analysts '' @
     ''answered differently; its own job description hands them to you.'' @ nl @ nl @
     preference_lines xs s @ concat (map (group_lines notes s) (group_by_artifact xs)) @ halt_lines hs @
     deadline_lines lapses s"

definition decision_lapse_days :: int where "decision_lapse_days = 7"

definition lapses_for :: "int \<Rightarrow> string \<Rightarrow> store \<Rightarrow> string" where
  "lapses_for sprint owner s =
     (case existing_lapses sprint owner s of
        Some l \<Rightarrow> if l \<noteq> [] then l else shift_day (today s) decision_lapse_days
      | None \<Rightarrow> shift_day (today s) decision_lapse_days)"

definition owned_by :: "sweep \<Rightarrow> string \<Rightarrow> option_row list" where
  "owned_by acc w = (case map_of (sw_owners acc) w of None \<Rightarrow> [] | Some xs \<Rightarrow> xs)"

definition request_event :: "int \<Rightarrow> string \<Rightarrow> nat \<Rightarrow> string \<Rightarrow> event" where
  "request_event sprint w n lapses =
     mk_event ''decision_requested'' ''supervisor'' ''info''
       [(''sprint'', JInt sprint), (''owner'', JString w), (''options'', JInt (int n)), (''lapses'', JString lapses)]"

definition ask_owner :: "int \<Rightarrow> recorder \<Rightarrow> sweep \<Rightarrow> desk_halt list \<Rightarrow> string \<Rightarrow> (string \<times> nat) op" where
  "ask_owner sprint rec acc stale w =
     andthen (query (lapses_for sprint w)) (\<lambda>lapses.
     andthen (query (decision_request_body sprint (owned_by acc w) (sw_notes acc) lapses
                       (filter (\<lambda>h. halt_owner h = w) stale))) (\<lambda>body.
     andthen (write_decision_request sprint w body lapses) (\<lambda>_.
     andthen (emit rec (request_event sprint w (length (owned_by acc w)) lapses)) (\<lambda>_.
     ok (w, length (owned_by acc w))))))"

section \<open>The pass\<close>

record pass =
  ps_applied :: "option_row list"
  ps_carried :: "option_row list"
  ps_requests :: "(string \<times> nat) list"
  ps_stale :: "desk_halt list"

definition supervise :: "int \<Rightarrow> recorder \<Rightarrow> (string \<Rightarrow> string) \<Rightarrow> pass op" where
  "supervise sprint rec quote =
     andthen (query (\<lambda>s. rank_options (open_options_for_sprint sprint s))) (\<lambda>ranked.
     andthen (attempt (contradiction_routing quote ranked)) (\<lambda>r.
     andthen (decide_groups r rec (group_by_artifact ranked) no_sweep) (\<lambda>acc.
     andthen (query stale_halts) (\<lambda>stale.
     andthen (collect (ask_owner sprint rec acc stale)
                (sort_names (map fst (sw_owners acc) @ map halt_owner stale))) (\<lambda>reqs.
     ok \<lparr>ps_applied = sw_applied acc, ps_carried = sw_carried acc, ps_requests = reqs, ps_stale = stale\<rparr>)))))"

end
