(* ===== verification/Choose.thy ===== *)
theory Choose
  imports Apply
begin

text \<open>
  What applying an option amounts to. The options table is abstracted to the state of each option,
  by its key; the side effects of \<open>applySideEffect\<close> are shown to leave it, the deliverables and the
  identity of every task and anomaly alone; and \<open>ApplyAs\<close> is shown to be one step of a choice:
  the option applied, its live rivals not chosen, every other option as it was.
\<close>

section \<open>Rows by key\<close>

lemma find_filter: "find P xs = (case filter P xs of [] \<Rightarrow> None | x # _ \<Rightarrow> Some x)"
  by (induction xs) auto

lemma get_option_row: "get_option a k s = find (is_option a k) (st_options s)"
proof -
  have "filter (\<lambda>x. op_ordinal x = k) (options a s) = filter (is_option a k) (st_options s)"
    by (simp add: options_def is_option_def [abs_def] sort_key_stable filter_filter conj_commute)
  then show ?thesis by (simp add: get_option_def find_filter)
qed

lemma get_task_row: "get_task i s = (case rev (filter (\<lambda>t. tk_id t = i) (st_tasks s)) of [] \<Rightarrow> None | t # _ \<Rightarrow> Some t)"
  by (simp add: get_task_def tasks_def find_filter rev_filter [symmetric] sort_key_stable)

definition option_states :: "store \<Rightarrow> int \<times> int \<Rightarrow> option_state option" where
  "option_states s = (\<lambda>(a, k). map_option op_state (get_option a k s))"

lemma option_states_same: "st_options t = st_options s \<Longrightarrow> option_states t = option_states s"
  by (simp add: option_states_def get_option_row fun_eq_iff)

lemma option_states_journal [simp]: "option_states (journal rec e s) = option_states s"
  by (rule option_states_same) simp

lemma set_option_state_as_run:
  "set_option_state_as a k st by reason behalf why s =
   (if \<exists>x \<in> set (st_options s). is_option a k x then Inr () else Inl ErrNotFound,
    s\<lparr>st_options := update_where (is_option a k)
        (\<lambda>x. x\<lparr>op_state := st, op_decided_by := by, op_decided_at := sql_now s, op_reason := reason,
               op_on_behalf_of := behalf, op_behalf_reason := why\<rparr>) (st_options s)\<rparr>)"
  by (simp add: set_option_state_as_def op_run)

lemma set_state_states:
  assumes "set_option_state_as a k st by reason behalf why s = (Inr (), t)"
  shows "option_states t = (option_states s)((a, k) \<mapsto> st)"
proof -
  from assms have hit: "\<exists>x \<in> set (st_options s). is_option a k x"
    and t: "st_options t = update_where (is_option a k)
        (\<lambda>x. x\<lparr>op_state := st, op_decided_by := by, op_decided_at := sql_now s, op_reason := reason,
               op_on_behalf_of := behalf, op_behalf_reason := why\<rparr>) (st_options s)"
    by (auto simp: set_option_state_as_run split: if_splits)
  have row: "get_option b j t = map_option (\<lambda>r. if is_option a k r
      then r\<lparr>op_state := st, op_decided_by := by, op_decided_at := sql_now s, op_reason := reason,
               op_on_behalf_of := behalf, op_behalf_reason := why\<rparr> else r) (get_option b j s)" for b j
    unfolding get_option_row t by (rule find_update_where) (simp add: is_option_def)
  have "find (is_option a k) (st_options s) \<noteq> None" using hit by (auto simp: find_None_iff)
  then have "\<exists>x. get_option a k s = Some x \<and> is_option a k x"
    by (auto simp: get_option_row find_Some_iff)
  moreover have "get_option b j s = Some x \<Longrightarrow> is_option b j x" for b j x
    by (auto simp: get_option_row find_Some_iff)
  ultimately show ?thesis
    by (force simp: option_states_def fun_eq_iff row is_option_def option.map_comp
        intro!: option.map_cong0 split: option.splits)
qed

section \<open>What the side effects leave alone\<close>

text \<open>What detection wrote on an anomaly: everything but the decision.\<close>

definition measured :: "anomaly \<Rightarrow> anomaly" where
  "measured a = a\<lparr>ay_state := Open, ay_reason := [], ay_handled_by := [], ay_closed_at := []\<rparr>"

definition ground :: "store \<Rightarrow> store \<Rightarrow> bool" where
  "ground s t \<longleftrightarrow>
     st_artifacts t = st_artifacts s \<and>
     (\<exists>new. st_tasks t = st_tasks s @ new \<and>
        list_all (\<lambda>u. tk_id u \<notin> tk_id ` set (st_tasks s) \<and> tk_anomaly u = None) new) \<and>
     map measured (st_anomalies t) = map measured (st_anomalies s)"

definition effect_kept :: "store \<Rightarrow> store \<Rightarrow> bool" where
  "effect_kept s t \<longleftrightarrow> ground s t \<and> st_options t = st_options s"

lemma ground_refl: "ground s s"
  by (simp add: ground_def)

lemma ground_trans: "ground s t \<Longrightarrow> ground t u \<Longrightarrow> ground s u"
  by (fastforce simp: ground_def list_all_iff)

interpretation ek: frame effect_kept
  by unfold_locales (auto simp: effect_kept_def ground_refl intro: ground_trans)

interpretation gk: frame ground
  by unfold_locales (rule ground_refl, erule ground_trans)

lemma effect_kept_tables:
  "st_artifacts t = st_artifacts s \<Longrightarrow> st_tasks t = st_tasks s \<Longrightarrow>
   map measured (st_anomalies t) = map measured (st_anomalies s) \<Longrightarrow> st_options t = st_options s \<Longrightarrow> effect_kept s t"
  by (simp add: effect_kept_def ground_def)

lemma effect_exec [intro]:
  "(\<And>s. st_artifacts (f s) = st_artifacts s \<and> st_tasks (f s) = st_tasks s \<and>
         st_anomalies (f s) = st_anomalies s \<and> st_options (f s) = st_options s) \<Longrightarrow> keeps effect_kept (exec f)"
  by (rule ek.exec_keeps) (simp add: effect_kept_tables)

lemma effect_emit [intro!, simp]: "keeps effect_kept (emit rec e)"
  unfolding emit_def by (rule effect_exec) simp

lemma update_measured: "(\<And>a. measured (f a) = measured a) \<Longrightarrow>
    map measured (update_where p f as) = map measured as"
  by (rule update_where_keeps)

lemma effect_anomaly_move [intro!]:
  "keeps effect_kept (transition i st reason rec allowed analyst)"
proof -
  have "effect_kept s (update_anomaly i (moved_row st reason analyst (st_now s)) s)" for s
    by (rule effect_kept_tables)
      (simp_all add: update_anomaly_def update_measured measured_def moved_row_def)
  then show ?thesis
    unfolding transition_def report_move_def
    by (intro ek.andthen_keeps ek.ensure_keeps ek.fetch_keeps ek.exec_keeps ek.query_keeps ek.option_keeps
        ek.ok_keeps ek.fail_keeps effect_emit)
qed

lemma effect_ensure_task [intro!]: "keeps effect_kept (ensure_task sprint title goal who desk budget)"
proof (rule keepsI)
  fix s
  let ?t = "new_task sprint title goal who desk (state_for who) budget None s"
  have "tk_id ?t \<notin> tk_id ` set (st_tasks s)"
    using next_id_fresh [of "map tk_id (st_tasks s)"] by (simp add: new_task_def)
  moreover have "tk_anomaly ?t = None" by (simp add: new_task_def)
  ultimately have "effect_kept s (insert_task ?t s)"
    by (simp add: effect_kept_def ground_def insert_task_def)
  then show "effect_kept s (snd (ensure_task sprint title goal who desk budget s))"
    by (simp add: ensure_task_def Let_def ek.refl split: option.split)
qed

lemma effect_set_state [intro!]: "keeps effect_kept (set_state n st reason)"
  unfolding set_state_def
  by (intro ek.andthen_keeps ek.ensure_keeps ek.fetch_keeps effect_exec) (simp add: update_analyst_def)

lemma effect_apply_halt [intro!]: "keeps effect_kept (apply_halt desk reason by owner day rec)"
  unfolding apply_halt_def Let_def
  by (intro ek.andthen_keeps ek.ensure_keeps ek.query_keeps ek.if_keeps ek.ok_keeps ek.each_keeps
      effect_set_state effect_emit effect_exec) simp

lemma effect_halt_option [intro!]: "keeps effect_kept (apply_halt_option x actor rec)"
  unfolding apply_halt_option_def Let_def
  by (intro ek.andthen_keeps ek.ensure_keeps ek.attempt_keeps ek.query_keeps ek.ok_keeps effect_apply_halt)

lemma effect_draft [intro!]: "keeps effect_kept (draft_explainer team topic audience author body amount)"
  by (rule keepsI) (simp add: draft_explainer_def Let_def effect_kept_tables)

lemma effect_publish [intro!]: "keeps effect_kept (apply_explainer_publish x actor)"
  unfolding apply_explainer_publish_def publish_artifact_def publish_def
  by (intro ek.andthen_keeps ek.fetch_keeps ek.ensure_keeps ek.query_keeps ek.ok_keeps effect_draft effect_exec) simp

lemma effect_rule [intro!]: "keeps effect_kept (apply_allocation_rule x actor)"
  unfolding apply_allocation_rule_def apply_unit_rule_def set_rule_def
  by (auto split: unit_reading.split option.split)

lemma effect_driver [intro!]: "keeps effect_kept (apply_driver x t kind)" "keeps effect_kept (apply_announced x t actor)"
  unfolding apply_driver_def apply_announced_def insert_driver_def by auto

lemma effect_freeze [intro!]: "keeps effect_kept (freeze p by)" "keeps effect_kept (set_forecast_basis p basis)"
  unfolding freeze_def freeze_as_at_def set_forecast_basis_def
  by (intro ek.andthen_keeps ek.ensure_keeps ek.query_keeps ek.collect_keeps ek.attempt_keeps ek.if_keeps ek.ok_keeps
      effect_exec; simp)+

lemma effect_close [intro!]: "keeps effect_kept (close_period p by)" "keeps effect_kept (reopen p reason)"
    "keeps effect_kept (queue_showback_tasks p sprint)"
  unfolding close_period_def reopen_def queue_showback_tasks_def
  by (intro ek.andthen_keeps ek.ensure_keeps ek.query_keeps ek.prod_keeps ek.each_keeps ek.if_keeps ek.ok_keeps
      effect_exec effect_ensure_task; simp)+

lemma side_effects_keep: "keeps effect_kept (apply_side_effect x t actor rec)"
  unfolding apply_side_effect_def on_anomaly_def in_open_period_def apply_reopen_def Let_def
    explain_anomaly_def dismiss_anomaly_def accept_anomaly_def
  by (auto split: list.split)

section \<open>What that keeps of the reads\<close>

lemma ground_task_row:
  assumes "ground s t"
  shows "filter (\<lambda>u. tk_id u = i) (st_tasks s) \<noteq> [] \<Longrightarrow>
    filter (\<lambda>u. tk_id u = i) (st_tasks t) = filter (\<lambda>u. tk_id u = i) (st_tasks s)"
proof -
  assume ne: "filter (\<lambda>u. tk_id u = i) (st_tasks s) \<noteq> []"
  obtain new where new: "st_tasks t = st_tasks s @ new" "list_all (\<lambda>u. tk_id u \<notin> tk_id ` set (st_tasks s)) new"
    using assms by (auto simp: ground_def list_all_iff)
  from ne have "i \<in> tk_id ` set (st_tasks s)" by (auto simp: filter_empty_conv)
  with new(2) have "filter (\<lambda>u. tk_id u = i) new = []" by (auto simp: filter_empty_conv list_all_iff)
  then show ?thesis by (simp add: new(1))
qed

lemma ground_get_task: "ground s t \<Longrightarrow> get_task i s = Some u \<Longrightarrow> get_task i t = Some u"
  using ground_task_row [of s t i] by (auto simp: get_task_row split: list.splits)

lemma ground_first_task:
  "ground s t \<Longrightarrow> find (\<lambda>u. tk_id u = i) (st_tasks s) = Some u \<Longrightarrow> find (\<lambda>u. tk_id u = i) (st_tasks t) = Some u"
  using ground_task_row [of s t i] by (auto simp: find_filter split: list.splits)

lemma ground_artifacts:
  "ground s t \<Longrightarrow> artifact_row i t = artifact_row i s" "ground s t \<Longrightarrow> task_of_artifact i t = task_of_artifact i s"
  by (simp_all add: artifact_row_def task_of_artifact_def ground_def)

lemma ground_artifact_task: "ground s t \<Longrightarrow> artifact_task a s = Inr u \<Longrightarrow> artifact_task a t = Inr u"
  by (auto simp: artifact_task_def ground_artifacts split: option.splits dest: ground_get_task)

lemma find_append: "find P (xs @ ys) = (case find P xs of None \<Rightarrow> find P ys | Some x \<Rightarrow> Some x)"
  by (induction xs) auto

lemma ground_homed_anomaly:
  assumes "ground s t" and "aid \<noteq> []"
  shows "homed (\<lambda>a u. tk_anomaly u = Some aid) y t = homed (\<lambda>a u. tk_anomaly u = Some aid) y s"
proof -
  obtain new where new: "st_tasks t = st_tasks s @ new" "list_all (\<lambda>u. tk_anomaly u = None) new"
    using assms(1) by (auto simp: ground_def list_all_iff)
  have none: "find (\<lambda>u. tk_id u = i) new = Some v \<Longrightarrow> tk_anomaly v = None" for i v
    using new(2) by (auto simp: find_Some_iff list_all_length)
  show ?thesis
    by (auto simp: homed_def option_home_def ground_artifacts [OF assms(1)] new(1) find_append none
        split: option.split)
qed

lemma measured_keeps [simp]:
  "ay_excess (measured a) = ay_excess a" "ay_day (measured a) = ay_day a" "ay_id (measured a) = ay_id a"
  "ay_source (measured a) = ay_source a" "ay_service (measured a) = ay_service a"
  by (simp_all add: measured_def)

lemma list_anomalies_measured:
  "map measured (list_anomalies any_anomaly s) =
   sort_key (\<lambda>a. - \<bar>ay_excess a\<bar>) (rev (sort_key (\<lambda>a. map byte (ay_day a)) (rev (map measured (st_anomalies s)))))"
  using sort_key_map [of measured "\<lambda>a. - \<bar>ay_excess a\<bar>"] sort_key_map [of measured "\<lambda>a. map byte (ay_day a)"]
  by (simp add: list_anomalies_def anomaly_matches_def any_anomaly_def rev_map [symmetric])

lemma ground_get_anomaly:
  assumes "ground s t"
  shows "map_option measured (get_anomaly i t) = map_option measured (get_anomaly i s)"
proof -
  have eq: "map measured (list_anomalies any_anomaly t) = map measured (list_anomalies any_anomaly s)"
    using assms by (simp add: list_anomalies_measured ground_def)
  have "map_option measured (find (\<lambda>a. ay_id a = i) as) = find (\<lambda>a. ay_id a = i) (map measured as)" for as
    by (induction as) (auto simp: measured_def)
  then show ?thesis by (simp add: get_anomaly_def eq)
qed

section \<open>The choice\<close>

text \<open>The abstract step: one option wins, the options that competed with it lose.\<close>

definition settle_choice :: "int \<times> int \<Rightarrow> (int \<times> int) set \<Rightarrow> (int \<times> int \<Rightarrow> option_state option) \<Rightarrow> int \<times> int \<Rightarrow> option_state option" where
  "settle_choice won lost f = (\<lambda>k. if k \<in> lost then Some OptionNotChosen else if k = won then Some OptionApplied else f k)"

lemma not_chosen_states:
  assumes "each (\<lambda>y. mark_option_not_chosen (op_artifact y) (op_ordinal y) by r) ys s = (Inr u, t)"
  shows "option_states t = (\<lambda>k. if k \<in> option_key ` set ys then Some OptionNotChosen else option_states s k)"
  using assms
proof (induction ys arbitrary: s)
  case (Cons y ys)
  then obtain m where m: "mark_option_not_chosen (op_artifact y) (op_ordinal y) by r s = (Inr (), m)"
    and rest: "each (\<lambda>y. mark_option_not_chosen (op_artifact y) (op_ordinal y) by r) ys m = (Inr u, t)"
    by (auto simp: op_ok)
  from m have "option_states m = (option_states s)(option_key y \<mapsto> OptionNotChosen)"
    unfolding mark_option_not_chosen_def set_option_state_def option_key_def by (rule set_state_states)
  then show ?case unfolding Cons.IH [OF rest] by (intro ext) simp
qed (simp add: op_ok)

text \<open>Marking an option leaves every row with another key as it was.\<close>

lemma mark_other_rows:
  assumes "st_options t = update_where (is_option a k) f (st_options s)" and "\<And>r. is_option a k (f r) = is_option a k r"
  shows "{y \<in> set (st_options t). \<not> is_option a k y} = {y \<in> set (st_options s). \<not> is_option a k y}"
  using assms by (auto simp: update_where_def)

lemma live_rivals_set:
  "set (live_rivals_of x s) =
   {y \<in> set (st_options s). live y \<and> \<not> is_option (op_artifact x) (op_ordinal x) y \<and>
      (op_artifact y = op_artifact x \<or>
       op_class x = ''anomaly.explain'' \<and> anomaly_of_artifact (op_artifact x) s \<noteq> [] \<and> op_class y = ''anomaly.explain'' \<and>
       homed (\<lambda>a t. tk_anomaly t = Some (anomaly_of_artifact (op_artifact x) s)) y s \<and>
       trim_space (op_summary y) \<noteq> trim_space (op_summary x))}"
  by (auto simp: live_rivals_of_def options_def is_option_def Let_def)

lemma live_rivals_after_mark:
  assumes g: "ground s t" and task: "artifact_task (op_artifact x) s = Inr v"
    and o': "st_options t = update_where (is_option (op_artifact x) (op_ordinal x)) f (st_options s)"
    and f: "\<And>r. op_artifact (f r) = op_artifact r \<and> op_ordinal (f r) = op_ordinal r"
  shows "set (live_rivals_of x t) = set (live_rivals_of x s)"
proof -
  have rows: "y \<in> set (st_options t) \<and> \<not> is_option (op_artifact x) (op_ordinal x) y \<longleftrightarrow>
    y \<in> set (st_options s) \<and> \<not> is_option (op_artifact x) (op_ordinal x) y" for y
    using mark_other_rows [OF o'] f by (simp add: is_option_def set_eq_iff)
  have aid: "anomaly_of_artifact (op_artifact x) u = (case artifact_task (op_artifact x) u of Inl _ \<Rightarrow> [] | Inr w \<Rightarrow> coalesce (tk_anomaly w))" for u
    by (simp add: anomaly_of_artifact_def artifact_task_def split: option.split)
  have same: "anomaly_of_artifact (op_artifact x) t = anomaly_of_artifact (op_artifact x) s"
    using ground_artifact_task [OF g task] by (simp add: aid task)
  show ?thesis
    unfolding live_rivals_set same using rows ground_homed_anomaly [OF g] by blast
qed

lemma answer_ok_run: "answer_ok ans s = (case validate_answer ans of None \<Rightarrow> Inr () | Some f \<Rightarrow> Inl (BadAnswer f), s)"
  by (simp add: answer_ok_def op_run split: option.split)

lemma answer_ok_ok: "answer_ok ans s = (Inr y, u) \<longleftrightarrow> validate_answer ans = None \<and> u = s"
  by (auto simp: answer_ok_run split: option.splits)

text \<open>The steps of a run of \<open>ApplyAs\<close> that returns.\<close>

lemma apply_as_ok:
  assumes "apply_as x ans rec s = (Inr (), t)"
  obtains k v m1 m2 m3 where "validate_answer ans = None"
    and "task_of_artifact (op_artifact x) s = Some k" and "get_task k s = Some v"
    and "apply_side_effect x v (aw_actor ans) rec s = (Inr (), m1)"
    and "set_option_state_as (op_artifact x) (op_ordinal x) OptionApplied (aw_actor ans) [] (aw_behalf ans)
           (trimmed_reason ans) m1 = (Inr (), m2)"
    and "each (\<lambda>y. mark_option_not_chosen (op_artifact y) (op_ordinal y) (aw_actor ans) (not_chosen_reason x))
           (live_rivals_of x m2) m2 = (Inr (), m3)"
    and "t = journal rec (applied_event x ans k (live_rivals_of x m2)) m3"
  using assms unfolding apply_as_def mark_option_applied_as_def emit_def
proof (elim andthen_okE)
  fix u1 s1 k s2 v s3 u2 m1 u4 m2 rivals s5 u5 m3 u3 s4
  assume a: "answer_ok ans s = (Inr u1, s1)" "fetch (task_of_artifact (op_artifact x)) ErrNotFound s1 = (Inr k, s2)"
      "fetch (get_task k) ErrNotFound s2 = (Inr v, s3)" "answer_ok ans m1 = (Inr u3, s4)"
      "query (live_rivals_of x) m2 = (Inr rivals, s5)"
      "exec (journal rec (applied_event x ans k rivals)) m3 = (Inr (), t)"
    and b: "apply_side_effect x v (aw_actor ans) rec s3 = (Inr u2, m1)"
      "set_option_state_as (op_artifact x) (op_ordinal x) OptionApplied (aw_actor ans) [] (aw_behalf ans)
         (trimmed_reason ans) s4 = (Inr u4, m2)"
      "each (\<lambda>y. mark_option_not_chosen (op_artifact y) (op_ordinal y) (aw_actor ans) (not_chosen_reason x)) rivals s5
         = (Inr u5, m3)"
  note a' = a [unfolded basic_ok answer_ok_ok]
  from that [of k v m1 m2 m3] a' b show thesis by simp
qed

text \<open>
  C7. Applying an option resolves its deliverable's whole choice. A run of \<open>ApplyAs\<close> that returns is
  one abstract step of the options' states: the option becomes applied, every option that was its
  live rival when the run began becomes not chosen, and every other option keeps its state,
  whatever side effect the class had.
\<close>

theorem applying_resolves_the_choice:
  assumes "apply_as x ans rec s = (Inr (), t)"
  shows "option_states t = settle_choice (option_key x) (option_key ` set (live_rivals_of x s)) (option_states s)"
proof -
  obtain k v m1 m2 m3 where steps: "task_of_artifact (op_artifact x) s = Some k" "get_task k s = Some v"
      "apply_side_effect x v (aw_actor ans) rec s = (Inr (), m1)"
      "set_option_state_as (op_artifact x) (op_ordinal x) OptionApplied (aw_actor ans) [] (aw_behalf ans)
         (trimmed_reason ans) m1 = (Inr (), m2)"
      "each (\<lambda>y. mark_option_not_chosen (op_artifact y) (op_ordinal y) (aw_actor ans) (not_chosen_reason x))
         (live_rivals_of x m2) m2 = (Inr (), m3)"
      "t = journal rec (applied_event x ans k (live_rivals_of x m2)) m3"
    using assms by (rule apply_as_ok)
  have e: "effect_kept s m1" using side_effects_keep steps(3) by (rule keepsD)
  then have o1: "st_options m1 = st_options s" by (simp add: effect_kept_def)
  have m2: "snd (set_option_state_as (op_artifact x) (op_ordinal x) OptionApplied (aw_actor ans) [] (aw_behalf ans)
         (trimmed_reason ans) m1) = m2" using steps(4) by simp
  have "ground s m2"
    using e unfolding m2 [symmetric] set_option_state_as_run by (simp add: effect_kept_def ground_def)
  moreover have "artifact_task (op_artifact x) s = Inr v" using steps(1,2) by (simp add: artifact_task_def)
  ultimately have rivals: "set (live_rivals_of x m2) = set (live_rivals_of x s)"
    by (rule live_rivals_after_mark [where f = "\<lambda>x. x\<lparr>op_state := OptionApplied, op_decided_by := aw_actor ans,
        op_decided_at := sql_now m1, op_reason := [], op_on_behalf_of := aw_behalf ans,
        op_behalf_reason := trimmed_reason ans\<rparr>"])
      (simp_all add: m2 [symmetric] set_option_state_as_run o1)
  have "option_states m2 = (option_states s)(option_key x \<mapsto> OptionApplied)"
    using set_state_states [OF steps(4)] option_states_same [OF o1] by (simp add: option_key_def)
  with not_chosen_states [OF steps(5)] show ?thesis
    by (intro ext) (simp add: steps(6) settle_choice_def rivals)
qed

text \<open>A posted deliverable with two options, and the owner's answer to the first.\<close>

definition demo_choice :: store where
  "demo_choice = demo_board\<lparr>st_options :=
     [demo_option\<lparr>op_artifact := 1, op_class := ''budget.set'', op_state := OptionCarried\<rparr>,
      demo_option\<lparr>op_artifact := 1, op_ordinal := 2, op_class := ''purchase'', op_state := OptionCarried\<rparr>]\<rparr>"

definition demo_first :: option_row where
  "demo_first = demo_option\<lparr>op_artifact := 1, op_class := ''budget.set'', op_state := OptionCarried\<rparr>"

lemma demo_applied:
  "\<exists>t. apply_as demo_first (owner_answer ''ann'') None demo_choice = (Inr (), t)"
proof -
  have "(case apply_as demo_first (owner_answer ''ann'') None demo_choice of (Inr _, t) \<Rightarrow> True | _ \<Rightarrow> False)"
    by code_simp
  then show ?thesis by (auto split: prod.splits sum.splits)
qed

theorem applying_resolves_the_choice_witness:
  "\<exists>t. apply_as demo_first (owner_answer ''ann'') None demo_choice = (Inr (), t) \<and>
     option_states t = settle_choice (1, 1) (option_key ` set (live_rivals_of demo_first demo_choice)) (option_states demo_choice)"
proof -
  obtain t where t: "apply_as demo_first (owner_answer ''ann'') None demo_choice = (Inr (), t)"
    using demo_applied by blast
  from applying_resolves_the_choice [OF this] t show ?thesis
    by (auto simp: option_key_def demo_first_def demo_option_def)
qed

end
