(* ===== verification/Passes.thy ===== *)
theory Passes
  imports Choose Supervise "HOL-Library.Sublist"
begin

text \<open>
  What the supervisor's pass promises: it applies only what it may, at most one option of a
  deliverable, and leaves no option it collected undecided; and what neither the pass nor a
  person's answer can touch: a closed anomaly, an announced driver, a frozen figure.
\<close>

section \<open>What the whole pass keeps\<close>

text \<open>Rows stay in place under their keys, and an option never becomes open again.\<close>

definition settles :: "store \<Rightarrow> store \<Rightarrow> bool" where
  "settles s t \<longleftrightarrow>
     list_all2 (\<lambda>x y. option_key y = option_key x \<and> (op_state y = OptionOpen \<longrightarrow> y = x)) (st_options s) (st_options t)"

text \<open>Nothing becomes posted, and no task is lost.\<close>

definition calm :: "store \<Rightarrow> store \<Rightarrow> bool" where
  "calm s t \<longleftrightarrow>
     (\<forall>i a. artifact_row i t = Some a \<and> ar_state a = PostedDraft \<longrightarrow> artifact_row i s = Some a) \<and>
     (\<forall>i u. find (\<lambda>u. tk_id u = i) (st_tasks s) = Some u \<longrightarrow> find (\<lambda>u. tk_id u = i) (st_tasks t) = Some u)"

definition swept :: "store \<Rightarrow> store \<Rightarrow> bool" where
  "swept s t \<longleftrightarrow> settles s t \<and> calm s t"

lemma settles_refl: "settles s s"
  by (simp add: settles_def list_all2_refl)

lemma settles_trans: "settles s t \<Longrightarrow> settles t u \<Longrightarrow> settles s u"
  unfolding settles_def by (erule (1) list_all2_trans [rotated]) auto

interpretation sk: frame swept
proof
  show "swept s s" for s by (simp add: swept_def settles_refl calm_def)
  show "swept s u" if "swept s t" "swept t u" for s t u
    using that settles_trans [of s t u] by (auto simp: swept_def calm_def)
qed

lemma settles_same: "st_options t = st_options s \<Longrightarrow> settles s t"
  using settles_refl [of s] by (simp add: settles_def)

lemma ground_calm: "ground s t \<Longrightarrow> calm s t"
  by (auto simp: calm_def ground_artifacts intro: ground_first_task)

lemma effect_swept: "effect_kept s t \<Longrightarrow> swept s t"
  by (simp add: swept_def effect_kept_def settles_same ground_calm)

lemma swept_tables:
  "st_options t = st_options s \<Longrightarrow> st_artifacts t = st_artifacts s \<Longrightarrow> st_tasks t = st_tasks s \<Longrightarrow> swept s t"
  by (simp add: swept_def settles_same calm_def artifact_row_def)

lemma set_state_swept:
  assumes "st \<noteq> OptionOpen"
  shows "keeps swept (set_option_state_as a k st who reason behalf why)"
  using assms
  by (intro keepsI)
    (auto simp: set_option_state_as_run swept_def settles_def calm_def artifact_row_def update_where_def option_key_def
      list_all2_map2 intro: list.rel_refl)

lemma set_state_ground: "keeps ground (set_option_state_as a k st who reason behalf why)"
  by (intro keepsI) (simp add: set_option_state_as_run ground_def)

lemma answer_ok_keeps:
  "keeps swept (answer_ok ans)" "keeps ground (answer_ok ans)"
  unfolding answer_ok_def by (auto split: option.split)

lemma apply_as_keeps: "keeps swept (apply_as x ans rec)" "keeps ground (apply_as x ans rec)"
proof -
  have w: "keeps swept m \<and> keeps ground m" if "keeps effect_kept m" for m :: "'c op"
    using keeps_mono [OF that, of swept] keeps_mono [OF that, of ground] by (simp add: effect_swept effect_kept_def)
  note e = w [OF side_effects_keep, THEN conjunct1] w [OF side_effects_keep, THEN conjunct2]
  note j = w [OF effect_emit, THEN conjunct1] w [OF effect_emit, THEN conjunct2]
  show "keeps swept (apply_as x ans rec)"
    unfolding apply_as_def mark_option_applied_as_def mark_option_not_chosen_def set_option_state_def
    by (intro sk.andthen_keeps sk.fetch_keeps sk.query_keeps sk.each_keeps answer_ok_keeps set_state_swept e j) simp_all
  show "keeps ground (apply_as x ans rec)"
    unfolding apply_as_def mark_option_applied_as_def mark_option_not_chosen_def set_option_state_def
    by (intro gk.andthen_keeps gk.fetch_keeps gk.query_keeps gk.each_keeps answer_ok_keeps set_state_ground e j)
qed

lemma decide_group_keeps: "keeps swept (decide_group r rec g acc)" "keeps ground (decide_group r rec g acc)"
proof -
  show "keeps swept (decide_group r rec g acc)"
    unfolding decide_group_def apply_top_def apply_option_def carry_group_def mark_option_carried_def
      set_option_state_def Let_def
    by (intro sk.andthen_keeps sk.attempt_keeps sk.if_keeps sk.ok_keeps sk.each_keeps apply_as_keeps set_state_swept) simp
  show "keeps ground (decide_group r rec g acc)"
    unfolding decide_group_def apply_top_def apply_option_def carry_group_def mark_option_carried_def
      set_option_state_def Let_def
    by (intro gk.andthen_keeps gk.attempt_keeps gk.if_keeps gk.ok_keeps gk.each_keeps apply_as_keeps set_state_ground)
qed

lemma decide_groups_keeps: "keeps swept (decide_groups r rec gs acc)" "keeps ground (decide_groups r rec gs acc)"
  by (induction gs arbitrary: acc) (auto intro: decide_group_keeps)


lemma ensure_task_swept: "keeps swept (ensure_task sprint ti goal who desk budget)"
  by (intro keepsI) (simp add: ensure_task_def Let_def sk.refl swept_def settles_same calm_def insert_task_def
      artifact_row_def find_append split: option.split)

lemma new_request_swept: "keeps swept (new_request sprint owner body lapses task)"
  unfolding new_request_def
  by (intro sk.andthen_keeps sk.query_keeps sk.ensure_keeps sk.ok_keeps sk.exec_keeps)
    (auto simp: swept_def settles_same calm_def artifact_row_def find_append split: option.splits if_splits)

lemma redraft_swept: "keeps swept (exec (update_artifact i (\<lambda>a. a\<lparr>ar_body := body, ar_state := Draft\<rparr>)))"
  by (rule sk.exec_keeps)
    (auto simp: swept_def settles_same calm_def artifact_row_def update_artifact_def find_update_where split: if_splits)

lemma ask_owner_swept: "keeps swept (ask_owner sprint rec acc stale w)"
  unfolding ask_owner_def write_decision_request_def ensure_supervisor_task_def emit_def
  by (intro sk.andthen_keeps sk.query_keeps sk.option_keeps sk.ok_keeps redraft_swept ensure_task_swept
      new_request_swept sk.exec_keeps swept_tables; simp)

section \<open>What is no longer open\<close>

definition shut :: "(int \<times> int) set \<Rightarrow> store \<Rightarrow> bool" where
  "shut K s \<longleftrightarrow> (\<forall>y \<in> set (st_options s). option_key y \<in> K \<longrightarrow> op_state y \<noteq> OptionOpen)"

lemma settles_row:
  assumes "settles s t" and "y \<in> set (st_options t)" and "op_state y = OptionOpen"
  shows "y \<in> set (st_options s)"
  using assms by (auto simp: settles_def list_all2_conv_all_nth in_set_conv_nth)

lemma settles_shut: "settles s t \<Longrightarrow> shut K s \<Longrightarrow> shut K t"
  by (metis settles_row shut_def)

lemma swept_shut: "swept s t \<Longrightarrow> shut K s \<Longrightarrow> shut K t"
  unfolding swept_def by (blast intro: settles_shut)

lemma set_state_shut:
  assumes "set_option_state_as a k st who reason behalf why s = (r, t)" and "st \<noteq> OptionOpen"
  shows "shut {(a, k)} t"
  using assms unfolding shut_def
  by (auto simp: set_option_state_as_run option_key_def is_option_def dest!: update_where_cases)

lemma each_shut:
  assumes "each f ys s = (Inr (), t)" and "\<And>y. keeps swept (f y)"
    and "\<And>y s r t. f y s = (r, t) \<Longrightarrow> shut {option_key y} t"
  shows "shut (option_key ` set ys) t"
  using assms(1)
proof (induction ys arbitrary: s)
  case Nil
  then show ?case by (simp add: shut_def)
next
  case (Cons y ys)
  then obtain m where m: "f y s = (Inr (), m)" and rest: "each f ys m = (Inr (), t)"
    by (auto simp: op_ok)
  have "swept m t" using sk.each_keeps [of ys f] assms(2) rest by (metis keepsD)
  from swept_shut [OF this assms(3) [OF m]] Cons.IH [OF rest]
  show ?case by (auto simp: shut_def)
qed

lemma not_chosen_swept: "keeps swept (mark_option_not_chosen a k who reason)"
  unfolding mark_option_not_chosen_def set_option_state_def by (rule set_state_swept) simp

lemma carried_swept: "keeps swept (mark_option_carried a k)"
  unfolding mark_option_carried_def set_option_state_def by (rule set_state_swept) simp

lemma apply_as_shuts:
  assumes "apply_as x ans rec s = (Inr (), t)"
  shows "shut {k. fst k = op_artifact x} t"
proof -
  obtain k m1 m2 m3 where marked: "set_option_state_as (op_artifact x) (op_ordinal x) OptionApplied (aw_actor ans) []
        (aw_behalf ans) (trimmed_reason ans) m1 = (Inr (), m2)"
    and each: "each (\<lambda>y. mark_option_not_chosen (op_artifact y) (op_ordinal y) (aw_actor ans) (not_chosen_reason x))
        (live_rivals_of x m2) m2 = (Inr (), m3)"
    and t: "t = journal rec (applied_event x ans k (live_rivals_of x m2)) m3"
    using assms by (rule apply_as_ok)
  have own: "shut {option_key x} m2"
    using set_state_shut [OF marked] by (simp add: option_key_def)
  have lost: "shut (option_key ` set (live_rivals_of x m2)) m3"
  proof (rule each_shut [OF each])
    show "keeps swept (mark_option_not_chosen (op_artifact y) (op_ordinal y) (aw_actor ans) (not_chosen_reason x))" for y
      by (rule not_chosen_swept)
    show "shut {option_key y} v" if "mark_option_not_chosen (op_artifact y) (op_ordinal y) (aw_actor ans)
        (not_chosen_reason x) u = (r, v)" for y u r v
      using set_state_shut [OF that [unfolded mark_option_not_chosen_def set_option_state_def]]
      by (simp add: option_key_def)
  qed
  have "swept m2 m3" using keepsD [OF sk.each_keeps [OF not_chosen_swept] each] .
  then have kept: "settles m2 m3" by (simp add: swept_def)
  have "op_state y \<noteq> OptionOpen" if y: "y \<in> set (st_options m3)" "op_artifact y = op_artifact x" for y
  proof
    assume o': "op_state y = OptionOpen"
    then have y2: "y \<in> set (st_options m2)" using settles_row [OF kept y(1)] by simp
    then have "\<not> is_option (op_artifact x) (op_ordinal x) y"
      using own o' by (auto simp: shut_def is_option_def option_key_def)
    then have "y \<in> set (live_rivals_of x m2)" using y2 y(2) o' by (simp add: live_rivals_set live_def)
    then show False using lost y(1) o' by (auto simp: shut_def)
  qed
  then show ?thesis by (auto simp: t shut_def option_key_def)
qed


section \<open>Deciding the deliverables\<close>

text \<open>What the supervisor may apply, read off a store.\<close>

definition selectable :: "store \<Rightarrow> option_row \<Rightarrow> bool" where
  "selectable s x \<longleftrightarrow> supervisor_may_select roles_yaml (op_class x) = None \<and> op_figure x \<le> anomaly_threshold \<and>
     (\<exists>r. recorded_figure x s = Inr r \<and> figure_agrees x r)"

definition of_one_artifact :: "int \<times> option_row list \<Rightarrow> bool" where
  "of_one_artifact g \<longleftrightarrow> snd g \<noteq> [] \<and> (\<forall>x \<in> set (snd g). op_artifact x = fst g)"

text \<open>A deliverable's options are applied by their best, or carried whole.\<close>

lemma decide_group_ok:
  assumes "decide_group r rec g acc s = (Inr acc', t)" and "of_one_artifact g"
  shows "shut (option_key ` set (snd g)) t \<and>
    (sw_applied acc' = sw_applied acc @ [hd (snd g)] \<and> sw_carried acc' = sw_carried acc \<and> selectable s (hd (snd g)) \<or>
     sw_applied acc' = sw_applied acc \<and> sw_carried acc' = sw_carried acc @ snd g)"
proof -
  let ?x = "hd (snd g)"
  have home: "y \<in> set (snd g) \<Longrightarrow> op_artifact y = op_artifact ?x" for y
    using assms(2) by (auto simp: of_one_artifact_def)
  obtain recorded aid where rf: "recorded_figure ?x s = Inr recorded"
    and run: "(if may_apply r ?x recorded aid acc then apply_top rec ?x aid acc
       else andthen (attempt (owner_of_option ?x)) (\<lambda>w.
         carry_group r recorded (case map_of (fst r) (fst g) of None \<Rightarrow> w | Some o' \<Rightarrow> o') (snd g) acc)) s = (Inr acc', t)"
    using assms(1) unfolding decide_group_def Let_def by (auto simp: andthen_ok basic_ok)
  show ?thesis
  proof (cases "may_apply r ?x recorded aid acc")
    case True
    then have "apply_as ?x \<lparr>aw_actor = ''supervisor'', aw_as = [], aw_behalf = [], aw_reason = []\<rparr> rec s = (Inr (), t)"
      and "sw_applied acc' = sw_applied acc @ [?x]" "sw_carried acc' = sw_carried acc"
      using run by (auto simp: apply_top_def apply_option_def andthen_ok basic_ok)
    moreover have "selectable s ?x"
      using True rf by (auto simp: selectable_def may_apply_def judged_figure_def figure_agrees_def split: option.splits)
    moreover have "shut {k. fst k = op_artifact ?x} t" by (rule apply_as_shuts) fact
    ultimately show ?thesis using home by (auto simp: shut_def option_key_def)
  next
    case False
    then have e: "each (\<lambda>x. mark_option_carried (op_artifact x) (op_ordinal x)) (snd g) s = (Inr (), t)"
      and "sw_applied acc' = sw_applied acc" "sw_carried acc' = sw_carried acc @ snd g"
      using run by (auto simp: carry_group_def andthen_ok basic_ok)
    moreover have "shut (option_key ` set (snd g)) t"
    proof (rule each_shut [OF e])
      show "keeps swept (mark_option_carried (op_artifact y) (op_ordinal y))" for y by (rule carried_swept)
      show "shut {option_key y} v" if "mark_option_carried (op_artifact y) (op_ordinal y) u = (q, v)" for y u q v
        using set_state_shut [OF that [unfolded mark_option_carried_def set_option_state_def]]
        by (simp add: option_key_def)
    qed
    ultimately show ?thesis by blast
  qed
qed

lemma ground_recorded:
  assumes "ground s u" and "artifact_task (op_artifact x) s = Inr v"
  shows "recorded_figure x u = recorded_figure x s"
proof -
  have "artifact_task (op_artifact x) u = Inr v" using assms by (rule ground_artifact_task)
  moreover have "map_option (\<lambda>a. cents_abs (ay_excess a)) (get_anomaly i u) =
      map_option (\<lambda>a. cents_abs (ay_excess a)) (get_anomaly i s)" for i
    using arg_cong [OF ground_get_anomaly [OF assms(1), of i], of "map_option (\<lambda>a. cents_abs (ay_excess a))"]
    by (simp add: option.map_comp o_def)
  ultimately show ?thesis using assms(2) unfolding recorded_figure_def
    by (auto split: option.split) (metis option.simps(8,9) option.inject option.distinct(1))+
qed

lemma decide_groups_ok:
  assumes "decide_groups r rec gs acc s = (Inr acc', t)" and "list_all of_one_artifact gs"
  shows "\<exists>ns cs. sw_applied acc' = sw_applied acc @ ns \<and> sw_carried acc' = sw_carried acc @ cs \<and>
     subseq ns (map (hd o snd) gs) \<and>
     (\<forall>x \<in> set ns. \<exists>u. ground s u \<and> selectable u x) \<and>
     (\<forall>g \<in> set gs. shut (option_key ` set (snd g)) t \<and> (hd (snd g) \<in> set ns \<or> set (snd g) \<subseteq> set cs))"
  using assms
proof (induction gs arbitrary: acc s)
  case Nil
  then show ?case by (auto simp: basic_ok)
next
  case (Cons g gs)
  obtain acc1 m where one: "decide_group r rec g acc s = (Inr acc1, m)"
    and rest: "decide_groups r rec gs acc1 m = (Inr acc', t)"
    using Cons.prems(1) by (auto simp: andthen_ok)
  have l: "list_all of_one_artifact gs" using Cons.prems(2) by simp
  obtain ns cs where ih: "sw_applied acc' = sw_applied acc1 @ ns" "sw_carried acc' = sw_carried acc1 @ cs"
      "subseq ns (map (hd o snd) gs)" "\<forall>x \<in> set ns. \<exists>u. ground m u \<and> selectable u x"
      "\<forall>g \<in> set gs. shut (option_key ` set (snd g)) t \<and> (hd (snd g) \<in> set ns \<or> set (snd g) \<subseteq> set cs)"
    using Cons.IH [OF rest l] by blast
  note step = decide_group_ok [OF one]
  have g: "ground s m" by (rule keepsD [OF decide_group_keeps(2) one])
  have "swept m t" by (rule keepsD [OF decide_groups_keeps(1) rest])
  then have shut: "shut (option_key ` set (snd g)) t"
    using step Cons.prems(2) by (auto intro: swept_shut)
  have sel: "\<forall>x \<in> set ns. \<exists>u. ground s u \<and> selectable u x"
    using ih(4) g by (blast intro: ground_trans)
  from step Cons.prems(2) consider
      "sw_applied acc1 = sw_applied acc @ [hd (snd g)]" "sw_carried acc1 = sw_carried acc" "selectable s (hd (snd g))"
    | "sw_applied acc1 = sw_applied acc" "sw_carried acc1 = sw_carried acc @ snd g" by auto
  then show ?case
  proof cases
    case 1
    with ih shut sel show ?thesis
      by - (rule exI [of _ "hd (snd g) # ns"], rule exI [of _ cs], auto simp: comp_def intro: ground_refl)
  next
    case 2
    with ih shut sel show ?thesis
      by - (rule exI [of _ ns], rule exI [of _ "snd g @ cs"], auto simp: comp_def)
  qed
qed


section \<open>Grouping\<close>

lemma set_rank_options [simp]: "set (rank_options xs) = set xs"
  by (simp add: rank_options_def)

lemma first_seen_set [simp]: "set (first_seen xs) = set xs" "distinct (first_seen xs)"
  by (simp_all add: first_seen_def)

lemma groups_fst: "map fst (group_by_artifact xs) = first_seen (map op_artifact xs)"
  by (simp add: group_by_artifact_def o_def)

lemma groups_of_one: "list_all of_one_artifact (group_by_artifact xs)"
  by (auto simp: group_by_artifact_def list_all_iff of_one_artifact_def filter_empty_conv)

lemma groups_cover: "(\<Union>g \<in> set (group_by_artifact xs). set (snd g)) = set xs"
  by (auto simp: group_by_artifact_def)

lemma group_heads:
  assumes "list_all of_one_artifact gs"
  shows "map op_artifact (map (hd o snd) gs) = map fst gs"
  using assms by (induction gs) (auto simp: of_one_artifact_def)

lemma collected_row:
  assumes "x \<in> set (open_options_for_sprint sprint s)"
  shows "\<exists>v. artifact_task (op_artifact x) s = Inr v"
proof -
  obtain a u where a: "artifact_row (op_artifact x) s = Some a" and u: "find (\<lambda>t. tk_id t = ar_task a) (st_tasks s) = Some u"
    using assms by (auto simp: open_options_for_sprint_def in_order_def homed_def option_home_def split: option.splits)
  then have "filter (\<lambda>t. tk_id t = ar_task a) (st_tasks s) \<noteq> []"
    by (auto simp: find_filter split: list.splits)
  then obtain v where "get_task (ar_task a) s = Some v"
    by (cases "rev (filter (\<lambda>t. tk_id t = ar_task a) (st_tasks s))") (auto simp: get_task_row)
  then show ?thesis by (simp add: artifact_task_def task_of_artifact_def a)
qed

lemma supervise_ok:
  assumes "supervise sprint rec quote s = (Inr p, t)"
  obtains r acc m where "decide_groups r rec (group_by_artifact (rank_options (open_options_for_sprint sprint s))) no_sweep s = (Inr acc, m)"
    and "ps_applied p = sw_applied acc" and "ps_carried p = sw_carried acc" and "swept m t"
proof -
  from assms obtain r acc m reqs where d: "decide_groups r rec (group_by_artifact (rank_options (open_options_for_sprint sprint s))) no_sweep s = (Inr acc, m)"
    and c: "collect (ask_owner sprint rec acc (stale_halts m)) (sort_names (map fst (sw_owners acc) @ map halt_owner (stale_halts m))) m = (Inr reqs, t)"
    and p: "p = \<lparr>ps_applied = sw_applied acc, ps_carried = sw_carried acc, ps_requests = reqs, ps_stale = stale_halts m\<rparr>"
    unfolding supervise_def by (auto simp: andthen_ok basic_ok)
  have "swept m t" using keepsD [OF sk.collect_keeps [OF ask_owner_swept] c] .
  with that d p show thesis by simp
qed

lemma supervise_outcome:
  assumes "supervise sprint rec quote s = (Inr p, t)"
  defines "gs \<equiv> group_by_artifact (rank_options (open_options_for_sprint sprint s))"
  shows "subseq (ps_applied p) (map (hd o snd) gs) \<and>
    (\<forall>x \<in> set (ps_applied p). \<exists>u. ground s u \<and> selectable u x) \<and>
    (\<forall>g \<in> set gs. shut (option_key ` set (snd g)) t \<and> (hd (snd g) \<in> set (ps_applied p) \<or> set (snd g) \<subseteq> set (ps_carried p)))"
proof -
  obtain r acc m where d: "decide_groups r rec gs no_sweep s = (Inr acc, m)"
    and p: "ps_applied p = sw_applied acc" "ps_carried p = sw_carried acc" and m: "swept m t"
    using assms(1) unfolding gs_def by (rule supervise_ok)
  have "list_all of_one_artifact gs" unfolding gs_def by (rule groups_of_one)
  from decide_groups_ok [OF d this] m show ?thesis
    by (auto simp: no_sweep_def p intro: swept_shut)
qed

lemma anomaly_threshold_value: "anomaly_threshold = 250000"
  by code_simp


section \<open>The promises of the pass\<close>

lemma group_head_collected:
  assumes "x \<in> set (map (hd o snd) (group_by_artifact (rank_options xs)))"
  shows "x \<in> set xs"
  using assms groups_of_one [of "rank_options xs"] groups_cover [of "rank_options xs"]
  by (fastforce simp: list_all_iff of_one_artifact_def)

lemma supervise_applied:
  assumes "supervise sprint rec quote s = (Inr p, t)" and "x \<in> set (ps_applied p)"
  shows "x \<in> set (open_options_for_sprint sprint s) \<and> selectable s x"
proof -
  note out = supervise_outcome [OF assms(1)]
  have x: "x \<in> set (open_options_for_sprint sprint s)"
    using out list_emb_set [of "(=)", OF _ assms(2)] by (blast intro: group_head_collected)
  obtain u where u: "ground s u" "selectable u x" using out assms(2) by blast
  from collected_row [OF x] ground_recorded [OF u(1)] u(2) x show ?thesis by (auto simp: selectable_def)
qed

text \<open>
  C1. What the supervisor may do alone. Every option its pass applies is one it collected, open on a
  posted deliverable of the sprint; of a class that belongs to an analyst or to the supervisor, never
  to the owner or to nobody; with a figure of at most USD 2,500; and, where the deliverable is about
  an anomaly, a figure equal to the excess detection recorded, not one the deliverable made up.
\<close>

theorem supervisor_applies_only_its_own:
  assumes "supervise sprint rec quote s = (Inr p, t)" and "x \<in> set (ps_applied p)"
  shows "x \<in> set (open_options_for_sprint sprint s) \<and>
    (\<exists>jc. class_for roles_yaml (op_class x) = Some jc \<and> jc_owner jc \<in> {''analyst'', ''supervisor''}) \<and>
    op_figure x \<le> 250000 \<and> recorded_figure x s \<in> {Inr None, Inr (Some (op_figure x))}"
proof -
  note sel = supervise_applied [OF assms]
  then have "supervisor_may_select roles_yaml (op_class x) = None" by (simp add: selectable_def)
  then have "\<exists>jc. class_for roles_yaml (op_class x) = Some jc \<and> jc_owner jc \<in> {''analyst'', ''supervisor''}"
    by (auto simp: supervisor_may_select_def may_decide_def split: option.splits if_splits)
  moreover have "recorded_figure x s \<in> {Inr None, Inr (Some (op_figure x))}"
    using sel by (cases "recorded_figure x s") (auto simp: selectable_def figure_agrees_def split: option.splits)
  ultimately show ?thesis using sel by (simp add: selectable_def anomaly_threshold_value)
qed

text \<open>
  C12. One option of a deliverable. A pass never applies two options of one deliverable, whatever its
  options were and however they rank.
\<close>

theorem one_option_of_a_deliverable:
  assumes "supervise sprint rec quote s = (Inr p, t)"
  shows "distinct (map op_artifact (ps_applied p))"
proof -
  let ?gs = "group_by_artifact (rank_options (open_options_for_sprint sprint s))"
  have "subseq (map op_artifact (ps_applied p)) (map op_artifact (map (hd o snd) ?gs))"
    using supervise_outcome [OF assms] by (blast intro: subseq_map)
  then have "subseq (map op_artifact (ps_applied p)) (first_seen (map op_artifact (rank_options (open_options_for_sprint sprint s))))"
    by (simp only: group_heads [OF groups_of_one] groups_fst)
  then show ?thesis using subseqs_distinctD [of _ "first_seen (map op_artifact (rank_options (open_options_for_sprint sprint s)))"] by simp
qed

lemma collected_is_decided:
  assumes "supervise sprint rec quote s = (Inr p, t)" and "x \<in> set (open_options_for_sprint sprint s)"
  shows "(x \<in> set (ps_carried p) \<or> op_artifact x \<in> op_artifact ` set (ps_applied p)) \<and> shut {option_key x} t"
proof -
  let ?gs = "group_by_artifact (rank_options (open_options_for_sprint sprint s))"
  obtain g where g: "g \<in> set ?gs" and x: "x \<in> set (snd g)"
    using groups_cover [of "rank_options (open_options_for_sprint sprint s)"] assms(2) unfolding set_rank_options by blast
  have "of_one_artifact g" using groups_of_one g by (auto simp: list_all_iff)
  then have "op_artifact x = op_artifact (hd (snd g))" using x by (auto simp: of_one_artifact_def)
  then show ?thesis
    using supervise_outcome [OF assms(1)] g x by (auto simp: shut_def)
qed

text \<open>
  C6. Nothing is dropped. Every option the pass collected is either carried to an owner or belongs to
  a deliverable the pass applied an option of, and none of them is open any more.
\<close>

theorem no_option_is_dropped:
  assumes "supervise sprint rec quote s = (Inr p, t)" and "x \<in> set (open_options_for_sprint sprint s)"
  shows "(x \<in> set (ps_carried p) \<or> op_artifact x \<in> op_artifact ` set (ps_applied p)) \<and>
    (\<forall>y \<in> set (st_options t). option_key y = option_key x \<longrightarrow> op_state y \<noteq> OptionOpen)"
  using collected_is_decided [OF assms] by (auto simp: shut_def)

lemma supervise_swept: "supervise sprint rec quote s = (Inr p, t) \<Longrightarrow> swept s t"
  by (erule supervise_ok) (blast intro: sk.trans keepsD [OF decide_groups_keeps(1)])

text \<open>
  C11. A second pass finds nothing. Where every deliverable's task is in the table, a pass leaves the
  sprint without an option it would collect, so running it again decides nothing twice.
\<close>

theorem second_pass_finds_nothing:
  assumes "supervise sprint rec quote s = (Inr p, t)"
    and "list_all (\<lambda>a. ar_task a \<in> tk_id ` set (st_tasks s)) (st_artifacts s)"
  shows "open_options_for_sprint sprint t = []"
proof -
  have kept: "settles s t" "calm s t" using supervise_swept [OF assms(1)] by (simp_all add: swept_def)
  have False if y: "y \<in> set (open_options_for_sprint sprint t)" for y
  proof -
    obtain a u where row: "y \<in> set (st_options t)" "op_state y = OptionOpen"
        and a: "artifact_row (op_artifact y) t = Some a" "ar_state a = PostedDraft"
        and u: "find (\<lambda>u. tk_id u = ar_task a) (st_tasks t) = Some u" "tk_sprint u = sprint"
      using y by (auto simp: open_options_for_sprint_def in_order_def homed_def option_home_def split: option.splits)
    have as: "artifact_row (op_artifact y) s = Some a" using kept(2) a by (auto simp: calm_def)
    then have "ar_task a \<in> tk_id ` set (st_tasks s)" using assms(2) by (auto simp: list_all_iff dest: artifact_row_SomeD)
    then obtain v where "find (\<lambda>u. tk_id u = ar_task a) (st_tasks s) = Some v"
      by (cases "find (\<lambda>u. tk_id u = ar_task a) (st_tasks s)") (auto simp: find_None_iff)
    moreover from this have "v = u" using kept(2) u(1) by (auto simp: calm_def)
    moreover have "y \<in> set (st_options s)" using settles_row [OF kept(1) row] .
    ultimately have "y \<in> set (open_options_for_sprint sprint s)"
      using row(2) as a(2) u(2)
      by (simp add: open_options_for_sprint_def in_order_def homed_def option_home_def)
    from collected_is_decided [OF assms(1) this] row show False by (auto simp: shut_def)
  qed
  then show ?thesis by (cases "open_options_for_sprint sprint t") auto
qed


subsection \<open>A concrete pass\<close>

text \<open>A posted deliverable with a rival pair, and no anomaly behind it.\<close>

definition demo_pair :: "option_row list" where
  "demo_pair = [demo_option\<lparr>op_artifact := 1, op_figure := 5000\<rparr>,
                demo_option\<lparr>op_artifact := 1, op_ordinal := 2, op_class := ''purchase''\<rparr>]"

definition demo_desk :: store where
  "demo_desk = demo_board\<lparr>st_tasks := [demo_task\<lparr>tk_anomaly := None\<rparr>], st_options := demo_pair\<rparr>"

lemma demo_collected: "open_options_for_sprint 1 demo_desk = demo_pair"
  by code_simp

lemma demo_routing:
  "(case contradiction_routing quote (rank_options demo_pair) demo_desk of Inr ([], []) \<Rightarrow> True | _ \<Rightarrow> False)"
  by code_simp

lemmas demo_rows = demo_desk_def demo_pair_def demo_board_def demo_task_def demo_artifact_def demo_option_def
  demo_analyst_def empty_store_def

definition by_supervisor :: answer where
  "by_supervisor = \<lparr>aw_actor = ''supervisor'', aw_as = [], aw_behalf = [], aw_reason = []\<rparr>"

lemma demo_best_applied:
  "\<exists>m. apply_option (hd demo_pair) ''supervisor'' None demo_desk = (Inr (), m) \<and> st_halts m = []"
proof -
  have v: "validate_answer by_supervisor = None"
    by (simp add: validate_answer_def on_behalf_def by_supervisor_def)
  have row: "task_of_artifact (op_artifact (hd demo_pair)) demo_desk = Some 1"
      "get_task 1 demo_desk = Some (demo_task\<lparr>tk_anomaly := None\<rparr>)"
    by (simp_all add: task_of_artifact_def artifact_row_def get_task_row demo_rows)
  have side: "apply_side_effect (hd demo_pair) (demo_task\<lparr>tk_anomaly := None\<rparr>) a rec s = (Inr (), s)" for a rec s
    by (simp add: apply_side_effect_def on_anomaly_def demo_rows coalesce_def op_run)
  show ?thesis
    unfolding apply_option_def apply_as_def by_supervisor_def [symmetric] andthen_run answer_ok_run v fetch_run row
      option.case prod.case sum.case side
    by (simp add: andthen_run mark_option_applied_as_def answer_ok_run v set_option_state_as_run op_run)
      (simp add: demo_rows is_option_def update_where_def live_rivals_of_def options_def live_def
        anomaly_of_artifact_def mark_option_not_chosen_def set_option_state_def set_option_state_as_run op_run
        emit_def task_of_artifact_def artifact_row_def get_task_row coalesce_def)
qed

lemma no_sweep_fields:
  "sw_applied no_sweep = []" "sw_owners no_sweep = []" "sw_settled no_sweep = []"
  "no_sweep\<lparr>sw_applied := xs, sw_settled := []\<rparr> = no_sweep\<lparr>sw_applied := xs\<rparr>"
  by (simp_all add: no_sweep_def)

lemma demo_judged: "may_apply ([], []) (hd demo_pair) None [] no_sweep"
  by code_simp

lemma demo_group: "group_by_artifact (rank_options demo_pair) = [(1, demo_pair)]"
  by code_simp

lemma demo_decided:
  "\<exists>acc m. decide_groups ([], []) None (group_by_artifact (rank_options demo_pair)) no_sweep demo_desk = (Inr acc, m) \<and>
     sw_owners acc = [] \<and> stale_halts m = [] \<and> map option_key (sw_applied acc) = [(1, 1)]"
proof -
  have task: "artifact_task 1 demo_desk = Inr (demo_task\<lparr>tk_anomaly := None\<rparr>)"
    by (simp add: artifact_task_def task_of_artifact_def artifact_row_def get_task_row demo_rows)
  then have "recorded_figure (hd demo_pair) demo_desk = Inr None" "anomaly_of_option (hd demo_pair) demo_desk = Inr []"
    by (simp_all add: recorded_figure_def anomaly_of_option_def demo_pair_def demo_option_def coalesce_def)
  moreover obtain m where "apply_option (hd demo_pair) ''supervisor'' None demo_desk = (Inr (), m)" "st_halts m = []"
    using demo_best_applied by blast
  moreover have "option_key (hd demo_pair) = (1, 1)" by (simp add: demo_pair_def demo_option_def option_key_def)
  ultimately show ?thesis using demo_judged
    by (intro exI [of _ "no_sweep\<lparr>sw_applied := [hd demo_pair]\<rparr>"] exI [of _ m])
      (simp add: demo_group decide_group_def Let_def apply_top_def op_run no_sweep_fields stale_halts_def halts_def
        split: option.split)
qed

lemma demo_pass:
  "\<exists>p t. supervise 1 None quote demo_desk = (Inr p, t) \<and> map option_key (ps_applied p) = [(1, 1)]"
proof -
  have "contradiction_routing quote (rank_options demo_pair) demo_desk = Inr ([], [])"
    using demo_routing [of quote] by (auto split: sum.splits prod.splits list.splits)
  then show ?thesis
    using demo_decided by (auto simp: supervise_def op_run demo_collected sort_names_def)
qed

theorem supervisor_applies_only_its_own_witness:
  "\<exists>p x. fst (supervise 1 None id demo_desk) = Inr p \<and> x \<in> set (ps_applied p) \<and> x \<in> set demo_pair \<and>
     op_figure x \<le> 250000 \<and> recorded_figure x demo_desk \<in> {Inr None, Inr (Some (op_figure x))}"
proof -
  obtain p t where p: "supervise 1 None id demo_desk = (Inr p, t)" "map option_key (ps_applied p) = [(1, 1)]"
    using demo_pass [of id] by (elim exE conjE)
  then obtain x where x: "x \<in> set (ps_applied p)" by (cases "ps_applied p") auto
  from supervisor_applies_only_its_own [OF p(1) x] p x show ?thesis
    by (intro exI [of _ p] exI [of _ x]) (simp add: demo_collected)
qed

theorem one_option_of_a_deliverable_witness:
  "\<exists>p. fst (supervise 1 None id demo_desk) = Inr p \<and> ps_applied p \<noteq> [] \<and> distinct (map op_artifact (ps_applied p))"
proof -
  obtain p t where p: "supervise 1 None id demo_desk = (Inr p, t)" "map option_key (ps_applied p) = [(1, 1)]"
    using demo_pass [of id] by (elim exE conjE)
  from one_option_of_a_deliverable [OF p(1)] p show ?thesis by (intro exI [of _ p]) auto
qed

lemma demo_rival: "demo_option\<lparr>op_artifact := 1, op_ordinal := 2, op_class := ''purchase''\<rparr> \<in> set demo_pair"
  by (simp add: demo_pair_def)

theorem no_option_is_dropped_witness:
  "\<exists>p t. supervise 1 None id demo_desk = (Inr p, t) \<and>
     list_all (\<lambda>y. option_key y = (1, 2) \<longrightarrow> op_state y \<noteq> OptionOpen) (st_options t)"
proof -
  obtain p t where p: "supervise 1 None id demo_desk = (Inr p, t)" using demo_pass by blast
  from no_option_is_dropped [OF p demo_rival [folded demo_collected]] p show ?thesis
    by (auto simp: list_all_iff option_key_def demo_option_def)
qed

theorem second_pass_finds_nothing_witness:
  "\<exists>p t. supervise 1 None id demo_desk = (Inr p, t) \<and> open_options_for_sprint 1 t = []"
proof -
  obtain p t where p: "supervise 1 None id demo_desk = (Inr p, t)" using demo_pass by blast
  have "list_all (\<lambda>a. ar_task a \<in> tk_id ` set (st_tasks demo_desk)) (st_artifacts demo_desk)" by code_simp
  from second_pass_finds_nothing [OF p this] p show ?thesis by blast
qed

end
