(* ===== verification/Practice.thy ===== *)
theory Practice
  imports Passes
begin

text \<open>
  The desk as a whole: a person's answers, the supervisor's passes, the save-time gate, detection,
  the moves of an anomaly, freezing and the board, as the steps of one relation, and what no
  sequence of them changes.
\<close>

section \<open>What an answer can write\<close>

text \<open>
  A relation between stores that holds wherever the anomalies, the forecasts and the options are
  untouched, and that the few writes to those three tables keep. Every answer and every pass keeps
  it then.
\<close>

locale desk_frame = frame R for R :: "store \<Rightarrow> store \<Rightarrow> bool" +
  assumes elsewhere: "st_anomalies t = st_anomalies s \<Longrightarrow> st_forecasts t = st_forecasts s \<Longrightarrow>
      st_options t = st_options s \<Longrightarrow> R s t"
    and explains: "keeps R (explain_anomaly i reason rec)"
    and accepts: "keeps R (accept_anomaly i reason rec)"
    and dismisses: "keeps R (dismiss_anomaly i reason rec)"
    and freezes: "keeps R (freeze_as_at p who through)"
    and rebases: "keeps R (set_forecast_basis p basis)"
    and marks: "st \<noteq> OptionOpen \<Longrightarrow> (st = OptionRefused \<Longrightarrow> \<not> blank reason) \<Longrightarrow>
      (behalf \<noteq> [] \<Longrightarrow> st \<in> {OptionApplied, OptionRefused} \<and> why \<noteq> [] \<and> length why \<le> behalf_reason_max_bytes) \<Longrightarrow>
      keeps R (set_option_state_as a k st who reason behalf why)"
begin

lemma exec_elsewhere [intro]:
  "(\<And>s. st_anomalies (f s) = st_anomalies s \<and> st_forecasts (f s) = st_forecasts s \<and> st_options (f s) = st_options s) \<Longrightarrow>
   keeps R (exec f)"
  by (rule exec_keeps) (simp add: elsewhere)

lemma emits [intro!, simp]: "keeps R (emit rec e)"
  unfolding emit_def by (rule exec_elsewhere) simp

lemma halts_kept [intro!]: "keeps R (apply_halt_option x actor rec)"
  unfolding apply_halt_option_def apply_halt_def set_state_def Let_def
  by (intro andthen_keeps ensure_keeps attempt_keeps query_keeps ok_keeps if_keeps each_keeps fetch_keeps emits
      exec_elsewhere; simp add: update_analyst_def)

lemma publishes [intro!]: "keeps R (apply_explainer_publish x actor)"
proof -
  have "keeps R (draft_explainer team topic audience author body amount)" for team topic audience author body amount
    by (rule keepsI) (simp add: draft_explainer_def Let_def elsewhere)
  then show ?thesis
    unfolding apply_explainer_publish_def publish_artifact_def publish_def
    by (intro andthen_keeps fetch_keeps ensure_keeps query_keeps ok_keeps exec_elsewhere) simp_all
qed

lemma rules_kept [intro!]: "keeps R (apply_allocation_rule x actor)"
  unfolding apply_allocation_rule_def apply_unit_rule_def set_rule_def
  by (auto split: unit_reading.split option.split)

lemma drivers_kept [intro!]: "keeps R (apply_driver x t kind)" "keeps R (apply_announced x t actor)"
  unfolding apply_driver_def apply_announced_def insert_driver_def by auto

lemma tasks_kept [intro!]: "keeps R (ensure_task sprint title goal who desk budget)"
  by (rule keepsI) (simp add: ensure_task_def Let_def refl elsewhere insert_task_def split: option.split)

lemma closes_kept [intro!]: "keeps R (close_period p who)" "keeps R (reopen p reason)"
    "keeps R (queue_showback_tasks p sprint)"
  unfolding close_period_def reopen_def queue_showback_tasks_def
  by (intro andthen_keeps ensure_keeps query_keeps prod_keeps each_keeps if_keeps ok_keeps exec_elsewhere tasks_kept; simp)+

lemma effects_kept: "keeps R (apply_side_effect x t actor rec)"
  unfolding apply_side_effect_def on_anomaly_def in_open_period_def apply_reopen_def Let_def freeze_def
  using explains accepts dismisses freezes rebases by (auto split: list.split)

text \<open>An answer that is not valid stops before anything is written.\<close>

lemma answered [intro]: "(validate_answer ans = None \<Longrightarrow> keeps R m) \<Longrightarrow> keeps R (andthen (answer_ok ans) (\<lambda>_. m))"
  by (cases "validate_answer ans") (auto intro!: keepsI simp: answer_ok_def op_run refl keeps_def)

lemma valid_answer_reason:
  assumes "validate_answer ans = None" and "aw_behalf ans \<noteq> []"
  shows "trimmed_reason ans \<noteq> [] \<and> length (trimmed_reason ans) \<le> behalf_reason_max_bytes"
  using assms by (auto simp: validate_answer_def trimmed_reason_def on_behalf_def valid_behalf_reason_def Let_def
      split: if_splits sum.splits option.splits)

lemma answer_marks: "validate_answer ans = None \<Longrightarrow> st \<in> {OptionApplied, OptionRefused} \<Longrightarrow>
    (st = OptionRefused \<Longrightarrow> \<not> blank reason) \<Longrightarrow>
    keeps R (set_option_state_as a k st who reason (aw_behalf ans) (trimmed_reason ans))"
  using valid_answer_reason by (intro marks) auto

lemma applies: "keeps R (apply_as x ans rec)"
  unfolding apply_as_def mark_option_applied_as_def mark_option_not_chosen_def set_option_state_def
  by (intro answered andthen_keeps fetch_keeps query_keeps each_keeps effects_kept answer_marks marks emits; simp)

lemma refuses: "keeps R (refuse_option a k ans reason rec)"
proof (cases "blank reason")
  case True
  then show ?thesis unfolding refuse_option_def
    by (intro keepsI) (auto simp: op_run refl answer_ok_run split: option.split)
next
  case False
  then show ?thesis unfolding refuse_option_def
    by (intro answered andthen_keeps ensure_keeps fetch_keeps answer_marks emits) simp_all
qed

lemma requests_kept: "keeps R (ask_owner sprint rec acc stale w)"
  unfolding ask_owner_def write_decision_request_def ensure_supervisor_task_def new_request_def
  by (intro andthen_keeps query_keeps option_keeps ok_keeps ensure_keeps tasks_kept exec_elsewhere emits;
      simp add: update_artifact_def)

lemma decides: "keeps R (decide_group r rec g acc)"
  unfolding decide_group_def apply_top_def apply_option_def carry_group_def mark_option_carried_def
    set_option_state_def Let_def
  by (intro andthen_keeps attempt_keeps if_keeps ok_keeps each_keeps applies marks) simp_all

lemma supervises: "keeps R (supervise sprint rec quote)"
proof -
  have "keeps R (decide_groups r rec gs acc)" for r gs acc
    by (induction gs arbitrary: acc) (auto intro: decides)
  then show ?thesis
    unfolding supervise_def by (intro andthen_keeps query_keeps attempt_keeps collect_keeps ok_keeps requests_kept)
qed

end

section \<open>Steps\<close>

inductive practice_step :: "store \<Rightarrow> store \<Rightarrow> bool" where
  apply_step: "practice_step s (snd (apply_as x ans rec s))"
| refuse_step: "practice_step s (snd (refuse_option a k ans reason rec s))"
| supervise_step: "practice_step s (snd (supervise sprint rec quote s))"
| save_step: "practice_step s (snd (validate_and_save_options a role body say rec s))"
| request_step: "practice_step s (snd (post_decision_request_if_complete sprint owner s))"
| freeze_step: "practice_step s (snd (freeze_as_at p who through s))"
| basis_step: "practice_step s (snd (set_forecast_basis p basis s))"
| lift_step: "practice_step s (snd (lift_halt desk reason who rec s))"
| anomaly_moves: "anomaly_step s t \<Longrightarrow> practice_step s t"
| board_moves: "board_step s t \<Longrightarrow> practice_step s t"

inductive_cases practice_stepE: "practice_step s t"

text \<open>The board writes none of the three tables, nor a closed month.\<close>

definition off_board :: "store \<Rightarrow> store \<Rightarrow> bool" where
  "off_board s t \<longleftrightarrow>
     st_anomalies t = st_anomalies s \<and> st_forecasts t = st_forecasts s \<and> st_options t = st_options s \<and>
     st_chargeback t = st_chargeback s"

interpretation ob: frame off_board
  by unfold_locales (simp_all add: off_board_def)

lemma insert_items_off_board:
  "st_anomalies (fold (insert_item sid) its s) = st_anomalies s \<and>
   st_forecasts (fold (insert_item sid) its s) = st_forecasts s \<and>
   st_options (fold (insert_item sid) its s) = st_options s \<and>
   st_chargeback (fold (insert_item sid) its s) = st_chargeback s"
  by (induction its arbitrary: s) (simp_all add: insert_item_def insert_task_def)

lemma board_ops_off_board:
  "keeps off_board (assign i who)" "keeps off_board (block i reason)"
  "keeps off_board (comment_on i author body)" "keeps off_board (from_anomaly a title goal w d b)"
  "keeps off_board (approve p link)" "keeps off_board (close_sprint i)"
  "keeps off_board (set_state n st reason)" "keeps off_board (rebrief br)"
  "keeps off_board (remove_analyst n)" "keeps off_board (transfer n dd oo pp)"
  "keeps off_board (post i who link)" "keeps off_board (return_artifact i reason link)"
  unfolding assign_def block_def comment_on_def from_anomaly_def approve_def close_sprint_def post_def return_artifact_def
    set_state_def rebrief_def remove_analyst_def transfer_def transfer_checked_def parent_check_def move_work_def
    assignable_to_def must_decide_def Let_def
  by (auto intro!: keepsI simp: off_board_def task_writes update_artifact_def insert_items_off_board Let_def op_run
      split: option.splits)

lemma board_step_elsewhere:
  assumes "board_step s t"
  shows "st_anomalies t = st_anomalies s \<and> st_forecasts t = st_forecasts s \<and> st_options t = st_options s \<and>
    st_chargeback t = st_chargeback s"
proof -
  have "off_board s t"
    by (rule board_step_keeps [OF assms]) (rule board_ops_off_board | simp add: off_board_def)+
  then show ?thesis by (simp add: off_board_def)
qed

context desk_frame begin

lemma lifts: "keeps R (lift_halt desk reason who rec)"
  unfolding lift_halt_def set_state_def
  by (intro andthen_keeps ensure_keeps fetch_keeps each_keeps exec_elsewhere emits ok_keeps; simp add: update_analyst_def)

lemma posts_request: "keeps R (post_decision_request_if_complete sprint owner)"
  unfolding post_decision_request_if_complete_def
  by (intro andthen_keeps query_keeps if_keeps option_keeps ok_keeps exec_elsewhere) simp

text \<open>What is left to show of a relation, for every step to keep it.\<close>

lemma practice_keeps:
  assumes "practice_step s t"
    and "\<And>a role body say rec. keeps R (validate_and_save_options a role body say rec)"
    and "\<And>s t. anomaly_step s t \<Longrightarrow> R s t"
  shows "R s t"
  using assms(1)
proof (cases rule: practice_step.cases)
  case board_moves
  then show ?thesis using board_step_elsewhere by (blast intro: elsewhere)
qed (use assms(2,3) applies refuses supervises posts_request freezes rebases lifts in \<open>auto simp: keeps_def\<close>)

end

section \<open>Closed anomalies\<close>

text \<open>A relation of the anomalies table alone, or of the forecasts table alone, leaves little to show.\<close>

lemma marks_anomalies: "st_anomalies (snd (set_option_state_as a k st who reason behalf why s)) = st_anomalies s"
    "st_forecasts (snd (set_option_state_as a k st who reason behalf why s)) = st_forecasts s"
  by (simp_all add: set_option_state_as_run)

lemma freeze_desk_period: "freeze_desk p who through d s = Inr r \<Longrightarrow> fc_period r = p"
  by (auto simp: freeze_desk_def split: sum.splits)

lemma freeze_cases:
  obtains e where "freeze_as_at p who through s = (Inl e, s)"
  | rows where "\<not> is_frozen p s" and "list_all (\<lambda>f. fc_period f = p) rows"
      and "freeze_as_at p who through s = (Inr (), s\<lparr>st_forecasts := st_forecasts s @ rows\<rparr>)"
proof -
  have run: "snd (collect (\<lambda>d. attempt (f d)) ds s) = s \<and>
      (\<forall>rows. fst (collect (\<lambda>d. attempt (f d)) ds s) = Inr rows \<longrightarrow> list_all (\<lambda>r. \<exists>d. f d s = Inr r) rows)"
    for f :: "string \<Rightarrow> store \<Rightarrow> err + forecast" and ds
    by (induction ds) (auto simp: op_run split: sum.splits prod.splits)
  let ?c = "collect (\<lambda>d. attempt (freeze_desk p who through d)) (desks_in_period p (cut_of through) s) s"
  consider "is_frozen p s" | "\<not> is_frozen p s" "desks_in_period p (cut_of through) s = []"
    | e where "\<not> is_frozen p s" "desks_in_period p (cut_of through) s \<noteq> []" "?c = (Inl e, s)"
    | rows where "\<not> is_frozen p s" "desks_in_period p (cut_of through) s \<noteq> []" "?c = (Inr rows, s)"
    using run [of "freeze_desk p who through" "desks_in_period p (cut_of through) s"]
    by (cases "fst ?c") (metis prod.collapse)+
  then show thesis
  proof cases
    case 1
    then show thesis by (intro that(1)) (simp add: freeze_as_at_def op_run)
  next
    case 2
    then show thesis by (intro that(1)) (simp add: freeze_as_at_def op_run)
  next
    case 3
    then show thesis by (intro that(1)) (simp add: freeze_as_at_def op_run)
  next
    case (4 rows)
    then have "list_all (\<lambda>r. \<exists>d. freeze_desk p who through d s = Inr r) rows"
      using run [of "freeze_desk p who through" "desks_in_period p (cut_of through) s"] by simp
    then have "list_all (\<lambda>f. fc_period f = p) rows"
      by (auto simp: list_all_iff dest: freeze_desk_period)
    with 4 show thesis by (intro that(2)) (simp_all add: freeze_as_at_def op_run)
  qed
qed

lemma freeze_elsewhere: "st_anomalies (snd (freeze_as_at p who through s)) = st_anomalies s"
    "st_options (snd (freeze_as_at p who through s)) = st_options s"
  by (rule freeze_cases [of p who through s]; simp)+

interpretation cd: desk_frame closed_kept
proof
  show "closed_kept s t" if "st_anomalies t = st_anomalies s" for s t using that by (rule closed_kept_same_rows)
  show "keeps closed_kept (explain_anomaly i reason rec)" "keeps closed_kept (accept_anomaly i reason rec)"
    "keeps closed_kept (dismiss_anomaly i reason rec)" for i reason rec by (rule moves_closed_kept)+
  show "keeps closed_kept (freeze_as_at p who through)" for p who through
    by (intro keepsI closed_kept_same_rows) (rule freeze_elsewhere)
  show "keeps closed_kept (set_forecast_basis p basis)" for p basis
    by (intro keepsI closed_kept_same_rows) (simp add: set_forecast_basis_def op_run)
  show "keeps closed_kept (set_option_state_as a k st who reason behalf why)" for a k st who reason behalf why
    by (intro keepsI closed_kept_same_rows) (rule marks_anomalies)
qed

text \<open>The gate writes options and the journal.\<close>

definition off_desk :: "store \<Rightarrow> store \<Rightarrow> bool" where
  "off_desk s t \<longleftrightarrow> st_anomalies t = st_anomalies s \<and> st_forecasts t = st_forecasts s"

interpretation od: frame off_desk
  by unfold_locales (simp_all add: off_desk_def)

lemma saves_off_desk: "keeps off_desk (validate_and_save_options a role body say rec)"
proof -
  have e: "keeps off_desk (emit rec e)" for e
    unfolding emit_def by (rule od.exec_keeps) (simp add: off_desk_def)
  have i: "keeps off_desk (insert_option a x)" for x
    unfolding insert_option_def
    by (intro od.andthen_keeps od.query_keeps od.ensure_keeps od.exec_keeps) (simp add: off_desk_def)
  have "keeps off_desk (case v of Refuse f \<Rightarrow> andthen (emit rec (option_refused say a role f)) (\<lambda>_. ok (Some f))
      | Admit xs \<Rightarrow> andthen (each (insert_option a) xs) (\<lambda>_. ok None))" for v
    by (cases v) (auto intro!: od.andthen_keeps od.each_keeps e i)
  then show ?thesis
    unfolding validate_and_save_options_def by (intro od.andthen_keeps od.attempt_keeps)
qed

lemma saves_elsewhere: "off_desk s (snd (validate_and_save_options a role body say rec s))"
  using saves_off_desk by (simp add: keeps_def)

text \<open>
  C3. A closed anomaly stays closed on the whole desk. Once it is accepted or dismissed, no sequence
  of answers, refusals, supervisor's passes, saved deliverables, freezes, halts lifted, detection
  passes, board moves and moves of anomalies changes its state, its reason, who handled it or when.
\<close>

theorem closed_anomalies_are_final:
  assumes "practice_step\<^sup>*\<^sup>* s t" and "anomaly_row i s = Some a" and "closed_state (ay_state a)"
  shows "\<exists>b. anomaly_row i t = Some b \<and> decision b = decision a"
proof -
  have save: "keeps closed_kept (validate_and_save_options a role body say rec)" for a role body say rec
    using saves_elsewhere by (intro keepsI closed_kept_same_rows) (simp add: off_desk_def)
  have life: "anomaly_step s t \<Longrightarrow> closed_kept s t" for s t
    by (rule anomaly_step_keeps [OF moves_closed_kept run_closed_kept closed_kept_same_rows]) simp_all
  have "closed_kept s t" using assms(1)
  proof (induction rule: rtranclp_induct)
    case (step t u)
    from step.IH cd.practice_keeps [OF step.hyps(2) save life] show ?case by (rule ck.trans)
  qed (rule ck.refl)
  with assms(2,3) show ?thesis by (simp add: closed_kept_def)
qed

section \<open>Frozen figures\<close>

lemma transition_elsewhere:
  "st_forecasts (snd (transition i to reason rec allowed analyst s)) = st_forecasts s"
  "st_options (snd (transition i to reason rec allowed analyst s)) = st_options s"
proof -
  have m: "st_forecasts (snd (report_move i from to reason rec analyst s)) = st_forecasts s"
    "st_options (snd (report_move i from to reason rec analyst s)) = st_options s" for "from" s
    by (simp_all add: report_move_def emit_def op_run split: option.split)
  show "st_forecasts (snd (transition i to reason rec allowed analyst s)) = st_forecasts s"
    "st_options (snd (transition i to reason rec allowed analyst s)) = st_options s"
    by (rule transition_cases [of i to reason rec allowed analyst s]; simp add: m update_anomaly_def)+
qed

text \<open>What freezing wrote, all but the basis; a month that is frozen gets no further rows.\<close>

definition frozen_figure :: "forecast \<Rightarrow> string \<times> string \<times> cents \<times> string \<times> string" where
  "frozen_figure f = (fc_period f, fc_source f, fc_cents f, fc_frozen_at f, fc_frozen_by f)"

definition frozen_kept :: "store \<Rightarrow> store \<Rightarrow> bool" where
  "frozen_kept s t \<longleftrightarrow>
     (\<exists>new. map frozen_figure (st_forecasts t) = map frozen_figure (st_forecasts s) @ new \<and>
        (\<forall>f \<in> set new. \<not> is_frozen (fst f) s))"

lemma frozen_kept_same: "st_forecasts t = st_forecasts s \<Longrightarrow> frozen_kept s t"
  by (simp add: frozen_kept_def)

lemma is_frozen_figures: "is_frozen p s \<longleftrightarrow> p \<in> fst ` set (map frozen_figure (st_forecasts s))"
  by (force simp: is_frozen_def frozen_figure_def)

interpretation fz: frame frozen_kept
proof
  show "frozen_kept s s" for s by (simp add: frozen_kept_same)
  show "frozen_kept s u" if st: "frozen_kept s t" and tu: "frozen_kept t u" for s t u
  proof -
    obtain n m where n: "map frozen_figure (st_forecasts t) = map frozen_figure (st_forecasts s) @ n"
        "\<forall>f \<in> set n. \<not> is_frozen (fst f) s"
      and m: "map frozen_figure (st_forecasts u) = map frozen_figure (st_forecasts t) @ m"
        "\<forall>f \<in> set m. \<not> is_frozen (fst f) t"
      using st tu by (auto simp: frozen_kept_def)
    then have "\<forall>f \<in> set (n @ m). \<not> is_frozen (fst f) s" by (auto simp: is_frozen_figures)
    with n(1) m(1) show ?thesis unfolding frozen_kept_def by (intro exI [of _ "n @ m"]) simp
  qed
qed

interpretation fd: desk_frame frozen_kept
proof
  show "frozen_kept s t" if "st_forecasts t = st_forecasts s" for s t using that by (rule frozen_kept_same)
  have t: "keeps frozen_kept (transition i to reason rec allowed analyst)" for i to reason rec allowed analyst
    by (intro keepsI frozen_kept_same) (rule transition_elsewhere)
  show "keeps frozen_kept (explain_anomaly i reason rec)" "keeps frozen_kept (accept_anomaly i reason rec)"
    "keeps frozen_kept (dismiss_anomaly i reason rec)" for i reason rec
    unfolding explain_anomaly_def accept_anomaly_def dismiss_anomaly_def by (rule t)+
  show "keeps frozen_kept (freeze_as_at p who through)" for p who through
  proof (rule keepsI)
    fix s
    show "frozen_kept s (snd (freeze_as_at p who through s))"
    proof (rule freeze_cases [of p who through s])
      fix rows assume "\<not> is_frozen p s" "list_all (\<lambda>f. fc_period f = p) rows"
        "freeze_as_at p who through s = (Inr (), s\<lparr>st_forecasts := st_forecasts s @ rows\<rparr>)"
      then show ?thesis
        by (auto simp: frozen_kept_def frozen_figure_def list_all_iff intro!: exI [of _ "map frozen_figure rows"])
    qed (simp add: fz.refl)
  qed
  show "keeps frozen_kept (set_forecast_basis p basis)" for p basis
    by (intro keepsI) (simp add: set_forecast_basis_def op_run fz.refl frozen_kept_def update_where_keeps frozen_figure_def)
  show "keeps frozen_kept (set_option_state_as a k st who reason behalf why)" for a k st who reason behalf why
    by (intro keepsI frozen_kept_same) (rule marks_anomalies)
qed

definition off_life :: "store \<Rightarrow> store \<Rightarrow> bool" where
  "off_life s t \<longleftrightarrow> st_forecasts t = st_forecasts s \<and> st_options t = st_options s"

interpretation ol: frame off_life
  by unfold_locales (simp_all add: off_life_def)

lemma anomaly_step_elsewhere:
  assumes "anomaly_step s t"
  shows "st_forecasts t = st_forecasts s" "st_options t = st_options s"
proof -
  have "off_life s t"
  proof (rule anomaly_step_keeps [OF _ _ _ _ _ _ assms])
    show "keeps off_life (assign_anomaly i analyst rec)" "keeps off_life (explain_anomaly i reason rec)"
      "keeps off_life (accept_anomaly i reason rec)" "keeps off_life (dismiss_anomaly i reason rec)" for i analyst reason rec
      unfolding assign_anomaly_def explain_anomaly_def accept_anomaly_def dismiss_anomaly_def
      by (intro keepsI, simp add: transition_elsewhere off_life_def)+
    have "keeps off_life (record_finding rec k f)" for rec k f
      unfolding record_finding_def record_row_def upsert_def emit_def
      by (intro ol.andthen_keeps ol.query_keeps ol.attempt_keeps ol.option_keeps ol.if_keeps ol.ok_keeps ol.exec_keeps;
          simp add: off_life_def update_anomaly_def)
    then show "keeps off_life (run_detection cfg rec)" for cfg rec
      unfolding run_detection_def run_series_def
      by (intro ol.andthen_keeps ol.query_keeps ol.collect_keeps ol.attempt_keeps ol.ok_keeps)
  qed (simp add: off_life_def)
  then show "st_forecasts t = st_forecasts s" "st_options t = st_options s" by (simp_all add: off_life_def)
qed

text \<open>
  C5. A frozen month is not touched. Whatever happens on the desk, the figures of a frozen period stay
  as they were written, each with when it was frozen and by whom, and the period gains no further
  row; only the basis, the line of prose beside a figure, can be rewritten.
\<close>

theorem frozen_figures_never_move:
  assumes "practice_step\<^sup>*\<^sup>* s t" and "is_frozen p s"
  shows "filter (\<lambda>f. fst f = p) (map frozen_figure (st_forecasts t)) =
         filter (\<lambda>f. fst f = p) (map frozen_figure (st_forecasts s))"
proof -
  have save: "keeps frozen_kept (validate_and_save_options a role body say rec)" for a role body say rec
    using saves_elsewhere by (intro keepsI frozen_kept_same) (simp add: off_desk_def)
  have life: "anomaly_step s t \<Longrightarrow> frozen_kept s t" for s t
    by (intro frozen_kept_same) (rule anomaly_step_elsewhere)
  have "frozen_kept s t" using assms(1)
  proof (induction rule: rtranclp_induct)
    case (step t u)
    from step.IH fd.practice_keeps [OF step.hyps(2) save life] show ?case by (rule fz.trans)
  qed (rule fz.refl)
  with assms(2) show ?thesis by (fastforce simp: frozen_kept_def filter_empty_conv)
qed

section \<open>The options table\<close>

text \<open>
  A row as the desk leaves it: a figure that is a USD amount and not negative; undecided exactly while it
  is open; a reason where it was refused; and, where an administrator answered for an owner, the
  reason for that, on an option that was applied or refused.
\<close>

definition option_ok :: "option_row \<Rightarrow> bool" where
  "option_ok x \<longleftrightarrow> 0 \<le> op_figure x \<and> in64 (op_figure x) \<and> op_class x \<noteq> [] \<and>
     (op_state x = OptionOpen \<longrightarrow> op_decided_by x = [] \<and> op_reason x = [] \<and> op_on_behalf_of x = []) \<and>
     (op_state x = OptionRefused \<longrightarrow> \<not> blank (op_reason x)) \<and>
     (op_on_behalf_of x \<noteq> [] \<longrightarrow> op_state x \<in> {OptionApplied, OptionRefused} \<and> op_behalf_reason x \<noteq> [] \<and>
        length (op_behalf_reason x) \<le> behalf_reason_max_bytes)"

definition options_ok :: "store \<Rightarrow> bool" where
  "options_ok s \<longleftrightarrow> distinct (map option_key (st_options s)) \<and> list_all option_ok (st_options s)"

definition options_kept :: "store \<Rightarrow> store \<Rightarrow> bool" where
  "options_kept s t \<longleftrightarrow> (options_ok s \<longrightarrow> options_ok t)"

lemma options_kept_same: "st_options t = st_options s \<Longrightarrow> options_kept s t"
  by (simp add: options_kept_def options_ok_def)

interpretation oo: desk_frame options_kept
proof
  show "options_kept s s" for s by (simp add: options_kept_def)
  show "options_kept s u" if "options_kept s t" "options_kept t u" for s t u using that by (simp add: options_kept_def)
  show "options_kept s t" if "st_options t = st_options s" for s t using that by (rule options_kept_same)
  show "keeps options_kept (explain_anomaly i reason rec)" "keeps options_kept (accept_anomaly i reason rec)"
    "keeps options_kept (dismiss_anomaly i reason rec)" for i reason rec
    unfolding explain_anomaly_def accept_anomaly_def dismiss_anomaly_def
    by (intro keepsI options_kept_same, rule transition_elsewhere)+
  show "keeps options_kept (freeze_as_at p who through)" for p who through
    by (intro keepsI options_kept_same) (rule freeze_elsewhere)
  show "keeps options_kept (set_forecast_basis p basis)" for p basis
    by (intro keepsI options_kept_same) (simp add: set_forecast_basis_def op_run)
  show "keeps options_kept (set_option_state_as a k st who reason behalf why)"
    if "st \<noteq> OptionOpen" "st = OptionRefused \<Longrightarrow> \<not> blank reason"
      "behalf \<noteq> [] \<Longrightarrow> st \<in> {OptionApplied, OptionRefused} \<and> why \<noteq> [] \<and> length why \<le> behalf_reason_max_bytes"
    for a k st who reason behalf why
  proof (rule keepsI)
    fix s
    let ?f = "\<lambda>x. x\<lparr>op_state := st, op_decided_by := who, op_decided_at := sql_now s, op_reason := reason,
      op_on_behalf_of := behalf, op_behalf_reason := why\<rparr>"
    have "option_ok x \<Longrightarrow> option_ok (?f x)" for x
      using that by (auto simp: option_ok_def)
    then have "list_all option_ok (st_options s) \<Longrightarrow> list_all option_ok (update_where (is_option a k) ?f (st_options s))"
      by (auto simp: list_all_iff dest!: update_where_cases)
    then show "options_kept s (snd (set_option_state_as a k st who reason behalf why s))"
      by (simp add: options_kept_def options_ok_def set_option_state_as_run update_where_keeps option_key_def)
  qed
qed

lemma insert_option_kept:
  assumes "fresh_row x"
  shows "keeps options_kept (insert_option a x)"
proof (rule keepsI)
  fix s
  have "option_ok (x\<lparr>op_artifact := a\<rparr>)" using assms by (simp add: fresh_row_def option_ok_def)
  then show "options_kept s (snd (insert_option a x s))"
    by (auto simp: insert_option_def op_run options_kept_def options_ok_def option_key_def)
qed

lemma saves_options_kept: "keeps options_kept (validate_and_save_options a role body say rec)"
proof (rule keepsI)
  fix s
  show "options_kept s (snd (validate_and_save_options a role body say rec s))"
  proof (cases "gate a role body s")
    case (Inl e)
    then show ?thesis by (simp add: validate_and_save_options_def op_run oo.refl)
  next
    case (Inr v)
    show ?thesis
    proof (cases v)
      case (Refuse f)
      with Inr show ?thesis by (simp add: validate_and_save_options_def op_run emit_def options_kept_same)
    next
      case (Admit xs)
      have "list_all fresh_row xs"
        using gate_admits [OF Inr [unfolded Admit]] by (auto dest: parsed_fresh)
      then have "keeps options_kept (andthen (each (insert_option a) xs) (\<lambda>_. ok (None :: target_fault option)))"
        by (intro oo.andthen_keeps oo.each_keeps oo.ok_keeps insert_option_kept) (simp add: list_all_iff)
      with Inr Admit show ?thesis by (simp add: validate_and_save_options_def op_run keeps_def)
    qed
  qed
qed

text \<open>
  C9. What an option row can be. From a table whose rows are well formed, no step of the desk leaves one
  that is not: the keys stay distinct, a figure is a non-negative amount, an open option carries no
  decision, a refused one a reason, and an answer given for an owner says why, in at most 500 bytes.
\<close>

theorem option_rows_stay_well_formed:
  assumes "practice_step\<^sup>*\<^sup>* s t" and "options_ok s"
  shows "options_ok t"
proof -
  have life: "anomaly_step s t \<Longrightarrow> options_kept s t" for s t
    by (intro options_kept_same) (rule anomaly_step_elsewhere)
  have "options_kept s t" using assms(1)
  proof (induction rule: rtranclp_induct)
    case (step t u)
    from step.IH oo.practice_keeps [OF step.hyps(2) saves_options_kept life] show ?case by (rule oo.trans)
  qed (rule oo.refl)
  with assms(2) show ?thesis by (simp add: options_kept_def)
qed

section \<open>Concrete desks\<close>

theorem closed_anomalies_are_final_witness:
  "\<exists>b. anomaly_row ''A-1'' (snd (supervise 1 None id (demo_watch Dismissed))) = Some b \<and>
       decision b = decision (demo_anomaly Dismissed)"
  by (rule closed_anomalies_are_final [OF r_into_rtranclp [of practice_step, OF supervise_step] demo_closed])
    (simp add: demo_anomaly_def closed_state_def)

definition demo_frozen :: store where
  "demo_frozen = empty_store\<lparr>st_forecasts := [\<lparr>fc_period = ''2026-09'', fc_source = ''aws'', fc_cents = 120000,
     fc_basis = ''run rate'', fc_frozen_at = ''2026-09-02T06:00:00Z'', fc_frozen_by = ''ann''\<rparr>]\<rparr>"

theorem frozen_figures_never_move_witness:
  "filter (\<lambda>f. fst f = ''2026-09'') (map frozen_figure (st_forecasts (snd (set_forecast_basis ''2026-09'' ''ours'' demo_frozen)))) =
   filter (\<lambda>f. fst f = ''2026-09'') (map frozen_figure (st_forecasts demo_frozen))"
  by (rule frozen_figures_never_move [OF r_into_rtranclp [of practice_step, OF basis_step]])
    (simp add: is_frozen_def demo_frozen_def)

theorem option_rows_stay_well_formed_witness:
  "options_ok (snd (refuse_option 1 1 (owner_answer ''ann'') ''not now'' None demo_desk))"
  by (rule option_rows_stay_well_formed [OF r_into_rtranclp [of practice_step, OF refuse_step]])
    (simp add: options_ok_def option_ok_def demo_rows option_key_def in64_def min64_def max64_def)

end
