(* ===== verification/Finality.thy ===== *)
theory Finality
  imports Practice
begin

text \<open>
  What is final: a deliverable that was posted and a month that was closed. Every step of the desk
  (\<open>Practice\<close>) and, beside it, the moves that reach these tables from elsewhere: the two forms of
  the chargeback page, a new rule, the bill being read again, the draft a live run writes, and a
  decision request written on its own.
\<close>

section \<open>The steps\<close>

text \<open>The statement of \<open>saveDraft\<close>: it looks at the task's state and inserts the draft in one.\<close>

definition insert_draft :: "int \<Rightarrow> string \<Rightarrow> string \<Rightarrow> string \<Rightarrow> store \<Rightarrow> store" where
  "insert_draft task author title body s =
     (if \<exists>t \<in> set (st_tasks s). tk_id t = task \<and> tk_state t = Blocked then s
      else s\<lparr>st_artifacts := st_artifacts s @
        [\<lparr>ar_id = next_id (map ar_id (st_artifacts s)), ar_task = task, ar_author = author, ar_title = title,
          ar_body = body, ar_state = Draft, ar_reason = [], ar_created = sql_now s, ar_stamped = [],
          ar_stamper = []\<rparr>]\<rparr>)"

inductive desk_step :: "store \<Rightarrow> store \<Rightarrow> bool" where
  practice: "practice_step s t \<Longrightarrow> desk_step s t"
| request_written: "desk_step s (snd (write_decision_request sprint owner body lapses s))"
| drafted: "desk_step s (insert_draft task author title body s)"
| month_closed: "desk_step s (snd (close_period p who s))"
| month_reopened: "desk_step s (snd (reopen p reason s))"
| ruled: "desk_step s (snd (set_rule i how s))"
| billed_again: "desk_step s (s\<lparr>st_charges := cs\<rparr>)"

inductive_cases desk_stepE: "desk_step s t"

section \<open>What leaves deliverables and closed months alone\<close>

definition off_books :: "store \<Rightarrow> store \<Rightarrow> bool" where
  "off_books s t \<longleftrightarrow>
     st_artifacts t = st_artifacts s \<and> st_requests t = st_requests s \<and> st_chargeback t = st_chargeback s"

interpretation bk: frame off_books
  by unfold_locales (simp_all add: off_books_def)

lemma quiet_exec [intro]:
  "(\<And>s. st_artifacts (f s) = st_artifacts s \<and> st_requests (f s) = st_requests s \<and> st_chargeback (f s) = st_chargeback s) \<Longrightarrow>
   keeps off_books (exec f)"
  by (rule bk.exec_keeps) (simp add: off_books_def)

lemma quiet_emit [intro!, simp]: "keeps off_books (emit rec e)"
  unfolding emit_def by (rule quiet_exec) simp

lemma quiet_transition [intro!, simp]: "keeps off_books (transition i to reason rec allowed analyst)"
  unfolding transition_def report_move_def
  by (intro bk.andthen_keeps bk.ensure_keeps bk.fetch_keeps bk.query_keeps bk.option_keeps bk.ok_keeps bk.fail_keeps
      quiet_exec quiet_emit) (simp_all add: update_anomaly_def)

lemma quiet_task [intro!, simp]: "keeps off_books (ensure_task sprint title goal who desk budget)"
  by (rule keepsI) (simp add: ensure_task_def Let_def bk.refl off_books_def insert_task_def split: option.split)

lemma quiet_state [intro!, simp]: "keeps off_books (set_state n st reason)"
  unfolding set_state_def
  by (intro bk.andthen_keeps bk.ensure_keeps bk.fetch_keeps quiet_exec) (simp add: update_analyst_def)

lemma quiet_halts [intro!, simp]: "keeps off_books (apply_halt_option x actor rec)" "keeps off_books (lift_halt desk reason who rec)"
  unfolding apply_halt_option_def apply_halt_def lift_halt_def Let_def
  by (intro bk.andthen_keeps bk.ensure_keeps bk.attempt_keeps bk.query_keeps bk.ok_keeps bk.if_keeps bk.each_keeps
      bk.fetch_keeps quiet_state quiet_emit quiet_exec; simp)+

lemma quiet_publish [intro!, simp]: "keeps off_books (apply_explainer_publish x actor)"
proof -
  have "keeps off_books (draft_explainer team topic audience author body amount)" for team topic audience author body amount
    by (rule keepsI) (simp add: draft_explainer_def Let_def off_books_def)
  then show ?thesis
    unfolding apply_explainer_publish_def publish_artifact_def publish_def
    by (intro bk.andthen_keeps bk.fetch_keeps bk.ensure_keeps bk.query_keeps bk.ok_keeps quiet_exec) simp_all
qed

lemma quiet_rules [intro!, simp]: "keeps off_books (set_rule i how)" "keeps off_books (apply_allocation_rule x actor)"
  unfolding apply_allocation_rule_def apply_unit_rule_def set_rule_def
  by (auto split: unit_reading.split option.split)

lemma quiet_drivers [intro!, simp]: "keeps off_books (apply_driver x t kind)" "keeps off_books (apply_announced x t actor)"
  unfolding apply_driver_def apply_announced_def insert_driver_def by auto

lemma quiet_forecasts [intro!, simp]: "keeps off_books (freeze_as_at p who through)" "keeps off_books (set_forecast_basis p basis)"
  unfolding freeze_as_at_def set_forecast_basis_def
  by (intro bk.andthen_keeps bk.ensure_keeps bk.query_keeps bk.collect_keeps bk.attempt_keeps bk.if_keeps bk.ok_keeps
      quiet_exec; simp)+

lemma quiet_narration [intro!, simp]: "keeps off_books (queue_showback_tasks p sprint)"
  unfolding queue_showback_tasks_def
  by (intro bk.andthen_keeps bk.query_keeps bk.prod_keeps bk.each_keeps bk.if_keeps bk.ok_keeps quiet_task)

lemma quiet_marks [intro!, simp]: "keeps off_books (set_option_state_as a k st who reason behalf why)"
  by (intro keepsI) (simp add: set_option_state_as_run off_books_def)

lemma quiet_answer [intro!, simp]: "keeps off_books (answer_ok ans)"
  unfolding answer_ok_def by (auto split: option.split)

lemma quiet_refusal [intro!, simp]: "keeps off_books (refuse_option a k ans reason rec)"
  unfolding refuse_option_def
  by (intro bk.andthen_keeps bk.ensure_keeps bk.fetch_keeps quiet_answer quiet_marks quiet_emit)

lemma quiet_save [intro!, simp]: "keeps off_books (validate_and_save_options a role body say rec)"
proof -
  have i: "keeps off_books (insert_option a x)" for x
    unfolding insert_option_def by (intro bk.andthen_keeps bk.query_keeps bk.ensure_keeps quiet_exec) simp
  have "keeps off_books (case v of Refuse f \<Rightarrow> andthen (emit rec (option_refused say a role f)) (\<lambda>_. ok (Some f))
      | Admit xs \<Rightarrow> andthen (each (insert_option a) xs) (\<lambda>_. ok None))" for v
    by (cases v) (auto intro!: bk.andthen_keeps bk.each_keeps i)
  then show ?thesis
    unfolding validate_and_save_options_def by (intro bk.andthen_keeps bk.attempt_keeps)
qed

lemma quiet_detection [intro!, simp]: "keeps off_books (run_detection cfg rec)"
  unfolding run_detection_def run_series_def record_finding_def record_row_def upsert_def
  by (intro bk.andthen_keeps bk.query_keeps bk.option_keeps bk.if_keeps bk.ok_keeps bk.collect_keeps bk.attempt_keeps
      quiet_emit quiet_exec; simp add: update_anomaly_def)

lemma quiet_life: "anomaly_step s t \<Longrightarrow> off_books s t"
proof (erule anomaly_step_keeps [rotated -1])
  show "keeps off_books (assign_anomaly i analyst rec)" "keeps off_books (explain_anomaly i reason rec)"
    "keeps off_books (accept_anomaly i reason rec)" "keeps off_books (dismiss_anomaly i reason rec)" for i analyst reason rec
    unfolding assign_anomaly_def explain_anomaly_def accept_anomaly_def dismiss_anomaly_def
    by (rule quiet_transition)+
  show "off_books s (s\<lparr>st_now := now\<rparr>)" for s now by (simp add: off_books_def)
qed (rule quiet_detection)

section \<open>Answers, passes and steps over a relation of the books\<close>

text \<open>
  A relation that holds wherever the books are untouched, and every answer keeps it that its period's
  side effect keeps.
\<close>

locale quiet_frame = frame R for R :: "store \<Rightarrow> store \<Rightarrow> bool" +
  assumes off: "off_books s t \<Longrightarrow> R s t"
begin

lemma quiet: "keeps off_books m \<Longrightarrow> keeps R m"
  using off by (auto intro: keeps_mono)

lemma effect_keeps:
  assumes "op_class x = ''period.close'' \<Longrightarrow> (\<And>p who. keeps R (close_period p who))"
    and "op_class x = ''period.reopen'' \<Longrightarrow> (\<And>p reason. keeps R (reopen p reason))"
  shows "keeps R (apply_side_effect x t actor rec)"
proof -
  have c: "keeps R (in_open_period (\<lambda>p. andthen (close_period p actor) (\<lambda>_. queue_showback_tasks p (tk_sprint t))))"
    if "op_class x = ''period.close''"
    unfolding in_open_period_def
    by (intro andthen_keeps query_keeps if_keeps ok_keeps assms(1) [OF that] quiet quiet_narration)
  have r: "keeps R (apply_reopen x actor)" if "op_class x = ''period.reopen''"
    unfolding apply_reopen_def
    by (intro andthen_keeps query_keeps) (auto split: list.split intro: assms(2) [OF that])
  have z: "keeps R (in_open_period (\<lambda>p. andthen (freeze p actor) (\<lambda>_. set_forecast_basis p (op_summary x))))"
    unfolding in_open_period_def freeze_def
    by (intro andthen_keeps query_keeps if_keeps ok_keeps quiet quiet_forecasts)
  have a: "keeps R (on_anomaly t (\<lambda>i. explain_anomaly i (op_summary x) rec))"
      "keeps R (on_anomaly t (\<lambda>i. dismiss_anomaly i (op_summary x) rec))"
      "keeps R (on_anomaly t (\<lambda>i. accept_anomaly i (op_summary x) rec))"
    unfolding on_anomaly_def explain_anomaly_def accept_anomaly_def dismiss_anomaly_def
    by (intro if_keeps ok_keeps quiet quiet_transition)+
  show ?thesis
    unfolding apply_side_effect_def Let_def
    by (intro if_keeps ok_keeps a z c r quiet quiet_drivers quiet_rules quiet_publish quiet_halts) assumption+
qed

lemma applies:
  assumes "op_class x = ''period.close'' \<Longrightarrow> (\<And>p who. keeps R (close_period p who))"
    and "op_class x = ''period.reopen'' \<Longrightarrow> (\<And>p reason. keeps R (reopen p reason))"
  shows "keeps R (apply_as x ans rec)"
  unfolding apply_as_def mark_option_applied_as_def mark_option_not_chosen_def set_option_state_def
  by (intro andthen_keeps fetch_keeps query_keeps each_keeps effect_keeps assms quiet quiet_answer quiet_marks quiet_emit)

end

text \<open>The supervisor's job description does not let it reopen a month.\<close>

lemma supervisor_never_reopens: "supervisor_may_select roles_yaml ''period.reopen'' \<noteq> None"
  by code_simp

locale book_frame = quiet_frame R for R :: "store \<Rightarrow> store \<Rightarrow> bool" +
  assumes closes: "keeps R (close_period p who)"
    and writes: "keeps R (write_decision_request sprint owner body lapses)"
    and completes: "keeps R (post_decision_request_if_complete sprint owner)"
    and board: "board_step s t \<Longrightarrow> R s t"
begin

lemma decides: "keeps R (decide_group r rec g acc)"
proof -
  have a: "keeps R (apply_option x actor rec)" if "supervisor_may_select roles_yaml (op_class x) = None" for x actor
    unfolding apply_option_def
    by (rule applies) (use closes that supervisor_never_reopens in auto)
  have c: "keeps R (carry_group r recorded w opts acc)" for recorded w opts
    unfolding carry_group_def mark_option_carried_def set_option_state_def
    by (intro andthen_keeps each_keeps ok_keeps quiet [OF quiet_marks])
  have "keeps R (apply_top rec x aid acc)" if "may_apply r x recorded aid acc" for x recorded aid
    using that a unfolding may_apply_def apply_top_def by (intro andthen_keeps ok_keeps) simp
  then show ?thesis
    unfolding decide_group_def Let_def by (intro andthen_keeps attempt_keeps if_keeps c)
qed

lemma asks: "keeps R (ask_owner sprint rec acc stale w)"
  unfolding ask_owner_def
  by (intro andthen_keeps query_keeps ok_keeps writes quiet quiet_emit)

lemma supervises: "keeps R (supervise sprint rec quote)"
proof -
  have "keeps R (decide_groups r rec gs acc)" for r gs acc
    by (induction gs arbitrary: acc) (auto intro: decides)
  then show ?thesis
    unfolding supervise_def by (intro andthen_keeps query_keeps attempt_keeps collect_keeps ok_keeps asks)
qed

text \<open>Every step of the desk keeps it, but for an answer that reopens a month.\<close>

lemma practice_cases:
  assumes "practice_step s t"
  obtains "R s t" | x ans rec where "op_class x = ''period.reopen''" "t = snd (apply_as x ans rec s)"
  using assms
proof (cases rule: practice_step.cases)
  case (apply_step x ans rec)
  show thesis
  proof (cases "op_class x = ''period.reopen''")
    case False
    then have "keeps R (apply_as x ans rec)" by (intro applies closes) simp_all
    with apply_step(1) that(1) show thesis by (simp add: keeps_def)
  qed (use apply_step(1) that(2) in blast)
next
  case (supervise_step sprint rec quote)
  with that(1) supervises show thesis by (simp add: keeps_def)
next
  case (request_step sprint owner)
  with that(1) completes show thesis by (simp add: keeps_def)
next
  case anomaly_moves
  with that(1) show thesis using quiet_life off by blast
next
  case board_moves
  with that(1) show thesis using board by blast
qed (use that(1) quiet [OF quiet_refusal] quiet [OF quiet_save] quiet [OF quiet_forecasts(1)] quiet [OF quiet_forecasts(2)]
    quiet [OF quiet_halts(2)] in \<open>auto simp: keeps_def\<close>)

end

section \<open>Posted deliverables\<close>

definition is_request :: "int \<Rightarrow> store \<Rightarrow> bool" where
  "is_request i s \<longleftrightarrow> i \<in> rq_artifact ` set (st_requests s)"

abbreviation artifact_ids :: "store \<Rightarrow> int list" where
  "artifact_ids s \<equiv> map ar_id (st_artifacts s)"

text \<open>
  Deliverables are only added, what each is of and by whom stays, no deliverable becomes a decision
  request, and the row of a posted one that is none stays in every column.
\<close>

definition stamped_kept :: "store \<Rightarrow> store \<Rightarrow> bool" where
  "stamped_kept s t \<longleftrightarrow>
     (\<exists>new. map artifact_mark (st_artifacts t) = map artifact_mark (st_artifacts s) @ new) \<and>
     (distinct (artifact_ids s) \<longrightarrow>
        distinct (artifact_ids t) \<and>
        (\<forall>i \<in> set (artifact_ids s). is_request i t \<longrightarrow> is_request i s) \<and>
        (\<forall>a \<in> set (st_artifacts s). ar_state a = PostedDraft \<and> \<not> is_request (ar_id a) s \<longrightarrow> a \<in> set (st_artifacts t)))"

lemma stamped_ids: "stamped_kept s t \<Longrightarrow> set (artifact_ids s) \<subseteq> set (artifact_ids t)"
proof -
  assume "stamped_kept s t"
  then obtain new where "map artifact_mark (st_artifacts t) = map artifact_mark (st_artifacts s) @ new"
    unfolding stamped_kept_def by blast
  then have "map fst (map artifact_mark (st_artifacts t)) = map fst (map artifact_mark (st_artifacts s) @ new)" by simp
  then have "artifact_ids t = artifact_ids s @ map fst new" by (simp add: artifact_mark_def comp_def)
  then show ?thesis by simp
qed

interpretation sk: frame stamped_kept
proof
  show "stamped_kept s s" for s by (simp add: stamped_kept_def)
  show "stamped_kept s u" if st: "stamped_kept s t" and tu: "stamped_kept t u" for s t u
    unfolding stamped_kept_def
  proof (intro conjI impI)
    show "\<exists>new. map artifact_mark (st_artifacts u) = map artifact_mark (st_artifacts s) @ new"
      using st tu by (auto simp: stamped_kept_def)
    assume "distinct (artifact_ids s)"
    with st have 1: "distinct (artifact_ids t)" "\<forall>i \<in> set (artifact_ids s). is_request i t \<longrightarrow> is_request i s"
      "\<forall>a \<in> set (st_artifacts s). ar_state a = PostedDraft \<and> \<not> is_request (ar_id a) s \<longrightarrow> a \<in> set (st_artifacts t)"
      unfolding stamped_kept_def by blast+
    with tu have 2: "distinct (artifact_ids u)" "\<forall>i \<in> set (artifact_ids t). is_request i u \<longrightarrow> is_request i t"
      "\<forall>a \<in> set (st_artifacts t). ar_state a = PostedDraft \<and> \<not> is_request (ar_id a) t \<longrightarrow> a \<in> set (st_artifacts u)"
      unfolding stamped_kept_def by blast+
    show "distinct (artifact_ids u)" by (rule 2)
    show "\<forall>i \<in> set (artifact_ids s). is_request i u \<longrightarrow> is_request i s"
      using 1(2) 2(2) stamped_ids [OF st] by blast
    show "\<forall>a \<in> set (st_artifacts s). ar_state a = PostedDraft \<and> \<not> is_request (ar_id a) s \<longrightarrow> a \<in> set (st_artifacts u)"
      using 1(2,3) 2(3) by (metis in_set_conv_nth length_map nth_map)
  qed
qed

lemma stamped_same: "st_artifacts t = st_artifacts s \<Longrightarrow> st_requests t = st_requests s \<Longrightarrow> stamped_kept s t"
  by (simp add: stamped_kept_def is_request_def)

lemma stamped_board: "posted_kept s t \<Longrightarrow> stamped_kept s t"
  using mark_ids [of "st_artifacts t" "st_artifacts s"] by (auto simp: posted_kept_def stamped_kept_def is_request_def)

text \<open>The two writes of a request change a request only.\<close>

lemma stamped_rewrite:
  assumes "is_request i s" and "\<And>a. artifact_mark (f a) = artifact_mark a" and "\<And>a. P a \<Longrightarrow> ar_id a = i"
  shows "stamped_kept s (s\<lparr>st_artifacts := update_where P f (st_artifacts s)\<rparr>)"
proof -
  let ?as = "update_where P f (st_artifacts s)"
  have m: "map artifact_mark ?as = map artifact_mark (st_artifacts s)"
    using assms(2) by (rule update_where_keeps)
  then have "map ar_id ?as = artifact_ids s" by (rule mark_ids)
  moreover have "a \<in> set ?as" if "a \<in> set (st_artifacts s)" "\<not> is_request (ar_id a) s" for a
  proof -
    have "\<not> P a" using that(2) assms(1,3) by auto
    then show ?thesis using that(1) by (force simp: update_where_def)
  qed
  ultimately show ?thesis using m by (auto simp: stamped_kept_def is_request_def)
qed

lemma stamped_insert:
  assumes "ar_id r = next_id (artifact_ids s)" and "st_artifacts t = st_artifacts s @ [r]"
    and "st_requests t = st_requests s \<or> (\<exists>q. st_requests t = st_requests s @ [q] \<and> rq_artifact q = ar_id r)"
  shows "stamped_kept s t"
proof -
  have new: "ar_id r \<notin> set (artifact_ids s)" unfolding assms(1) by (rule next_id_fresh)
  have "is_request i s" if "i \<in> set (artifact_ids s)" "is_request i t" for i
  proof -
    have "i \<noteq> ar_id r" using new that(1) by blast
    then show ?thesis using that(2) assms(3) by (auto simp: is_request_def)
  qed
  then show ?thesis using new assms(2) by (auto simp: stamped_kept_def)
qed

lemma new_request_stamped: "keeps stamped_kept (new_request sprint owner body lapses task)"
proof (rule keepsI)
  fix s
  show "stamped_kept s (snd (new_request sprint owner body lapses task s))"
    by (rule stamped_insert [where r = "\<lparr>ar_id = next_id (artifact_ids s), ar_task = task, ar_author = ''supervisor'',
          ar_title = ''Decision request for '' @ owner, ar_body = body, ar_state = Draft, ar_reason = [],
          ar_created = sql_now s, ar_stamped = [], ar_stamper = []\<rparr>"])
      (simp_all add: new_request_def op_run)
qed

lemma request_known: "decision_request_for sprint owner s = Some i \<Longrightarrow> is_request i s"
  by (auto simp: decision_request_for_def request_row_def find_Some_iff is_request_def)

lemma request_stamped: "keeps stamped_kept (write_decision_request sprint owner body lapses)"
proof (rule keepsI)
  fix s
  show "stamped_kept s (snd (write_decision_request sprint owner body lapses s))"
  proof (cases "decision_request_for sprint owner s")
    case None
    have "keeps stamped_kept (andthen (ensure_supervisor_task sprint) (new_request sprint owner body lapses))"
      unfolding ensure_supervisor_task_def
      by (intro sk.andthen_keeps new_request_stamped keeps_mono [OF quiet_task])
        (simp add: off_books_def stamped_same)
    then show ?thesis using None by (simp add: write_decision_request_def andthen_run [of "query _"] query_run keeps_def)
  next
    case (Some i)
    have "stamped_kept s (s\<lparr>st_artifacts := update_where (\<lambda>a. ar_id a = i)
        (\<lambda>a. a\<lparr>ar_body := body, ar_state := Draft\<rparr>) (st_artifacts s)\<rparr>)"
      by (rule stamped_rewrite [OF request_known [OF Some]]) (simp_all add: artifact_mark_def)
    then show ?thesis using Some by (simp add: write_decision_request_def op_run update_artifact_def)
  qed
qed

lemma completion_stamped: "keeps stamped_kept (post_decision_request_if_complete sprint owner)"
proof (rule keepsI)
  fix s
  show "stamped_kept s (snd (post_decision_request_if_complete sprint owner s))"
  proof (cases "decision_request_for sprint owner s")
    case (Some i)
    have "stamped_kept s (s\<lparr>st_artifacts := update_where (\<lambda>a. ar_id a = i \<and> ar_state a \<noteq> PostedDraft)
        (\<lambda>a. a\<lparr>ar_state := PostedDraft, ar_stamped := sql_now s, ar_stamper := owner\<rparr>) (st_artifacts s)\<rparr>)"
      by (rule stamped_rewrite [OF request_known [OF Some]]) (simp_all add: artifact_mark_def)
    then show ?thesis using Some by (simp add: post_decision_request_if_complete_def op_run sk.refl)
  qed (simp add: post_decision_request_if_complete_def op_run sk.refl)
qed

lemma months_stamped: "keeps stamped_kept (close_period p who)" "keeps stamped_kept (reopen p reason)"
  unfolding close_period_def reopen_def
  by (intro sk.andthen_keeps sk.ensure_keeps sk.query_keeps sk.exec_keeps; simp add: stamped_same)+

interpretation sb: book_frame stamped_kept
proof
  show "stamped_kept s t" if "off_books s t" for s t using that by (simp add: off_books_def stamped_same)
  show "stamped_kept s t" if "board_step s t" for s t by (rule stamped_board [OF board_step_posted [OF that]])
qed (rule months_stamped request_stamped completion_stamped)+

lemma desk_step_stamped: "desk_step s t \<Longrightarrow> stamped_kept s t"
proof (erule desk_stepE)
  assume "practice_step s t"
  then show ?thesis
  proof (cases rule: sb.practice_cases)
    case (2 x ans rec)
    then show ?thesis using sb.applies [OF months_stamped] by (simp add: keeps_def)
  qed
next
  fix task author title body
  assume t: "t = insert_draft task author title body s"
  then consider "t = s" | "t = s\<lparr>st_artifacts := st_artifacts s @
      [\<lparr>ar_id = next_id (artifact_ids s), ar_task = task, ar_author = author, ar_title = title, ar_body = body,
        ar_state = Draft, ar_reason = [], ar_created = sql_now s, ar_stamped = [], ar_stamper = []\<rparr>]\<rparr>"
    unfolding insert_draft_def by (metis (full_types))
  then show ?thesis
  proof cases
    case 2
    then show ?thesis by (intro stamped_insert) auto
  qed (simp add: sk.refl)
qed (use request_stamped months_stamped sb.quiet [OF quiet_rules(1)] in \<open>auto simp: keeps_def stamped_same\<close>)

text \<open>
  C4. A stamp is final, but on a decision request. Whatever happens on the desk after (its people's
  moves, the supervisor's passes, live runs, closes), a deliverable that was posted is still there,
  unchanged in every column, unless it is the request a pass writes to an owner: the two statements
  that rewrite a posted row reach no other. No deliverable at all is lost, or changes what it is of,
  its author, its title or when it was written.
\<close>

theorem posted_is_final:
  assumes "desk_step\<^sup>*\<^sup>* s t" and "distinct (map ar_id (st_artifacts s))" and "a \<in> set (st_artifacts s)"
  shows "(\<exists>b \<in> set (st_artifacts t). artifact_mark b = artifact_mark a) \<and>
    (ar_state a = PostedDraft \<and> \<not> is_request (ar_id a) s \<longrightarrow> a \<in> set (st_artifacts t))"
proof -
  have k: "stamped_kept s t" using assms(1)
    by (induction rule: rtranclp_induct) (blast intro: sk.refl sk.trans desk_step_stamped)+
  then have "set (map artifact_mark (st_artifacts s)) \<subseteq> set (map artifact_mark (st_artifacts t))"
    by (auto simp: stamped_kept_def simp flip: set_map)
  then show ?thesis using k assms(2,3) by (force simp: stamped_kept_def)
qed

text \<open>
  What a request loses: a later pass sets the posted request of an owner back to a draft with another
  body, and leaves the time and the name of the stamp on it.
\<close>

lemma posted_request_is_rewritten:
  assumes "decision_request_for sprint owner s = Some i" and "artifact_row i s = Some a"
  shows "artifact_row i (snd (write_decision_request sprint owner body lapses s)) =
    Some (a\<lparr>ar_body := body, ar_state := Draft\<rparr>)"
proof -
  have "ar_id a = i" using artifact_row_SomeD [OF assms(2)] by simp
  then show ?thesis using assms
    by (simp add: write_decision_request_def op_run artifact_row_def update_artifact_def find_update_where)
qed

text \<open>A pass that carries more writes the request of the sprint again; the posted deliverable stands.\<close>

definition demo_stamped :: store where
  "demo_stamped = demo_board\<lparr>st_artifacts := [demo_artifact, demo_artifact\<lparr>ar_id := 2, ar_author := ''supervisor''\<rparr>],
     st_requests := [\<lparr>rq_artifact = 2, rq_sprint = 1, rq_owner = ''boss'', rq_lapses = ''2026-10-12''\<rparr>]\<rparr>"

theorem posted_is_final_witness:
  "demo_artifact \<in> set (st_artifacts (snd (write_decision_request 1 ''boss'' ''more'' ''2026-10-12'' demo_stamped))) \<and>
   map ar_state (st_artifacts (snd (write_decision_request 1 ''boss'' ''more'' ''2026-10-12'' demo_stamped))) =
     [PostedDraft, Draft]"
proof
  have "desk_step\<^sup>*\<^sup>* demo_stamped (snd (write_decision_request 1 ''boss'' ''more'' ''2026-10-12'' demo_stamped))"
    by (rule r_into_rtranclp) (rule request_written)
  from posted_is_final [OF this, of demo_artifact]
  show "demo_artifact \<in> set (st_artifacts (snd (write_decision_request 1 ''boss'' ''more'' ''2026-10-12'' demo_stamped)))"
    by (simp add: demo_stamped_def demo_artifact_def is_request_def)
  show "map ar_state (st_artifacts (snd (write_decision_request 1 ''boss'' ''more'' ''2026-10-12'' demo_stamped))) =
      [PostedDraft, Draft]"
    by (simp add: write_decision_request_def op_run decision_request_for_def request_row_def demo_stamped_def
        update_artifact_def update_where_def demo_artifact_def)
qed

section \<open>Closed months\<close>









end
