(* ===== verification/Projection.thy ===== *)
theory Projection
  imports Forecast
begin

text \<open>
  What \<open>forecast.go\<close> promises of a projection: the walk over a desk-wide driver's days ends, and
  visits each day once, wherever the registry's dates are dates; and a desk no driver reaches into
  is projected at its plain run rate, the figure \<open>Project\<close> answers.
\<close>

section \<open>The walk over a window\<close>

lemma str_le_iff: "parse_date a = Some x \<Longrightarrow> parse_date b = Some y \<Longrightarrow> str_lt b a \<longleftrightarrow> y < x"
  using parse_date_order by blast

lemma next_day_parses:
  assumes "parse_date a = Some x" and "x + 1 < year_start 10000" and "0 \<le> x"
  shows "parse_date (next_day a) = Some (x + 1)"
proof -
  have "parse_date (format_date (x + 1)) = Some (x + 1)" using assms(2,3) by (intro date_roundtrip) simp_all
  then show ?thesis by (simp only: next_day_def shift_day_def assms(1) option.case add_days_def)
qed

lemma parse_date_nonneg: "parse_date s = Some n \<Longrightarrow> 0 \<le> n"
proof (erule parse_date_SomeE)
  fix y m d assume "valid_date (decimal y) (decimal m) (decimal d)" "n = day_number (decimal y) (decimal m) (decimal d)"
  then have "year_start (decimal y) \<le> n" "0 \<le> decimal y" using day_number_bounds(1) by (auto simp: valid_date_def)
  then show "0 \<le> n" using year_start_mono [of 0 "decimal y"] by simp
qed

lemma window_days_returns:
  assumes "parse_date a = Some x" and "parse_date b = Some y" and "y + 1 < year_start 10000"
  shows "\<exists>ds. window_days a b = Some ds \<and> map parse_date ds = map Some [x..y]"
  using assms
proof (induction "nat (y + 1 - x)" arbitrary: a x)
  case 0
  then have "str_lt b a" by (simp add: str_le_iff)
  with 0 show ?case by (subst window_days.simps) simp
next
  case (Suc n)
  then have le: "x \<le> y" and n: "n = nat (y + 1 - (x + 1))" by simp_all
  have nd: "parse_date (next_day a) = Some (x + 1)"
    using Suc.prems le parse_date_nonneg [OF Suc.prems(1)] by (intro next_day_parses) auto
  obtain ds where ds: "window_days (next_day a) b = Some ds" "map parse_date ds = map Some [x + 1..y]"
    using Suc.hyps(1) [OF n nd Suc.prems(2,3)] by blast
  have "\<not> str_lt b a" using Suc.prems(1,2) le by (simp add: str_le_iff)
  then have "window_days a b = Some (a # ds)"
    by (subst window_days.simps) (simp add: ds(1))
  with ds(2) Suc.prems(1) le show ?case by (simp add: upto_rec1 [of x y])
qed

text \<open>A start that is no date is its own next day: the walk ends only where it never began.\<close>

lemma window_days_stuck:
  assumes "parse_date a = None" and "\<not> str_lt b a"
  shows "window_days a b = None"
proof -
  have "parse_date c = None \<longrightarrow> str_lt d c" if w: "window_days c d = Some ds" for c d ds
  proof (rule window_days.raw_induct [OF _ w, of "\<lambda>c d ds. parse_date c = None \<longrightarrow> str_lt d c"])
    fix w c d ds
    assume ih: "\<And>c d ds. w c d = Some ds \<Longrightarrow> parse_date c = None \<longrightarrow> str_lt d c"
      and run: "(if str_lt d c then Some [] else Option.bind (w (next_day c) d) (\<lambda>ds. Some (c # ds))) = Some ds"
    show "parse_date c = None \<longrightarrow> str_lt d c"
    proof (rule impI, rule ccontr)
      assume c: "parse_date c = None" and n: "\<not> str_lt d c"
      have "next_day c = c" by (simp add: next_day_def shift_day_def c)
      then obtain es where "w c d = Some es" using run n by (auto split: bind_splits)
      from ih [OF this] c n show False by simp
    qed
  qed
  with assms show ?thesis by (cases "window_days a b") auto
qed

section \<open>The month\<close>

lemma period_text:
  assumes "parse_date (period @ ''-01'') = Some n"
  obtains y m where "period = y @ ''-'' @ m" "length y = 4" "length m = 2" "list_all is_digit y" "list_all is_digit m"
    "valid_date (decimal y) (decimal m) 1"
proof -
  obtain y m d where s: "period @ ''-01'' = date_text y m d" "length y = 4" "length m = 2" "length d = 2"
    "list_all is_digit y" "list_all is_digit m" and v: "valid_date (decimal y) (decimal m) (decimal d)"
    using assms by (rule parse_date_SomeE)
  have l: "length period = 7" using s(2-4) arg_cong [OF s(1), of length] by (simp add: date_text_def)
  have "take (length period) (period @ ''-01'') = take 7 (date_text y m d)"
    unfolding s(1) l ..
  then have p: "period = y @ ''-'' @ m" using s(2-4) by (simp add: date_text_def)
  then have "''-01'' = ''-'' @ d" using s(1) by (simp add: date_text_def)
  then have "d = ''01''" by simp
  moreover have "decimal ''01'' = 1" by code_simp
  ultimately have "decimal d = 1" by simp
  with v p s that show thesis by simp
qed

lemma month_ends:
  assumes "parse_date (period @ ''-01'') = Some n" and "str_lt period ''9999''"
  obtains z where "parse_date (month_first period) = Some n" and "parse_date (month_last period) = Some z"
    and "z + 1 < year_start 10000"
proof -
  obtain y m where p: "period = y @ ''-'' @ m" "length y = 4" "length m = 2" "list_all is_digit y" "list_all is_digit m"
    and v: "valid_date (decimal y) (decimal m) 1"
    using assms(1) by (rule period_text)
  let ?Y = "decimal y" and ?M = "decimal m"
  let ?d = "fmt_int 2 (days_in ?M ?Y)"
  have lim: "?Y < 9999"
  proof -
    have "str_lt (y @ ''-'' @ m) (''9999'' @ [])" using assms(2) p(1) by simp
    then have "str_lt y ''9999''" using p(2) by (subst (asm) str_lt_append_same) auto
    moreover have "list_all is_digit ''9999''" "decimal ''9999'' = 9999" by code_simp+
    ultimately show ?thesis using str_lt_digits [of y "''9999''"] p(2,4) by simp
  qed
  have d: "length ?d = 2" "list_all is_digit ?d" "decimal ?d = days_in ?M ?Y"
    using fmt_int_padded [of "days_in ?M ?Y" 2] days_in_bounds [of ?M ?Y] by auto
  have "days_in_month period = days_in ?M ?Y"
    using assms(1) p(2,3) by (simp add: days_in_month_def p(1))
  then have final: "month_last period = date_text y m ?d" by (simp add: month_last_def p(1) date_text_def)
  have vd: "valid_date ?Y ?M (days_in ?M ?Y)" using v days_in_bounds(1) [of ?M ?Y] by (simp add: valid_date_def)
  have "parse_date (month_last period) = Some (day_number ?Y ?M (days_in ?M ?Y))"
    using vd p d unfolding final by (subst parse_date_text) simp_all
  moreover have "day_number ?Y ?M (days_in ?M ?Y) + 1 < year_start 10000"
    using day_number_bounds(2) [OF vd] year_start_mono [of "?Y + 1" 9999] lim year_start_mono [of 9999 10000]
    by (simp add: year_start_def)
  ultimately show thesis using that assms(1) by (simp add: month_first_def)
qed

section \<open>A projection returns\<close>

lemma wide_days_Some:
  "list_all (\<lambda>a. ap_scoped a = None \<longrightarrow> window_days (ap_start a) (ap_end a) \<noteq> None) as \<longleftrightarrow> wide_days as \<noteq> None"
  by (induction as) (auto split: option.splits)

lemma overlapping_memberE:
  assumes "x \<in> set (overlapping desk period cutoff s)"
  obtains d where "d \<in> set (drivers s)" and "dr_source d = desk"
    and "driver_window_in_month d (month_first period) (month_last period) = Some (ap_start x, ap_end x)"
    and "ap_scoped x = None \<longleftrightarrow> dr_scope d = ''*''"
  using assms by (auto simp: overlapping_def List.map_filter_def split: if_splits)

lemma overlapping_wide:
  assumes "d \<in> set (drivers s)" and "dr_source d = desk" and "dr_scope d = ''*''"
    and "driver_window_in_month d (month_first period) (month_last period) = Some (a, b)"
  shows "\<lparr>ap_driver = d, ap_start = a, ap_end = b, ap_scoped = None\<rparr> \<in> set (overlapping desk period cutoff s)"
  using assms by (auto simp: overlapping_def List.map_filter_def image_iff intro!: bexI [of _ d])

lemma window_dates:
  assumes "driver_window_in_month d f l = Some (a, b)" and "parse_date (dr_start d) \<noteq> None" and "parse_date (dr_end d) \<noteq> None"
    and "parse_date f = Some n" and "parse_date l = Some z"
  obtains x y where "parse_date a = Some x" and "parse_date b = Some y" and "y \<le> z"
proof -
  have ab: "a = (if str_lt (dr_start d) f then f else dr_start d)" "b = (if str_lt l (dr_end d) then l else dr_end d)"
    using assms(1) by (auto simp: driver_window_in_month_def Let_def split: if_splits)
  obtain p q where pq: "parse_date (dr_start d) = Some p" "parse_date (dr_end d) = Some q" using assms(2,3) by blast
  have "parse_date a = Some (if str_lt (dr_start d) f then n else p)" using pq(1) assms(4) by (simp add: ab)
  moreover have "parse_date b = Some (if str_lt l (dr_end d) then z else q)" using pq(2) assms(5) by (simp add: ab)
  moreover have "(if str_lt l (dr_end d) then z else q) \<le> z" using str_le_iff [OF pq(2) assms(5)] by simp
  ultimately show thesis by (rule that)
qed

text \<open>
  C18. A projection ends. For a real month before the year 9999, where the desk-wide drivers of the desk
  carry real dates, \<open>ProjectWithDrivers\<close> answers: it refuses for want of charges, or it has a figure.
  The walk over each driver's days is finite, whatever windows the registry holds.
\<close>

theorem projection_returns:
  assumes "parse_date (period @ ''-01'') = Some n" and "str_lt period ''9999''"
    and "list_all (\<lambda>d. dr_source d = desk \<and> dr_scope d = ''*'' \<longrightarrow>
           parse_date (dr_start d) \<noteq> None \<and> parse_date (dr_end d) \<noteq> None) (drivers s)"
  shows "if day_cents desk [] period (cut_of through) s = []
         then project_with_drivers_as_at desk period through s = Inl (NoChargeData period)
         else \<exists>figure basis ls. project_with_drivers_as_at desk period through s = Inr (figure, basis, ls)"
proof -
  obtain z where z: "parse_date (month_first period) = Some n" "parse_date (month_last period) = Some z"
    "z + 1 < year_start 10000"
    using assms(1,2) by (rule month_ends)
  have "window_days (ap_start x) (ap_end x) \<noteq> None"
    if x: "x \<in> set (overlapping desk period (cut_of through) s)" and wide: "ap_scoped x = None" for x
  proof -
    obtain d where d: "d \<in> set (drivers s)" "dr_source d = desk"
        "driver_window_in_month d (month_first period) (month_last period) = Some (ap_start x, ap_end x)"
        "ap_scoped x = None \<longleftrightarrow> dr_scope d = ''*''"
      using x by (rule overlapping_memberE)
    then have "parse_date (dr_start d) \<noteq> None" "parse_date (dr_end d) \<noteq> None"
      using assms(3) d(1,2,4) wide by (auto simp: list_all_iff)
    then obtain u v where "parse_date (ap_start x) = Some u" "parse_date (ap_end x) = Some v" "v \<le> z"
      using window_dates [OF d(3) _ _ z(1,2)] by blast
    then show ?thesis using window_days_returns z(3) by fastforce
  qed
  then obtain ws where "wide_days (overlapping desk period (cut_of through) s) = Some ws"
    using wide_days_Some [of "overlapping desk period (cut_of through) s"] by (auto simp: list_all_iff)
  then show ?thesis by (cases "price_month period (day_cents desk [] period (cut_of through) s)
      (overlapping desk period (cut_of through) s) ws") (simp add: project_with_drivers_as_at_def Let_def)
qed

text \<open>
  C35. The one way it does not end. A desk-wide driver that reaches into the month and starts on
  something that is no date (\<open>2026-10-3\<close>) is walked from its start to its end by a step that stays
  where it is: the projection of a desk with charges never returns.
\<close>

theorem undated_driver_never_returns:
  assumes "d \<in> set (drivers s)" and "dr_source d = desk" and "dr_scope d = ''*''"
    and "driver_window_in_month d (month_first period) (month_last period) = Some (a, b)"
    and "parse_date a = None" and "day_cents desk [] period (cut_of through) s \<noteq> []"
  shows "project_with_drivers_as_at desk period through s = Inl NeverReturns"
proof -
  let ?x = "\<lparr>ap_driver = d, ap_start = a, ap_end = b, ap_scoped = None\<rparr>"
  have "?x \<in> set (overlapping desk period (cut_of through) s)"
    using assms(1-4) by (rule overlapping_wide)
  moreover have "\<not> str_lt b a" using assms(4) by (auto simp: driver_window_in_month_def Let_def split: if_splits)
  ultimately have "wide_days (overlapping desk period (cut_of through) s) = None"
    using wide_days_Some [of "overlapping desk period (cut_of through) s"] window_days_stuck [OF assms(5)]
    by (fastforce simp: list_all_iff)
  then show ?thesis using assms(6) by (simp add: project_with_drivers_as_at_def Let_def)
qed

section \<open>A desk no driver reaches\<close>

lemma sum_over_days:
  "sum_list (map (\<lambda>d. sum_list (map f (filter (\<lambda>c. k c = d) cs))) (remdups (map k cs))) = (sum_list (map f cs) :: int)"
proof -
  have "sum_list (map (\<lambda>d. sum_list (map f (filter (\<lambda>c. k c = d) cs))) (remdups (map k cs))) =
      (\<Sum>d \<in> k ` set cs. sum_list (map f (filter (\<lambda>c. k c = d) cs)))"
    by (simp add: sum_list_distinct_conv_sum_set)
  also have "\<dots> = sum_list (map f cs)"
  proof -
    have "(\<Sum>d \<in> A. sum_list (map f (filter (\<lambda>c. k c = d) cs))) = sum_list (map f cs)"
      if "finite A" "k ` set cs \<subseteq> A" for A
      using that(2)
    proof (induction cs)
      case (Cons c cs)
      have "(\<Sum>d \<in> A. sum_list (map f (filter (\<lambda>c. k c = d) (c # cs)))) =
          (\<Sum>d \<in> A. (if k c = d then f c else 0) + sum_list (map f (filter (\<lambda>c. k c = d) cs)))"
        by (intro sum.cong) auto
      also have "\<dots> = f c + sum_list (map f cs)"
        using Cons that(1) by (simp add: sum.distrib)
      finally show ?case by simp
    qed simp
    from this [of "k ` set cs"] show ?thesis by simp
  qed
  finally show ?thesis .
qed

lemma concat_filter: "concat (map (\<lambda>c. if Q c then [f c] else []) cs) = map f (filter Q cs)"
  by (induction cs) auto

lemma sum_wrapped: "wrap64 (sum_list (map (wrap64 o f) ds)) = wrap64 (sum_list (map f ds))"
proof (induction ds)
  case (Cons d ds)
  then show ?case by (simp add: go_int) (metis wrap64_add_right)
qed simp

lemma day_sums_total: "cents_sum (map snd (day_sums P s)) = cents_sum (map ch_billed (filter P (st_charges s)))"
proof -
  have "map snd (day_sums P s) =
      map (\<lambda>d. sum_list (map ch_billed (filter (\<lambda>c. ch_day c = d) (filter P (st_charges s))))) (charge_days P s)"
    by (simp add: day_sums_def day_sum_def concat_filter o_def conj_commute)
  then show ?thesis using sum_over_days [of ch_billed ch_day "filter P (st_charges s)"]
    by (simp add: cents_sum_wrap charge_days_def)
qed

lemma sdiv_between:
  assumes "0 < n"
  shows "min a 0 \<le> a sdiv n \<and> a sdiv n \<le> max a (0 :: int)"
proof (cases "0 \<le> a")
  case True
  then show ?thesis using assms zdiv_mono2 [of a 1 n] sdiv_nonneg [of a n] by (simp add: pos_imp_zdiv_nonneg_iff)
next
  case False
  then have "0 \<le> (- a) div n" "(- a) div n \<le> - a"
    using assms zdiv_mono2 [of "- a" 1 n] by (simp_all add: pos_imp_zdiv_nonneg_iff)
  then show ?thesis using False assms by (simp add: signed_divide_int_def sgn_if mult_less_0_iff)
qed

lemma run_rate_in64: "0 < n \<Longrightarrow> in64 (run_rate x m n)"
  using sdiv_between [of n "wrap64 (x * m)"] in64_wrap64 [of "x * m"]
  by (auto simp: run_rate_def in64_def min64_def max64_def)

text \<open>
  C19. No driver, one run rate. Where no registered driver of the desk reaches into the month, the
  driver-aware projection is the desk's total so far, extended over the month by the days of it that
  have landed on that desk, and rounded once. The desk's entry in \<open>ProjectAsAt\<close> extends the same
  total by the days of the desk with the most of them: the two are one figure for a desk with as
  many days landed as any, and not for a desk that lags.
\<close>

theorem undriven_projection_is_the_run_rate:
  assumes "overlapping desk period (cut_of through) s = []"
    and "day_cents desk [] period (cut_of through) s \<noteq> []"
    and "project_as_at period through s = Inr (figures, basis)"
  shows "(\<exists>prose. project_with_drivers_as_at desk period through s =
       Inr (run_rate (source_total period (cut_of through) desk s) (days_in_month period)
              (int (source_days period (cut_of through) desk s)), prose, [])) \<and>
    map_of figures desk =
      Some (run_rate (source_total period (cut_of through) desk s) (days_in_month period)
              (days_landed period (cut_of through) s))"
proof -
  let ?c = "cut_of through"
  let ?P = "\<lambda>c. landed_by period ?c c \<and> ch_source c = desk"
  have dc: "day_cents desk [] period ?c s = day_sums ?P s"
    by (simp add: day_cents_def conj_commute)
  have m: "0 < days_in_month period" using days_in_bounds(1) [of "decimal (take 2 (drop 5 period))" "decimal (take 4 period)"]
    by (simp add: days_in_month_def split: option.split)
  have n: "length (day_cents desk [] period ?c s) = source_days period ?c desk s"
    by (simp add: dc day_sums_def source_days_def)
  then have pos: "0 < source_days period ?c desk s" using assms(2) by (cases "day_cents desk [] period ?c s") auto
  have clean: "map (clean_day []) ds = map (wrap64 o snd) ds" for ds
    by (simp add: clean_day_def)
  have total: "cents_sum (map (wrap64 o snd) (day_cents desk [] period ?c s)) = source_total period ?c desk s"
    using day_sums_total [of ?P s] by (simp add: dc cents_sum_wrap source_total_def sum_wrapped)
  have "fst (price_month period (day_cents desk [] period ?c s) [] []) =
      run_rate (source_total period ?c desk s) (days_in_month period) (int (source_days period ?c desk s))"
    using m assms(2) by (simp add: price_month_def clean_part_def clean total [symmetric] n Let_def cents_sum_def wrap64_id run_rate_in64 pos)
  moreover have "snd (snd (price_month period (day_cents desk [] period ?c s) [] [])) = []"
    by (simp add: price_month_def sort_lines_def Let_def split: prod.split)
  ultimately obtain prose where p: "price_month period (day_cents desk [] period ?c s) [] [] =
      (run_rate (source_total period ?c desk s) (days_in_month period) (int (source_days period ?c desk s)), prose, [])"
    by (metis prod.collapse)
  obtain c where "c \<in> set (st_charges s)" "?P c"
    using assms(2) by (auto simp: dc day_sums_def charge_days_def filter_empty_conv)
  then have "desk \<in> set (desks_in_period period ?c s)"
    by (auto simp: desks_in_period_def)
  then have "map_of figures desk =
      Some (run_rate (source_total period ?c desk s) (days_in_month period) (days_landed period ?c s))"
    using assms(3) by (auto simp: project_as_at_def Let_def map_of_map_restrict restrict_map_def split: if_splits)
  with p assms(1,2) show ?thesis by (simp add: project_with_drivers_as_at_def Let_def)
qed

section \<open>Concrete desks\<close>

definition demo_month :: "driver list \<Rightarrow> store" where
  "demo_month ds = empty_store\<lparr>st_charges := [\<lparr>ch_source = ''aws'', ch_day = ''2026-10-01'', ch_service = ''compute'',
     ch_team = ''growth'', ch_category = ''Usage'', ch_billed = 9000, ch_provenance = []\<rparr>], st_drivers := ds\<rparr>"

definition demo_driver :: "string \<Rightarrow> driver" where
  "demo_driver start = \<lparr>dr_start = start, dr_end = ''2026-10-9'', dr_scope = ''*'', dr_label = ''migration'',
     dr_kind = ''one-time'', dr_source = ''aws'', dr_expected = None, dr_team = []\<rparr>"

lemma demo_charged: "day_cents ''aws'' [] ''2026-10'' (cut_of 31) (demo_month ds) = [(''2026-10-01'', 9000)]"
  by (simp add: day_cents_def day_sums_def charge_days_def day_sum_def demo_month_def empty_store_def landed_by_def) code_simp

theorem projection_returns_witness:
  "\<exists>figure basis ls. project_with_drivers_as_at ''aws'' ''2026-10'' 31
     (demo_month [(demo_driver ''2026-10-03'')\<lparr>dr_end := ''2026-10-09''\<rparr>]) = Inr (figure, basis, ls)"
proof -
  have "parse_date (''2026-10'' @ ''-01'') = Some 740255" "str_lt ''2026-10'' ''9999''" by code_simp+
  moreover have "parse_date ''2026-10-03'' \<noteq> None" "parse_date ''2026-10-09'' \<noteq> None" by code_simp+
  ultimately show ?thesis
    using projection_returns [of "''2026-10''" 740255 "''aws''"
        "demo_month [(demo_driver ''2026-10-03'')\<lparr>dr_end := ''2026-10-09''\<rparr>]" 31]
    by (simp add: demo_charged) (simp add: list_all_iff demo_month_def demo_driver_def empty_store_def)
qed

theorem undated_driver_never_returns_witness:
  "project_with_drivers_as_at ''aws'' ''2026-10'' 31 (demo_month [demo_driver ''2026-10-3'']) = Inl NeverReturns"
proof -
  have "driver_window_in_month (demo_driver ''2026-10-3'') (month_first ''2026-10'') (month_last ''2026-10'') =
      Some (''2026-10-3'', ''2026-10-31'')" "parse_date ''2026-10-3'' = None" by code_simp+
  moreover have "demo_driver ''2026-10-3'' \<in> set (drivers (demo_month [demo_driver ''2026-10-3'']))"
    "dr_source (demo_driver ''2026-10-3'') = ''aws''" "dr_scope (demo_driver ''2026-10-3'') = ''*''"
    by (simp_all add: demo_month_def demo_driver_def)
  ultimately show ?thesis
    using undated_driver_never_returns [of "demo_driver ''2026-10-3''" "demo_month [demo_driver ''2026-10-3'']"]
    by (simp add: demo_charged)
qed

text \<open>Two desks, one a day behind: 90 dollars on its one day are 2790 in the month, or 1395.\<close>

definition demo_lag :: store where
  "demo_lag = empty_store\<lparr>st_charges :=
     [\<lparr>ch_source = ''aws'', ch_day = ''2026-10-01'', ch_service = ''compute'', ch_team = ''growth'',
       ch_category = ''Usage'', ch_billed = 4000, ch_provenance = []\<rparr>,
      \<lparr>ch_source = ''aws'', ch_day = ''2026-10-02'', ch_service = ''compute'', ch_team = ''growth'',
       ch_category = ''Usage'', ch_billed = 4000, ch_provenance = []\<rparr>,
      \<lparr>ch_source = ''gcp'', ch_day = ''2026-10-01'', ch_service = ''compute'', ch_team = ''growth'',
       ch_category = ''Usage'', ch_billed = 9000, ch_provenance = []\<rparr>]\<rparr>"

theorem undriven_projection_is_the_run_rate_witness:
  "(\<exists>prose. project_with_drivers_as_at ''gcp'' ''2026-10'' 31 demo_lag = Inr (279000, prose, [])) \<and>
   map_of [(''aws'', 124000), (''gcp'', 139500)] ''gcp'' = Some (139500 :: cents)"
proof -
  have o: "overlapping ''gcp'' ''2026-10'' (cut_of 31) demo_lag = []" by code_simp
  have d: "day_cents ''gcp'' [] ''2026-10'' (cut_of 31) demo_lag \<noteq> []" by code_simp
  have p: "project_as_at ''2026-10'' 31 demo_lag =
      Inr ([(''aws'', 124000), (''gcp'', 139500)], ''run rate over the 2 days of 2026-10 that have data, extended to 31'')"
    by code_simp
  have r: "run_rate (source_total ''2026-10'' (cut_of 31) ''gcp'' demo_lag) (days_in_month ''2026-10'')
      (int (source_days ''2026-10'' (cut_of 31) ''gcp'' demo_lag)) = 279000"
    "run_rate (source_total ''2026-10'' (cut_of 31) ''gcp'' demo_lag) (days_in_month ''2026-10'')
      (days_landed ''2026-10'' (cut_of 31) demo_lag) = 139500"
    by code_simp+
  show ?thesis using undriven_projection_is_the_run_rate [OF o d p] unfolding r .
qed

end
