(* ===== verification/Halting.thy ===== *)
theory Halting
  imports Choose
begin

text \<open>
  What \<open>halt.go\<close> and \<open>decision.go\<close> promise: lifting a halt gives a desk back the analysts the halt
  took off the rota, as they were; a halt naming an analyst who has since left the roster cannot be
  lifted; and when a decision request counts as answered.
\<close>

section \<open>Moving analysts on and off the rota\<close>

lemma find_analyst: "get_analyst n s \<noteq> None \<longleftrightarrow> n \<in> an_name ` set (st_analysts s)"
  by (auto simp: get_analyst_def roster_def find_None_iff image_iff)

definition put_state :: "string set \<Rightarrow> string \<Rightarrow> string \<Rightarrow> analyst \<Rightarrow> analyst" where
  "put_state ns st reason a = (if an_name a \<in> ns then a\<lparr>an_state := st, an_reason := reason\<rparr> else a)"

lemma put_state_name [simp]: "an_name (put_state ns st reason a) = an_name a"
  by (simp add: put_state_def)

lemma put_state_more: "put_state ns st r (put_state {n} st r a) = put_state (insert n ns) st r a"
  by (simp add: put_state_def)

lemma set_state_run:
  assumes "n \<in> an_name ` set (st_analysts s)" and "st \<in> set analyst_states" and "st = ''active'' \<or> \<not> blank reason"
  shows "set_state n st reason s =
    (Inr (), s\<lparr>st_analysts := map (put_state {n} st (if st = ''active'' then [] else reason)) (st_analysts s)\<rparr>)"
proof -
  obtain a where "get_analyst n s = Some a" using assms(1) find_analyst by blast
  with assms(2,3) show ?thesis
    by (auto simp: set_state_def op_run update_analyst_def update_where_def put_state_def)
qed

lemma set_states_run:
  assumes "set ns \<subseteq> an_name ` set (st_analysts s)" and "st \<in> set analyst_states" and "st = ''active'' \<or> \<not> blank reason"
  shows "\<exists>t. each (\<lambda>n. andthen (set_state n st reason) (\<lambda>_. emit rec (ev n))) ns s = (Inr (), t) \<and>
    st_analysts t = map (put_state (set ns) st (if st = ''active'' then [] else reason)) (st_analysts s) \<and>
    st_halts t = st_halts s"
  using assms(1)
proof (induction ns arbitrary: s)
  case Nil
  then show ?case by (simp add: op_run put_state_def)
next
  case (Cons n ns)
  let ?r = "if st = ''active'' then [] else reason"
  let ?m = "journal rec (ev n) (s\<lparr>st_analysts := map (put_state {n} st ?r) (st_analysts s)\<rparr>)"
  have "set ns \<subseteq> an_name ` set (st_analysts ?m)" using Cons.prems by (simp add: image_image)
  from Cons.IH [OF this] set_state_run [of n s st reason] Cons.prems assms(2,3) show ?case
    by (auto simp: op_run emit_def put_state_more)
qed

lemma set_state_missing:
  assumes "n \<notin> an_name ` set (st_analysts s)"
  shows "\<exists>e. set_state n st reason s = (Inl e, s)"
proof -
  have "get_analyst n s = None" using assms find_analyst by blast
  then show ?thesis by (simp add: set_state_def op_run)
qed

section \<open>Lifting gives back what the halt took\<close>

text \<open>
  A halt and its lifting cancel out. Where the desk was not halted, suspending its active analysts
  and lifting the halt later leaves every analyst in the state it was in, the list of halts as it
  was, and the two report the same names.
\<close>

theorem lifting_undoes_a_halt:
  assumes "apply_halt raw reason who owner day rec s = (Inr (Some ns), t)"
    and "distinct (map an_name (st_analysts s))" and "\<not> blank why"
  shows "\<exists>u. lift_halt (trim_space raw) why by' rec' t = (Inr ns, u) \<and>
    map an_state (st_analysts u) = map an_state (st_analysts s) \<and> st_halts u = st_halts s"
proof -
  let ?d = "trim_space raw"
  let ?susp = "each (\<lambda>n. andthen (set_state n ''suspended'' reason) (\<lambda>_.
      emit rec (state_changed n ''high'' ''suspended'' reason who))) ns"
  obtain m where r: "\<not> blank reason" and none: "active_halt ?d s = None" and ns: "ns = halted_by ?d s"
    and m: "?susp s = (Inr (), m)"
    and t: "t = m\<lparr>st_halts := st_halts m @ [\<lparr>dh_desk = ?d, dh_reason = reason, dh_started = day,
        dh_applied_by = who, dh_owner = owner, dh_suspended = ns\<rparr>]\<rparr>"
    using assms(1) by (auto simp: apply_halt_def Let_def op_ok split: if_splits)
  have on: "set ns \<subseteq> an_name ` set (st_analysts s)" by (auto simp: ns halted_by_def roster_def)
  have states: "''suspended'' \<in> set analyst_states" "''active'' \<in> set analyst_states"
    by (simp_all add: analyst_states_def)
  have am: "st_analysts m = map (put_state (set ns) ''suspended'' reason) (st_analysts s)" "st_halts m = st_halts s"
    using set_states_run [OF on states(1), of reason rec "\<lambda>n. state_changed n ''high'' ''suspended'' reason who"] r m by auto
  have free: "h \<in> set (st_halts s) \<Longrightarrow> dh_desk h \<noteq> ?d" for h
    using none by (auto simp: active_halt_def find_None_iff)
  have on': "set ns \<subseteq> an_name ` set (st_analysts t)" using on by (simp add: t am image_image)
  obtain v where v: "each (\<lambda>n. andthen (set_state n ''active'' []) (\<lambda>_.
        emit rec' (state_changed n ''info'' ''active'' why by'))) ns t = (Inr (), v)"
      "st_analysts v = map (put_state (set ns) ''active'' []) (st_analysts t)" "st_halts v = st_halts t"
    using set_states_run [OF on' states(2), of "[]" rec' "\<lambda>n. state_changed n ''info'' ''active'' why by'"] by auto
  have again: "active_halt ?d t = Some \<lparr>dh_desk = ?d, dh_reason = reason, dh_started = day,
      dh_applied_by = who, dh_owner = owner, dh_suspended = ns\<rparr>"
    using none by (simp add: active_halt_def t am(2) find_append)
  have "lift_halt ?d why by' rec' t = (Inr ns, v\<lparr>st_halts := filter (\<lambda>h. dh_desk h \<noteq> ?d) (st_halts v)\<rparr>)"
    using assms(3) by (simp add: lift_halt_def op_run again v(1))
  moreover have "map an_state (st_analysts v) = map an_state (st_analysts s)"
  proof -
    have "an_state (put_state (set ns) ''active'' [] (put_state (set ns) ''suspended'' reason a)) = an_state a"
      if a: "a \<in> set (st_analysts s)" for a
    proof (cases "an_name a \<in> set ns")
      case True
      then obtain b where b: "b \<in> set (st_analysts s)" "an_name b = an_name a" "an_state b = ''active''"
        by (auto simp: ns halted_by_def roster_def)
      have "b = a" using distinct_key_eq [OF assms(2) b(1) a b(2)] .
      with b(3) True show ?thesis by (simp add: put_state_def)
    qed (simp add: put_state_def)
    then show ?thesis by (simp add: v(2) t am(1))
  qed
  moreover have "filter (\<lambda>h. dh_desk h \<noteq> ?d) (st_halts v) = st_halts s"
    using free by (simp add: v(3) t am(2) filter_id_conv)
  ultimately show ?thesis by auto
qed

text \<open>
  C37. A halt can be stuck. Where a halt names an analyst who is no longer on the roster (removed while
  suspended), lifting it fails, whoever lifts it and for whatever reason, and the desk is still
  halted afterwards: no call of \<open>LiftHalt\<close> ever removes the row.
\<close>

theorem halt_of_a_removed_analyst_is_stuck:
  assumes "active_halt desk s = Some h" and "n \<in> set (dh_suspended h)" and "n \<notin> an_name ` set (st_analysts s)"
  shows "\<exists>e t. lift_halt desk why by' rec s = (Inl e, t) \<and> active_halt desk t = Some h \<and>
    an_name ` set (st_analysts t) = an_name ` set (st_analysts s)"
proof (cases "blank why")
  case True
  then show ?thesis using assms(1) by (simp add: lift_halt_def op_run)
next
  case False
  let ?go = "\<lambda>n. andthen (set_state n ''active'' []) (\<lambda>_. emit rec (state_changed n ''info'' ''active'' why by'))"
  have "\<exists>e t. each ?go ns u = (Inl e, t) \<and> st_halts t = st_halts u \<and>
      an_name ` set (st_analysts t) = an_name ` set (st_analysts u)"
    if "n \<in> set ns" "n \<notin> an_name ` set (st_analysts u)" for ns u
    using that
  proof (induction ns arbitrary: u)
    case (Cons m ns)
    show ?case
    proof (cases "m \<in> an_name ` set (st_analysts u)")
      case False
      then show ?thesis using set_state_missing [of m u "''active''" "[]"] by (auto simp: op_run)
    next
      case True
      let ?w = "journal rec (state_changed m ''info'' ''active'' why by') (u\<lparr>st_analysts :=
        map (put_state {m} ''active'' []) (st_analysts u)\<rparr>)"
      have same: "an_name ` set (st_analysts ?w) = an_name ` set (st_analysts u)" by (simp add: image_image)
      have "?go m u = (Inr (), ?w)"
        using set_state_run [OF True, of "''active''" "[]"] by (simp add: op_run emit_def analyst_states_def)
      moreover have "n \<in> set ns" "n \<notin> an_name ` set (st_analysts ?w)" using Cons.prems True same by auto
      ultimately show ?thesis using Cons.IH [of ?w] same by (auto simp: andthen_run)
    qed
  qed simp
  from this [OF assms(2,3)] obtain e t where "each ?go (dh_suspended h) s = (Inl e, t)" "st_halts t = st_halts s"
      "an_name ` set (st_analysts t) = an_name ` set (st_analysts s)" by blast
  with False assms(1) show ?thesis
    by (intro exI [of _ e] exI [of _ t]) (simp add: lift_halt_def op_run active_halt_def)
qed

section \<open>When a decision request is answered\<close>

text \<open>
  An unclaimed request answers itself. A request for work nobody owns is addressed to
  \<open>unclaimed\<close>, but the options still waiting are looked for under the owner a task carries, which
  is empty there: the first call posts the request, stamped by nobody's name, however many of its
  options are still carried.
\<close>

theorem unclaimed_request_posts_early:
  assumes "list_all (\<lambda>t. tk_owner t \<noteq> ''unclaimed'') (st_tasks s)"
    and "decision_request_for sprint ''unclaimed'' s = Some i" and "artifact_row i s = Some a"
  shows "\<exists>t b. post_decision_request_if_complete sprint ''unclaimed'' s = (Inr (), t) \<and>
    st_options t = st_options s \<and> artifact_row i t = Some b \<and> ar_state b = PostedDraft"
proof -
  have "\<not> homed (\<lambda>a t. tk_sprint t = sprint \<and> tk_owner t = ''unclaimed'') x s" for x
    using assms(1) by (auto simp: homed_def option_home_def list_all_iff find_Some_iff split: option.splits)
  then have "carried_options_for sprint ''unclaimed'' s = []" by (simp add: carried_options_for_def in_order_def)
  then show ?thesis
    using assms(2,3) artifact_row_SomeD [OF assms(3)]
    by (simp add: post_decision_request_if_complete_def op_run artifact_row_def find_update_where)
qed

section \<open>Concrete desks\<close>

lemma demo_halt:
  "\<exists>t. apply_halt ''aws'' ''bad feed'' ''sup'' ''boss'' ''2026-10-05'' None demo_board = (Inr (Some [''ann'']), t)"
proof -
  have facts: "halted_by ''aws'' demo_board = [''ann'']" "trim_space ''aws'' = ''aws''" "\<not> blank ''bad feed''"
    by (simp_all add: halted_by_def roster_def demo_board_def demo_analyst_def blank_def trim_space_solid solid_def byte_def)
  have none: "active_halt ''aws'' demo_board = None" by (simp add: active_halt_def demo_board_def empty_store_def)
  have on: "set [''ann''] \<subseteq> an_name ` set (st_analysts demo_board)" by (simp add: demo_board_def demo_analyst_def)
  have st: "''suspended'' \<in> set analyst_states" by (simp add: analyst_states_def)
  obtain m where "each (\<lambda>n. andthen (set_state n ''suspended'' ''bad feed'') (\<lambda>_.
      emit None (state_changed n ''high'' ''suspended'' ''bad feed'' ''sup''))) [''ann''] demo_board = (Inr (), m)"
    using set_states_run [OF on st, of "''bad feed''" None "\<lambda>n. state_changed n ''high'' ''suspended'' ''bad feed'' ''sup''"]
      facts(3) by auto
  then show ?thesis using facts none by (simp add: apply_halt_def Let_def op_run del: each.simps)
qed

theorem lifting_undoes_a_halt_witness:
  "\<exists>t u. apply_halt ''aws'' ''bad feed'' ''sup'' ''boss'' ''2026-10-05'' None demo_board = (Inr (Some [''ann'']), t) \<and>
     lift_halt ''aws'' ''feed is back'' ''boss'' None t = (Inr [''ann''], u) \<and>
     map an_state (st_analysts u) = map an_state (st_analysts demo_board)"
proof -
  obtain t where t: "apply_halt ''aws'' ''bad feed'' ''sup'' ''boss'' ''2026-10-05'' None demo_board = (Inr (Some [''ann'']), t)"
    using demo_halt by blast
  have d: "distinct (map an_name (st_analysts demo_board))" by (simp add: demo_board_def)
  have r: "\<not> blank ''feed is back''" "trim_space ''aws'' = ''aws''"
    by (simp_all add: blank_def trim_space_solid solid_def byte_def)
  from lifting_undoes_a_halt [OF t d r(1), of "''boss''" None] t r(2) show ?thesis by auto
qed

definition demo_stuck :: store where
  "demo_stuck = empty_store\<lparr>st_halts := [\<lparr>dh_desk = ''aws'', dh_reason = ''bad feed'', dh_started = ''2026-10-05'',
     dh_applied_by = ''sup'', dh_owner = ''boss'', dh_suspended = [''ann'']\<rparr>]\<rparr>"

theorem halt_of_a_removed_analyst_is_stuck_witness:
  "\<exists>e t. lift_halt ''aws'' ''feed is back'' ''boss'' None demo_stuck = (Inl e, t) \<and> active_halt ''aws'' t \<noteq> None"
  using halt_of_a_removed_analyst_is_stuck [of "''aws''" demo_stuck _ "''ann''" "''feed is back''" "''boss''" None]
  by (auto simp: active_halt_def demo_stuck_def empty_store_def)

definition demo_unclaimed :: store where
  "demo_unclaimed = demo_choice\<lparr>st_tasks := [demo_task\<lparr>tk_owner := []\<rparr>],
     st_artifacts := [demo_artifact, demo_artifact\<lparr>ar_id := 2, ar_author := ''supervisor'', ar_state := Draft\<rparr>],
     st_requests := [\<lparr>rq_artifact = 2, rq_sprint = 1, rq_owner = ''unclaimed'', rq_lapses = ''2026-10-12''\<rparr>]\<rparr>"

theorem unclaimed_request_posts_early_witness:
  "length (filter (\<lambda>x. op_state x = OptionCarried) (st_options demo_unclaimed)) = 2 \<and>
   (\<exists>t b. post_decision_request_if_complete 1 ''unclaimed'' demo_unclaimed = (Inr (), t) \<and>
      artifact_row 2 t = Some b \<and> ar_state b = PostedDraft)"
proof -
  have "decision_request_for 1 ''unclaimed'' demo_unclaimed = Some 2"
    by (simp add: decision_request_for_def request_row_def demo_unclaimed_def)
  moreover have "artifact_row 2 demo_unclaimed =
      Some (demo_artifact\<lparr>ar_id := 2, ar_author := ''supervisor'', ar_state := Draft\<rparr>)"
    by (simp add: artifact_row_def demo_unclaimed_def demo_artifact_def)
  moreover have "list_all (\<lambda>t. tk_owner t \<noteq> ''unclaimed'') (st_tasks demo_unclaimed)"
    by (simp add: demo_unclaimed_def)
  ultimately show ?thesis using unclaimed_request_posts_early [of demo_unclaimed 1 2]
    by (auto simp: demo_unclaimed_def demo_choice_def)
qed

end
