(* ===== verification/Duties.thy ===== *)
theory Duties
  imports Board Spend
begin

text \<open>
  What the roster is seeded from: the prose of a role family in \<open>internal/crew/roles.yaml\<close>
  (mission, cadence, audience, what it owes) with \<open>ForDesk\<close>'s substitution, the rights a skill
  needs (\<open>internal/crew/mandate.go\<close>) and the crew of \<open>internal/world/world.go\<close>.
\<close>

section \<open>roles.yaml: the prose of a family\<close>

record prose =
  pr_mission :: string
  pr_cadence :: string
  pr_audience :: string
  pr_owes :: string

definition yaml_prose :: "(string \<times> prose) list" where
  "yaml_prose =
     [(''investigator'', \<lparr>pr_mission =
       ''Explain, within a day, every movement in {desk}'' @ [CHR 0x27] @
       ''s bill that the detector raised, and say which of them was somebody'' @ [CHR 0x27] @
       ''s decision rather than a fault.'',
     pr_cadence = ''daily'', pr_audience = ''{desk}'',
     pr_owes =
       ''for each anomaly taken: real or not; the cause, named, or '' @ [CHR 0x22] @
       ''none established'' @ [CHR 0x22] @
       '' in those words; the evidence (the rows and the arithmetic); two or three options '' @
       ''for what to do about it, each with its figure.''\<rparr>),
      (''anomaly-triage'', \<lparr>pr_mission =
       ''Take every new finding on {desk} within the day, decide whether it is real, '' @
       ''and put a named cause on it or say plainly that none is established.'',
     pr_cadence = ''daily'', pr_audience = ''{desk}'',
     pr_owes =
       ''a triage note per finding: real, expected (with the driver), or noise (with '' @
       ''the rule that should have caught it); the hand-off to an investigator when the '' @
       ''cause needs work.''\<rparr>),
      (''optimizer'', \<lparr>pr_mission =
       ''Find resources on {desk} that are paid for at a size nobody uses, and propose '' @
       ''the smaller size with the saving attached.'',
     pr_cadence = ''weekly'', pr_audience = ''{desk}'',
     pr_owes =
       ''a ranked list: resource, current, proposed, saving per month, confidence, the '' @
       ''risk (a monthly job looks idle to a fourteen-day window), and what a person '' @
       ''would have to do; every row is an OPTION.''\<rparr>),
      (''reporter'', \<lparr>pr_mission =
       ''Write what {desk} cost this period in language the teams paying for it can act '' @
       ''on.'',
     pr_cadence = ''weekly'', pr_audience = ''{desk}; the teams on it through the partner'',
     pr_owes =
       ''commentary.variance per team and commentary.showback per team, with the three '' @
       ''movers and the reason for each, from posted explanations rather than guesses.''\<rparr>),
      (''capacity-analyst'', \<lparr>pr_mission =
       ''Say what {desk} will need next quarter, and how far the last such answer was '' @ ''out.'',
     pr_cadence = ''weekly'', pr_audience = ''{desk}; the forecaster'',
     pr_owes =
       ''forecast.project for the desk with the basis and the drivers that would move '' @
       ''it; the miss on the last frozen month explained.''\<rparr>),
      (''finops-partner'', \<lparr>pr_mission =
       ''Own the relationship with the teams spending on {desk}: carry their questions '' @
       ''in, and carry the answers back in their own terms.'',
     pr_cadence = ''fortnightly'', pr_audience = ''the teams on {desk}'',
     pr_owes =
       ''a brief per team in that team'' @ [CHR 0x27] @
       ''s words: what moved, why, what is proposed, what is asked of them.''\<rparr>),
      (''ai-spend-analyst'', \<lparr>pr_mission =
       ''Watch what the organisation'' @ [CHR 0x27] @
       ''s own agents cost, this crew included, and say when a model choice stopped paying '' @
       ''for itself.'',
     pr_cadence = ''weekly'', pr_audience = ''the AI desk; the exec pack through the exec reporter'',
     pr_owes =
       ''cost per agent and per model with the trend; a recommendation.commitment-shaped '' @
       ''option list for model routing (which calls could move to a cheaper model and '' @
       ''what it would cost in outcome); the guard'' @ [CHR 0x27] @
       ''s savings stated as a figure.''\<rparr>),
      (''unit-economics-ai'', \<lparr>pr_mission =
       ''Turn AI spend into a cost per outcome, so a rising bill can be told apart from '' @
       ''a rising workload.'',
     pr_cadence = ''weekly'', pr_audience = ''the AI desk'',
     pr_owes =
       ''cost per outcome per unit and per model, with the denominator named; kpi.refuse '' @
       ''in those words when the denominator is not connected.''\<rparr>),
      (''saas-portfolio-manager'', \<lparr>pr_mission =
       ''Keep the licence estate honest: what is issued, what is used, and what renews '' @
       ''before anybody has decided to renew it.'',
     pr_cadence = ''weekly'', pr_audience = ''the SaaS desk; procurement through the owner'',
     pr_owes =
       ''the renewal calendar ninety days out; idle-seat money per vendor; an option '' @
       ''list per renewal (renew as is, reduce seats, let lapse), each with the figure '' @
       ''and the evidence.''\<rparr>),
      (''renewals-analyst'', \<lparr>pr_mission =
       ''Prepare every renewal before the vendor does, with the usage evidence and a '' @
       ''benchmark attached.'',
     pr_cadence = ''weekly'', pr_audience = ''the SaaS desk'',
     pr_owes =
       ''recommendation.renewal: the pack a person takes into the conversation, with '' @
       ''what to ask for and why.''\<rparr>),
      (''chargeback-analyst'', \<lparr>pr_mission =
       ''Split every shared cost across the teams that caused it, so the total charged '' @
       ''equals the invoice, to the cent.'',
     pr_cadence = ''weekly, and the close pack monthly'', pr_audience = ''the FinOps lead'',
     pr_owes =
       ''the close pack (allocation, coverage, unallocated with the rule that left it, '' @
       ''true-up, reconciliation to the invoice); options for any pot with no rule.''\<rparr>),
      (''commitment-analyst'', \<lparr>pr_mission =
       ''Model what to commit to and for how long, and track how much of what was committed '' @
       ''is actually being used.'',
     pr_cadence = ''weekly'', pr_audience = ''the FinOps lead'',
     pr_owes =
       ''recommendation.commitment: coverage, utilisation, what expires when, and for '' @
       ''each candidate buy-or-wait with the break-even in months.''\<rparr>),
      (''forecaster'', \<lparr>pr_mission =
       ''Say what the estate will cost this month, freeze it, and then be scored against '' @
       ''what it actually cost.'',
     pr_cadence = ''monthly'', pr_audience = ''the FinOps lead; the exec pack'',
     pr_owes =
       ''the estate projection with its basis and the drivers that would move it; the '' @
       ''commentary on last month'' @ [CHR 0x27] @ ''s miss; the freeze proposal.''\<rparr>),
      (''kpi-steward'', \<lparr>pr_mission =
       ''Keep the KPI definitions stable, and refuse to report one whose inputs are not '' @
       ''there rather than reporting a zero.'',
     pr_cadence = ''monthly'', pr_audience = ''the FinOps lead'',
     pr_owes =
       ''the KPI commentary: what moved, what refused and why, what would unblock each '' @
       ''refusal; the maturity '' @ [CHR 0x22] @ ''next'' @ [CHR 0x22] @ '' per capability.''\<rparr>),
      (''executive-reporter'', \<lparr>pr_mission =
       ''Give the executive pack the four numbers that decide something, and the reason '' @
       ''each one moved.'',
     pr_cadence = ''fortnightly'', pr_audience = ''the executive pack'',
     pr_owes =
       ''the pack: four numbers, each with its reason from a posted explanation and never '' @
       ''from a template; the decisions waiting on people.''\<rparr>),
      (''governance-analyst'', \<lparr>pr_mission =
       ''Assemble the evidence that the estate'' @ [CHR 0x27] @
       ''s own rules are being followed, and name the ones that are not.'',
     pr_cadence = ''monthly'', pr_audience = ''the executive pack'',
     pr_owes =
       ''the evidence pack, rule by rule, followed or not, with the row that shows it.''\<rparr>),
      (''data-quality-analyst'', \<lparr>pr_mission =
       ''Check that what the console reports can be traced to a charge, and stop the '' @
       ''crew when it cannot.'',
     pr_cadence = ''daily'', pr_audience = ''the supervisor'',
     pr_owes =
       ''the freshness and coverage report; a halt request naming the desk and the reason '' @
       ''when a threshold (T.stale, T.untagged) is crossed.''\<rparr>),
      (''benchmarking-analyst'', \<lparr>pr_mission =
       ''Compare this estate against its peers on the few measures where the comparison '' @
       ''is fair.'',
     pr_cadence = ''monthly'', pr_audience = ''the FinOps lead'',
     pr_owes =
       ''a comparison only where a named public figure exists; '' @ [CHR 0x22] @
       ''no fair comparison exists'' @ [CHR 0x22] @ '' in those words otherwise.''\<rparr>),
      (''sustainability-analyst'', \<lparr>pr_mission =
       ''Report the estate'' @ [CHR 0x27] @
       ''s energy and carbon alongside its cost, using the providers'' @ [CHR 0x27] @
       '' own published factors.'',
     pr_cadence = ''monthly'', pr_audience = ''the executive pack'',
     pr_owes =
       ''per-provider figures with the provider'' @ [CHR 0x27] @
       ''s factor and the sentence that they are not comparable across providers.''\<rparr>),
      (''deep-analysis'', \<lparr>pr_mission =
       ''The root-cause and scenario work a desk cannot finish inside its own guard.'',
     pr_cadence = ''on-request'', pr_audience = ''whoever asked'',
     pr_owes =
       ''the root cause with the evidence chain, or the scenarios with their assumptions '' @
       ''listed.''\<rparr>),
      (''intake-triage'', \<lparr>pr_mission =
       ''Read what people ask the practice and classify it, once an intake exists.'',
     pr_cadence = ''weekly'', pr_audience = ''the FinOps lead'',
     pr_owes =
       ''nothing until the owner decides an intake should exist (C10).''\<rparr>),
      (''migration-watch'', \<lparr>pr_mission =
       ''Track one migration'' @ [CHR 0x27] @ ''s cost against its plan, for as long as it runs.'',
     pr_cadence = ''weekly'', pr_audience = ''the aws desk'',
     pr_owes =
       ''the weekly delta against plan; a driver.one-time when a step lands.''\<rparr>),
      (''investigator-onprem'', \<lparr>pr_mission =
       ''Explain, within a day, every movement in {desk}'' @ [CHR 0x27] @
       ''s bill that the detector raised, and say which of them was somebody'' @ [CHR 0x27] @
       ''s decision rather than a fault.'',
     pr_cadence = ''weekly'', pr_audience = ''{desk}'',
     pr_owes =
       ''for each anomaly taken: real or not; the cause, named, or '' @ [CHR 0x22] @
       ''none established'' @ [CHR 0x22] @
       '' in those words; the evidence (the rows and the arithmetic); two or three options '' @
       ''for what to do about it, each with its figure.''\<rparr>),
      (''optimizer-onprem'', \<lparr>pr_mission =
       ''Find resources on {desk} that are paid for at a size nobody uses, and propose '' @
       ''the smaller size with the saving attached.'',
     pr_cadence = ''weekly'', pr_audience = ''{desk}'',
     pr_owes =
       ''a ranked list: resource, current, proposed, saving per month, confidence, the '' @
       ''risk (a monthly job looks idle to a fourteen-day window), and what a person '' @
       ''would have to do; every row is an OPTION.''\<rparr>),
      (''reporter-onprem'', \<lparr>pr_mission =
       ''Write what {desk} cost this period in language the teams paying for it can act '' @
       ''on.'',
     pr_cadence = ''weekly'', pr_audience = ''{desk}; the teams on it through the partner'',
     pr_owes =
       ''commentary.variance per team and commentary.showback per team, with the three '' @
       ''movers and the reason for each, from posted explanations rather than guesses.''\<rparr>),
      (''supervisor'', \<lparr>pr_mission =
       ''Plan the crew'' @ [CHR 0x27] @
       ''s week and route work to the desk that owns it. It plans; it does not execute, '' @
       ''and nothing it proposes reaches the estate without a person.'',
     pr_cadence = ''on-request'', pr_audience = ''whoever asked'',
     pr_owes =
       ''the sprint proposal with a why per item; the routing; the review verdict on '' @
       ''every deliverable (accept or return with a reason); the weekly decision request '' @
       ''to the owner, only when there is something in it.''\<rparr>)]"

text \<open>\<open>strings.ReplaceAll\<close> of a pattern that is not empty.\<close>

fun replace_all :: "string \<Rightarrow> string \<Rightarrow> nat \<Rightarrow> string \<Rightarrow> string" where
  "replace_all p w k [] = []"
| "replace_all p w (Suc k) (c # s) = replace_all p w k s"
| "replace_all p w 0 (c # s) =
     (if take (length p) (c # s) = p then w @ replace_all p w (length p - 1) s
      else c # replace_all p w 0 s)"

text \<open>\<open>whereFor\<close>, which \<open>ForDesk\<close> puts for \<open>{desk}\<close>.\<close>

definition where_for :: "string \<Rightarrow> string" where
  "where_for desk = (if desk = ''management'' then ''the whole estate'' else ''the '' @ desk @ '' desk'')"

definition for_desk :: "string \<Rightarrow> prose \<Rightarrow> prose" where
  "for_desk desk r = r\<lparr>pr_mission := replace_all ''{desk}'' (where_for desk) 0 (pr_mission r),
     pr_audience := replace_all ''{desk}'' (where_for desk) 0 (pr_audience r)\<rparr>"

definition role_prose :: "string \<Rightarrow> prose option" where
  "role_prose name =
     (case role_for roles_yaml name of None \<Rightarrow> None | Some r \<Rightarrow> map_of yaml_prose (jd_family r))"

definition role_for_desk :: "string \<Rightarrow> string \<Rightarrow> prose option" where
  "role_for_desk name desk = map_option (for_desk desk) (role_prose name)"

section \<open>The rights a skill needs\<close>

definition rights_for_skill :: "(string \<times> string list) list" where
  "rights_for_skill =
     [(''variance-commentary'', [''figures-read'', ''propose-only'']),
      (''anomaly-triage'', [''figures-read'', ''propose-only'']),
      (''driver-classification'', [''figures-read'', ''sql-readonly'']),
      (''rightsizing-analysis'', [''figures-read'', ''sql-readonly'', ''propose-only'']),
      (''commitment-modelling'', [''figures-read'', ''budgets-read'']),
      (''forecasting-commentary'', [''figures-read'', ''budgets-read'', ''propose-only'']),
      (''forecast-accuracy'', [''figures-read'', ''budgets-read'']),
      (''unit-economics'', [''figures-read'', ''sql-readonly'']),
      (''exec-reporting'', [''figures-read'', ''budgets-read'', ''export-data'']),
      (''showback-narration'', [''figures-read'', ''publish-explainer'']),
      (''capacity-estimation'', [''figures-read'', ''sql-readonly'']),
      (''ai-spend-analysis'', [''figures-read'', ''sql-readonly'']),
      (''licence-reconciliation'', [''figures-read'', ''sql-readonly'']),
      (''allocation-rules'', [''figures-read'', ''budgets-read'', ''export-data'']),
      (''period-close'', [''budgets-read'', ''close-covered'']),
      (''true-up'', [''budgets-read'', ''close-covered'']),
      (''kpi-benchmarking'', [''figures-read'', ''kpi-registry'']),
      (''stakeholder-briefing'', [''figures-read'', ''channel-post'', ''budgets-read'']),
      (''decision-framing'', [''figures-read'', ''export-data'', ''channel-post'', ''kpi-registry'']),
      (''token-economics'', [''figures-read'', ''sql-readonly'']),
      (''cost-per-outcome'', [''figures-read'', ''sql-readonly'']),
      (''sprint-planning'', [''figures-read'', ''budgets-read'']),
      (''routing'', [''figures-read'']),
      (''escalation'', [''channel-post'']),
      (''policy-review'', [''figures-read'', ''budgets-read'']),
      (''evidence-assembly'', [''figures-read'', ''export-data'']),
      (''data-quality-checks'', [''figures-read'', ''sql-readonly'']),
      (''tag-coverage'', [''figures-read'', ''sql-readonly'']),
      (''vendor-benchmarking'', [''figures-read'']),
      (''peer-comparison'', [''figures-read'', ''kpi-registry'']),
      (''renewal-calendar'', [''figures-read'', ''budgets-read'']),
      (''renewal-negotiation-prep'', [''figures-read'', ''propose-only'']),
      (''depreciation-modelling'', [''figures-read'', ''sql-readonly'']),
      (''model-routing-review'', [''figures-read'', ''sql-readonly'']),
      (''maturity-assessment'', [''figures-read'', ''kpi-registry'']),
      (''waterline-tracking'', [''figures-read'', ''budgets-read'']),
      (''sustainability-reporting'', [''figures-read'', ''export-data'']),
      (''carbon-accounting'', [''figures-read'', ''sql-readonly'']),
      (''root-cause-analysis'', [''figures-read'', ''sql-readonly'']),
      (''migration-tracking'', [''figures-read'', ''sql-readonly'']),
      (''step-detection'', [''figures-read'', ''sql-readonly'']),
      (''scenario-modelling'', [''figures-read'', ''budgets-read'']),
      (''intake-reading'', [''figures-read'']),
      (''request-classification'', [''figures-read''])]"

definition all_rights :: "string list" where
  "all_rights = [''figures-read'', ''sql-readonly'', ''budgets-read'', ''propose-only'', ''close-covered'',
     ''channel-post'', ''publish-explainer'', ''export-data'', ''kpi-registry'']"

text \<open>\<open>SkillPool\<close>: the skills with rights, sorted.\<close>

definition skill_pool :: "string list" where
  "skill_pool = sort_names (map fst rights_for_skill)"

definition retired_rights :: "string list" where
  "retired_rights = [''requests-read'']"

definition retired_skill_names :: "(string \<times> string) list" where
  "retired_skill_names =
     [(''carbon-reporting'', ''carbon-accounting''),
      (''efficiency-metrics'', ''sustainability-reporting'')]"

section \<open>The crew of the fixture\<close>

record agent =
  ag_name :: string
  ag_role :: string
  ag_desk :: string
  ag_state :: string
  ag_reason :: string
  ag_engine :: string
  ag_per_task :: string
  ag_monthly :: string
  ag_skills :: "string list"

definition cheap :: string where "cheap = ''openrouter''"
definition strong :: string where "strong = ''anthropic''"

definition agent_of :: "string \<Rightarrow> string \<Rightarrow> string \<Rightarrow> string \<Rightarrow> string \<Rightarrow> string \<Rightarrow> string \<Rightarrow> string \<Rightarrow>
    string list \<Rightarrow> agent" where
  "agent_of name role desk st reason engine per_task monthly skills =
     \<lparr>ag_name = name, ag_role = role, ag_desk = desk, ag_state = st, ag_reason = reason,
      ag_engine = engine, ag_per_task = per_task, ag_monthly = monthly, ag_skills = skills\<rparr>"

definition cloud_crew :: "string \<Rightarrow> agent list" where
  "cloud_crew d =
     [agent_of (''investigator-'' @ d) (''Investigator ('' @ d @ '' desk)'') d ''active''
        [] cheap ''15.00'' ''100.00'' [''variance-commentary'', ''anomaly-triage'', ''driver-classification''],
      agent_of (''optimizer-'' @ d) (''Optimizer ('' @ d @ '' desk)'') d ''active''
        [] cheap ''18.00'' ''90.00'' [''rightsizing-analysis'', ''commitment-modelling''],
      agent_of (''reporter-'' @ d) (''Reporter ('' @ d @ '' desk)'') d ''active''
        [] cheap ''20.00'' ''100.00'' [''exec-reporting'', ''showback-narration''],
      agent_of (''capacity-'' @ d) (''Capacity analyst ('' @ d @ '' desk)'') d ''active''
        [] cheap ''15.00'' ''75.00'' [''capacity-estimation'', ''forecast-accuracy''],
      agent_of (''triage-'' @ d) (''Anomaly triage ('' @ d @ '' desk)'') d ''active''
        [] cheap ''12.00'' ''120.00'' [''anomaly-triage'', ''driver-classification''],
      agent_of (''partner-'' @ d) (''FinOps partner ('' @ d @ '' desk)'') d ''active''
        [] strong ''25.00'' ''80.00'' [''stakeholder-briefing'', ''unit-economics'']]"

definition crew :: "agent list" where
  "crew =
     [agent_of ''supervisor'' ''Crew supervisor'' ''management'' ''active''
        [] strong ''5.00'' ''200.00'' [''sprint-planning'', ''routing'', ''escalation'']] @
     concat (map cloud_crew [''aws'', ''gcp'', ''azure'']) @
     [agent_of ''investigator-onprem'' ''Investigator (on-prem desk)'' ''onprem'' ''active''
        [] cheap ''15.00'' ''50.00'' [''variance-commentary'', ''capacity-estimation''],
      agent_of ''optimizer-onprem'' ''Optimizer (on-prem desk)'' ''onprem'' ''active''
        [] cheap ''18.00'' ''50.00'' [''rightsizing-analysis'', ''depreciation-modelling''],
      agent_of ''reporter-onprem'' ''Reporter (on-prem desk)'' ''onprem'' ''active''
        [] cheap ''20.00'' ''60.00'' [''exec-reporting'', ''showback-narration''],
      agent_of ''ai-spend'' ''AI spend analyst'' ''ai'' ''active''
        [] strong ''22.00'' ''150.00'' [''ai-spend-analysis'', ''token-economics''],
      agent_of ''unit-econ-ai'' ''Unit economics (AI)'' ''ai'' ''active''
        [] strong ''22.00'' ''120.00'' [''unit-economics'', ''cost-per-outcome''],
      agent_of ''triage-ai'' ''Anomaly triage (AI desk)'' ''ai'' ''active''
        [] cheap ''12.00'' ''100.00'' [''anomaly-triage'', ''model-routing-review''],
      agent_of ''saas-manager'' ''SaaS portfolio manager'' ''saas'' ''active''
        [] cheap ''14.00'' ''70.00'' [''licence-reconciliation'', ''renewal-calendar''],
      agent_of ''renewals'' ''Renewals analyst'' ''saas'' ''active''
        [] cheap ''14.00'' ''60.00'' [''renewal-negotiation-prep'', ''vendor-benchmarking''],
      agent_of ''chargeback'' ''Chargeback analyst'' ''management'' ''active''
        [] cheap ''16.00'' ''90.00'' [''allocation-rules'', ''period-close'', ''true-up''],
      agent_of ''commitments'' ''Commitment analyst'' ''management'' ''active''
        [] strong ''24.00'' ''110.00'' [''commitment-modelling'', ''waterline-tracking''],
      agent_of ''forecaster'' ''Forecaster'' ''management'' ''active''
        [] strong ''24.00'' ''130.00'' [''forecasting-commentary'', ''forecast-accuracy''],
      agent_of ''kpi-steward'' ''KPI steward'' ''management'' ''active''
        [] cheap ''12.00'' ''60.00'' [''kpi-benchmarking'', ''maturity-assessment''],
      agent_of ''exec-reporter'' ''Executive reporter'' ''management'' ''active''
        [] strong ''26.00'' ''140.00'' [''exec-reporting'', ''decision-framing''],
      agent_of ''governance'' ''Governance analyst'' ''management'' ''active''
        [] cheap ''12.00'' ''50.00'' [''policy-review'', ''evidence-assembly''],
      agent_of ''data-quality'' ''Data quality analyst'' ''management'' ''suspended''
        ''Tagging feed from the azure desk has been stale for 9 days; paused until it returns'' cheap ''12.00'' ''60.00'' [''data-quality-checks'', ''tag-coverage''],
      agent_of ''benchmarking'' ''Benchmarking analyst'' ''management'' ''onboarding''
        ''Hired this sprint; first deliverable not yet written'' cheap ''12.00'' ''60.00'' [''vendor-benchmarking'', ''peer-comparison''],
      agent_of ''sustainability'' ''Sustainability analyst'' ''management'' ''restricted''
        ''May propose only: carbon data source is not yet trusted for published figures'' cheap ''12.00'' ''40.00'' [''carbon-accounting'', ''sustainability-reporting''],
      agent_of ''deep-analysis'' ''Deep analysis (on request)'' ''management'' ''over-guard''
        ''Passed its 180.00 monthly ceiling on the 19th; further runs refused until the month turns'' strong ''40.00'' ''180.00'' [''root-cause-analysis'', ''scenario-modelling''],
      agent_of ''intake-triage'' ''Intake triage'' ''management'' ''probation''
        ''First-pass acceptance 54% over the last two sprints, against a bar of 80%'' cheap ''10.00'' ''50.00'' [''intake-reading'', ''request-classification''],
      agent_of ''migration-watch'' ''Migration watch'' ''aws'' ''suspended''
        ''The migration it was hired for finished on 2026-07-31; kept for its history'' cheap ''15.00'' ''70.00'' [''migration-tracking'', ''step-detection'']]"

section \<open>The dates of the fixture\<close>

definition last_day :: string where "last_day = ''2026-08-15''"

definition world_desks :: "string list" where
  "world_desks = [''aws'', ''gcp'', ''azure'', ''onprem'', ''ai'', ''saas'']"

text \<open>\<open>world.DayBefore\<close>.\<close>

definition day_before :: "string \<Rightarrow> int \<Rightarrow> string" where
  "day_before day n = (case parse_date day of None \<Rightarrow> day | Some d \<Rightarrow> format_date (add_days d (- n)))"

end
