(* ===== verification/Mandate.thy ===== *)
theory Mandate
  imports Duties
begin

text \<open>
  \<open>internal/crew/mandate.go\<close> and the seeding of \<open>internal/crew/roster.go\<close>: the mandate an analyst
  is seeded with, filling in what an older seeding left blank, and the two migrations that retire a
  right and rename a skill. The text of a list column is its entries joined by commas.
\<close>

section \<open>List columns\<close>

fun split_at :: "char \<Rightarrow> string \<Rightarrow> string list" where
  "split_at c [] = [[]]"
| "split_at c (x # s) = (if x = c then [] # split_at c s
     else (case split_at c s of [] \<Rightarrow> [[x]] | w # ws \<Rightarrow> (x # w) # ws))"

definition column :: "string list \<Rightarrow> string" where
  "column xs = join '','' xs"

definition sort_strings :: "string list \<Rightarrow> string list" where
  "sort_strings xs = sort_key (map byte) xs"

definition split_list :: "string \<Rightarrow> string list" where
  "split_list s =
     (if blank s then []
      else sort_strings (filter (\<lambda>p. p \<noteq> []) (map trim_space (split_at (CHR '','') s))))"

section \<open>What a mandate follows from\<close>

definition needs_of :: "string \<Rightarrow> string list" where
  "needs_of skill = (case map_of rights_for_skill skill of None \<Rightarrow> [] | Some rs \<Rightarrow> rs)"

text \<open>What a restricted analyst may not do: say anything in anybody's name.\<close>

definition speaking_rights :: "string list" where
  "speaking_rights = [''channel-post'', ''publish-explainer'', ''export-data'']"

definition rights_for :: "string list \<Rightarrow> string \<Rightarrow> string list" where
  "rights_for skills st =
     (if st = ''suspended'' then []
      else let seen = remdups (''figures-read'' # concat (map needs_of skills));
               kept = (if st = ''restricted'' then filter (\<lambda>r. r \<notin> set speaking_rights) seen else seen)
           in sort_strings kept)"

definition cadence_for :: "string \<Rightarrow> string" where
  "cadence_for name =
     (case role_prose name of None \<Rightarrow> ''weekly''
      | Some r \<Rightarrow> if pr_cadence r \<noteq> [] then pr_cadence r else ''weekly'')"

definition audience_for :: "string \<Rightarrow> string \<Rightarrow> string" where
  "audience_for name desk =
     (case role_for_desk name desk of
        Some r \<Rightarrow> if pr_audience r \<noteq> [] then pr_audience r else ''the '' @ desk @ '' desk''
      | None \<Rightarrow> ''the '' @ desk @ '' desk'')"

definition is_partner :: "string \<Rightarrow> bool" where
  "is_partner name \<longleftrightarrow> take 8 name = ''partner-''"

definition parent_for :: "string \<Rightarrow> string \<Rightarrow> string list \<Rightarrow> string" where
  "parent_for name desk partnered =
     (if name = ''supervisor'' then []
      else if is_partner name then ''supervisor''
      else if desk \<in> set partnered then ''partner-'' @ desk
      else ''supervisor'')"

definition mission_for :: "string \<Rightarrow> string \<Rightarrow> string \<Rightarrow> string" where
  "mission_for name role desk =
     (case role_for_desk name desk of
        Some r \<Rightarrow> if pr_mission r \<noteq> [] then pr_mission r else role @ '' for '' @ where_for desk @ ''.''
      | None \<Rightarrow> role @ '' for '' @ where_for desk @ ''.'')"

definition hired_on :: "nat \<Rightarrow> string" where
  "hired_on i = day_before last_day (12 * int i + 3)"

section \<open>SeedRoster\<close>

definition crew_partners :: "string list" where
  "crew_partners = map ag_desk (filter (is_partner \<circ> ag_name) crew)"

definition usd :: "string \<Rightarrow> cents" where
  "usd s = (case must_parse s of None \<Rightarrow> 0 | Some c \<Rightarrow> c)"

definition seeded :: "string \<Rightarrow> nat \<times> agent \<Rightarrow> analyst" where
  "seeded owner ia = (case ia of (i, a) \<Rightarrow>
     \<lparr>an_name = ag_name a, an_role = ag_role a, an_mission = mission_for (ag_name a) (ag_role a) (ag_desk a),
      an_desk = ag_desk a, an_engine = ag_engine a, an_state = ag_state a, an_reason = ag_reason a,
      an_skills = ag_skills a, an_rights = rights_for (ag_skills a) (ag_state a),
      an_per_task = usd (ag_per_task a), an_monthly = usd (ag_monthly a),
      an_cadence = cadence_for (ag_name a), an_audience = audience_for (ag_name a) (ag_desk a),
      an_owner = owner, an_parent = parent_for (ag_name a) (ag_desk a) crew_partners,
      an_attestation = ''none'', an_detail = [], an_hired = hired_on i\<rparr>)"

definition seed_roster :: "string \<Rightarrow> nat op" where
  "seed_roster owner = (\<lambda>s.
     if st_analysts s \<noteq> [] then (Inr 0, s)
     else (Inr (length crew),
           s\<lparr>st_analysts := map (seeded (if owner = [] then ''unclaimed'' else owner)) (enumerate 0 crew)\<rparr>))"

section \<open>BackfillMandate\<close>

text \<open>Where a name sits in the fixture.\<close>

definition place_in_crew :: "string \<Rightarrow> nat option" where
  "place_in_crew name =
     map_option fst (find (\<lambda>(i, a). ag_name a = name) (enumerate 0 crew))"

definition partnered_desks :: "analyst list \<Rightarrow> string list" where
  "partnered_desks rs = map an_desk (filter (is_partner \<circ> an_name) rs)"

definition flat_date :: "analyst \<Rightarrow> bool" where
  "flat_date r \<longleftrightarrow> an_hired r = [] \<or> an_hired r = last_day"

definition unowned :: "analyst \<Rightarrow> bool" where
  "unowned r \<longleftrightarrow> an_owner r = [] \<or> an_owner r = ''unclaimed''"

definition new_parent :: "string list \<Rightarrow> analyst \<Rightarrow> string" where
  "new_parent partnered r =
     (if an_parent r = [] \<or> an_parent r = ''supervisor'' then parent_for (an_name r) (an_desk r) partnered
      else an_parent r)"

definition new_hired :: "analyst \<Rightarrow> string" where
  "new_hired r =
     (if flat_date r then (case place_in_crew (an_name r) of Some i \<Rightarrow> hired_on i | None \<Rightarrow> an_hired r)
      else an_hired r)"

definition new_owner :: "string \<Rightarrow> analyst \<Rightarrow> string" where
  "new_owner owner r = (if unowned r \<and> owner \<noteq> [] then owner else an_owner r)"

text \<open>
  The UPDATE a row is given: the values are computed of the row as it was read (\<open>r\<close>), the CASE
  guards look at the row as it stands (\<open>cur\<close>).
\<close>

definition refill :: "string list \<Rightarrow> string \<Rightarrow> analyst \<Rightarrow> analyst \<Rightarrow> analyst" where
  "refill partnered owner r cur = cur\<lparr>
     an_mission := (if an_mission cur = [] then mission_for (an_name r) (an_role r) (an_desk r) else an_mission cur),
     an_rights := (if column (an_rights cur) = [] then rights_for (split_list (column (an_skills r))) (an_state r)
                   else an_rights cur),
     an_cadence := (if an_cadence cur \<in> {[], ''weekly''} then cadence_for (an_name r) else an_cadence cur),
     an_audience := (if an_audience cur \<in> {[], ''the desk''} then audience_for (an_name r) (an_desk r)
                     else an_audience cur),
     an_parent := new_parent partnered r, an_hired := new_hired r, an_owner := new_owner owner r\<rparr>"

text \<open>The comparison that makes the loop converge: every column the UPDATE writes, as its text.\<close>

definition same_mandate :: "analyst \<Rightarrow> analyst \<Rightarrow> bool" where
  "same_mandate a b \<longleftrightarrow> an_mission a = an_mission b \<and> column (an_rights a) = column (an_rights b) \<and>
     an_cadence a = an_cadence b \<and> an_audience a = an_audience b \<and> an_parent a = an_parent b \<and>
     an_hired a = an_hired b \<and> an_owner a = an_owner b"

definition filled :: "analyst \<Rightarrow> bool" where
  "filled r \<longleftrightarrow> an_mission r \<noteq> [] \<and> column (an_rights r) \<noteq> [] \<and> \<not> flat_date r \<and> \<not> unowned r"

definition needs_mandate :: "string list \<Rightarrow> string \<Rightarrow> analyst \<Rightarrow> bool" where
  "needs_mandate partnered owner r \<longleftrightarrow> \<not> filled r \<and> \<not> same_mandate (refill partnered owner r r) r"

definition backfill_mandate :: "string \<Rightarrow> nat op" where
  "backfill_mandate owner = (\<lambda>s.
     let rs = st_analysts s; ps = partnered_desks rs; todo = filter (needs_mandate ps owner) rs
     in (Inr (length todo),
         s\<lparr>st_analysts := fold (\<lambda>r. update_where (\<lambda>a. an_name a = an_name r) (refill ps owner r)) todo rs\<rparr>))"

section \<open>DropRetiredRights and RenameRetiredSkills\<close>

definition kept_rights :: "analyst \<Rightarrow> string list" where
  "kept_rights r = filter (\<lambda>x. x \<notin> set retired_rights) (split_list (column (an_rights r)))"

definition holds_retired :: "analyst \<Rightarrow> bool" where
  "holds_retired r \<longleftrightarrow> list_ex (\<lambda>x. x \<in> set retired_rights) (split_list (column (an_rights r)))"

definition drop_retired_rights :: "nat op" where
  "drop_retired_rights = (\<lambda>s.
     let todo = filter holds_retired (st_analysts s)
     in (Inr (length todo),
         s\<lparr>st_analysts := fold (\<lambda>r. update_where (\<lambda>a. an_name a = an_name r)
             (\<lambda>a. a\<lparr>an_rights := kept_rights r\<rparr>)) todo (st_analysts s)\<rparr>))"

definition new_skill :: "string \<Rightarrow> string" where
  "new_skill k = (case map_of retired_skill_names k of None \<Rightarrow> k | Some n \<Rightarrow> n)"

definition renamed_skills :: "analyst \<Rightarrow> string list" where
  "renamed_skills r = sort_strings (map new_skill (split_list (column (an_skills r))))"

definition topped_up_rights :: "analyst \<Rightarrow> string list" where
  "topped_up_rights r =
     sort_strings (remdups (split_list (column (an_rights r)) @ rights_for (renamed_skills r) (an_state r)))"

definition holds_renamed :: "analyst \<Rightarrow> bool" where
  "holds_renamed r \<longleftrightarrow>
     list_ex (\<lambda>k. map_of retired_skill_names k \<noteq> None) (split_list (column (an_skills r)))"

definition rename_retired_skills :: "nat op" where
  "rename_retired_skills = (\<lambda>s.
     let todo = filter holds_renamed (st_analysts s)
     in (Inr (length todo),
         s\<lparr>st_analysts := fold (\<lambda>r. update_where (\<lambda>a. an_name a = an_name r)
             (\<lambda>a. a\<lparr>an_skills := renamed_skills r, an_rights := topped_up_rights r\<rparr>)) todo (st_analysts s)\<rparr>))"

section \<open>Row by row\<close>

text \<open>An update of every row that is due, each by its own key, is one pass over the table.\<close>

lemma fold_update_keyed:
  assumes keep: "\<And>r a. k (f r a) = k a" and d: "distinct (map k ys)"
  shows "fold (\<lambda>r. update_where (\<lambda>a. k a = k r) (f r)) ys xs =
    map (\<lambda>a. case find (\<lambda>r. k r = k a) ys of None \<Rightarrow> a | Some r \<Rightarrow> f r a) xs"
  using d
proof (induction ys arbitrary: xs)
  case Nil
  show ?case by simp
next
  case (Cons y ys)
  have none: "find (\<lambda>r. k r = k y) ys = None"
    using Cons.prems by (auto simp: find_None_iff image_iff)
  have step: "(case find (\<lambda>r. k r = k (g a)) ys of None \<Rightarrow> g a | Some r \<Rightarrow> f r (g a)) =
      (case find (\<lambda>r. k r = k a) (y # ys) of None \<Rightarrow> a | Some r \<Rightarrow> f r a)"
    if g: "g = (\<lambda>a. if k a = k y then f y a else a)" for a g
  proof (cases "k a = k y")
    case True
    then have "find (\<lambda>r. k r = k (g a)) ys = None" using none by (simp add: g keep)
    with True show ?thesis by (simp add: g)
  next
    case False
    then have "g a = a" by (simp add: g)
    moreover have "k y \<noteq> k a" using False by simp
    ultimately show ?thesis using False by (simp cong: option.case_cong)
  qed
  let ?g = "\<lambda>a. if k a = k y then f y a else a"
  have "fold (\<lambda>r. update_where (\<lambda>a. k a = k r) (f r)) (y # ys) xs =
      fold (\<lambda>r. update_where (\<lambda>a. k a = k r) (f r)) ys (map ?g xs)"
    by (simp add: update_where_def [of "\<lambda>a. k a = k y"])
  also have "\<dots> = map (\<lambda>a. case find (\<lambda>r. k r = k a) ys of None \<Rightarrow> a | Some r \<Rightarrow> f r a) (map ?g xs)"
    by (rule Cons.IH) (use Cons.prems in simp)
  also have "\<dots> = map (\<lambda>a. case find (\<lambda>r. k r = k a) (y # ys) of None \<Rightarrow> a | Some r \<Rightarrow> f r a) xs"
    unfolding map_map by (rule map_cong [OF refl]) (simp only: comp_apply step [OF refl])
  finally show ?case .
qed

lemma find_key_filter:
  assumes "distinct (map k xs)" and "a \<in> set xs"
  shows "find (\<lambda>r. k r = k a) (filter P xs) = (if P a then Some a else None)"
  using assms by (induction xs) (auto simp: find_None_iff image_iff)

lemma fold_update_due:
  assumes keep: "\<And>r a. k (f r a) = k a" and d: "distinct (map k xs)"
  shows "fold (\<lambda>r. update_where (\<lambda>a. k a = k r) (f r)) (filter P xs) xs =
    map (\<lambda>a. if P a then f a a else a) xs"
proof -
  have "distinct (map k (filter P xs))" using d by (simp add: distinct_map inj_on_def)
  then have "fold (\<lambda>r. update_where (\<lambda>a. k a = k r) (f r)) (filter P xs) xs =
      map (\<lambda>a. case find (\<lambda>r. k r = k a) (filter P xs) of None \<Rightarrow> a | Some r \<Rightarrow> f r a) xs"
    by (intro fold_update_keyed) (rule keep)
  also have "\<dots> = map (\<lambda>a. if P a then f a a else a) xs"
    by (rule map_cong) (simp_all add: find_key_filter [OF d])
  finally show ?thesis .
qed

definition names_unique :: "store \<Rightarrow> bool" where
  "names_unique s \<longleftrightarrow> distinct (map an_name (st_analysts s))"

lemma backfill_rows:
  assumes "names_unique s"
  shows "st_analysts (snd (backfill_mandate owner s)) =
    map (\<lambda>a. if needs_mandate (partnered_desks (st_analysts s)) owner a
             then refill (partnered_desks (st_analysts s)) owner a a else a) (st_analysts s)"
  using assms unfolding names_unique_def backfill_mandate_def Let_def
  by (simp add: fold_update_due [of an_name "refill (partnered_desks (st_analysts s)) owner"] refill_def)

lemma drop_rows:
  assumes "names_unique s"
  shows "st_analysts (snd (drop_retired_rights s)) =
    map (\<lambda>a. if holds_retired a then a\<lparr>an_rights := kept_rights a\<rparr> else a) (st_analysts s)"
  using assms unfolding names_unique_def drop_retired_rights_def Let_def
  by (simp add: fold_update_due [of an_name "\<lambda>r a. a\<lparr>an_rights := kept_rights r\<rparr>"])

lemma rename_rows:
  assumes "names_unique s"
  shows "st_analysts (snd (rename_retired_skills s)) =
    map (\<lambda>a. if holds_renamed a then a\<lparr>an_skills := renamed_skills a, an_rights := topped_up_rights a\<rparr> else a)
      (st_analysts s)"
  using assms unfolding names_unique_def rename_retired_skills_def Let_def
  by (simp add: fold_update_due [of an_name "\<lambda>r a. a\<lparr>an_skills := renamed_skills r, an_rights := topped_up_rights r\<rparr>"])

section \<open>Backfilling converges\<close>

lemma refill_fields [simp]:
  "an_name (refill ps owner r a) = an_name a" "an_desk (refill ps owner r a) = an_desk a"
  "an_role (refill ps owner r a) = an_role a" "an_skills (refill ps owner r a) = an_skills a"
  "an_state (refill ps owner r a) = an_state a"
  "an_parent (refill ps owner r a) = new_parent ps r" "an_hired (refill ps owner r a) = new_hired r"
  "an_owner (refill ps owner r a) = new_owner owner r"
  by (simp_all add: refill_def)

lemma new_parent_settles: "new_parent ps (refill ps owner r r) = new_parent ps r"
  by (simp add: new_parent_def parent_for_def)

lemma new_hired_settles: "new_hired (refill ps owner r r) = new_hired r"
  by (simp add: new_hired_def flat_date_def split: option.split)

lemma new_owner_settles: "new_owner owner (refill ps owner r r) = new_owner owner r"
  by (simp add: new_owner_def unowned_def)

lemma refill_settles: "same_mandate (refill ps owner (refill ps owner r r) (refill ps owner r r)) (refill ps owner r r)"
  unfolding same_mandate_def
  by (simp add: new_parent_settles new_hired_settles new_owner_settles) (simp add: refill_def)

lemma partnered_after:
  "partnered_desks (map (\<lambda>a. if P a then refill ps owner a a else a) rs) = partnered_desks rs"
  unfolding partnered_desks_def by (induction rs) simp_all

text \<open>
  C36. Filling in the mandate converges: whatever the roster, a second run right after the first
  finds nothing to fill in and writes nothing, also where the right value of a column is empty (a
  suspended analyst has no rights).
\<close>

theorem backfill_converges:
  assumes "names_unique s"
  shows "backfill_mandate owner (snd (backfill_mandate owner s)) = (Inr 0, snd (backfill_mandate owner s))"
proof -
  let ?t = "snd (backfill_mandate owner s)" and ?ps = "partnered_desks (st_analysts s)"
  have rows: "st_analysts ?t =
      map (\<lambda>a. if needs_mandate ?ps owner a then refill ?ps owner a a else a) (st_analysts s)"
    by (rule backfill_rows [OF assms])
  have ps: "partnered_desks (st_analysts ?t) = ?ps"
    by (simp only: rows partnered_after)
  have "\<not> needs_mandate ?ps owner a" if "a \<in> set (st_analysts ?t)" for a
    using that refill_settles unfolding rows by (auto simp: needs_mandate_def split: if_splits)
  then have "filter (needs_mandate ?ps owner) (st_analysts ?t) = []"
    by (simp add: filter_empty_conv)
  then show ?thesis
    by (subst backfill_mandate_def) (simp add: ps Let_def)
qed

text \<open>Two analysts of an older seeding: one with blanks, one suspended, whose rights stay empty.\<close>

definition demo_old_crew :: store where
  "demo_old_crew = empty_store\<lparr>st_analysts :=
     [demo_analyst\<lparr>an_name := ''triage-aws'', an_desk := ''aws'', an_mission := [], an_rights := []\<rparr>,
      demo_analyst\<lparr>an_name := ''data-quality'', an_state := ''suspended'', an_rights := []\<rparr>]\<rparr>"

lemma demo_old_crew_unique: "names_unique demo_old_crew"
  by (simp add: names_unique_def demo_old_crew_def)

theorem backfill_converges_witness:
  "backfill_mandate ''y.mercer'' (snd (backfill_mandate ''y.mercer'' demo_old_crew)) =
   (Inr 0, snd (backfill_mandate ''y.mercer'' demo_old_crew))"
  by (rule backfill_converges [OF demo_old_crew_unique])

text \<open>
  Filling in never overrules a decision: a mission, a set of rights, a cadence other than
  weekly, a parent other than the supervisor, a hire date of its own or an owner somebody recorded
  stays as it was, and the name, the state, the skills and the guards of every analyst do.
\<close>

theorem backfill_keeps_decisions:
  assumes "names_unique s" and "a \<in> set (st_analysts s)"
  shows "\<exists>b \<in> set (st_analysts (snd (backfill_mandate owner s))).
    an_name b = an_name a \<and> an_state b = an_state a \<and> an_skills b = an_skills a \<and>
    an_per_task b = an_per_task a \<and> an_monthly b = an_monthly a \<and>
    (an_mission a \<noteq> [] \<longrightarrow> an_mission b = an_mission a) \<and>
    (column (an_rights a) \<noteq> [] \<longrightarrow> an_rights b = an_rights a) \<and>
    (an_cadence a \<notin> {[], ''weekly''} \<longrightarrow> an_cadence b = an_cadence a) \<and>
    (an_parent a \<notin> {[], ''supervisor''} \<longrightarrow> an_parent b = an_parent a) \<and>
    (\<not> flat_date a \<longrightarrow> an_hired b = an_hired a) \<and>
    (\<not> unowned a \<longrightarrow> an_owner b = an_owner a)"
proof -
  let ?ps = "partnered_desks (st_analysts s)"
  let ?b = "if needs_mandate ?ps owner a then refill ?ps owner a a else a"
  have "?b \<in> set (st_analysts (snd (backfill_mandate owner s)))"
    unfolding backfill_rows [OF assms(1)] using assms(2) by (simp only: set_map) (rule imageI)
  moreover have "an_parent a \<notin> {[], ''supervisor''} \<longrightarrow> new_parent ?ps a = an_parent a"
    by (simp add: new_parent_def)
  moreover have "\<not> flat_date a \<longrightarrow> new_hired a = an_hired a" by (simp add: new_hired_def)
  moreover have "\<not> unowned a \<longrightarrow> new_owner owner a = an_owner a" by (simp add: new_owner_def)
  ultimately show ?thesis
    by (intro bexI [of _ ?b]) (simp_all add: refill_def)
qed

theorem backfill_keeps_decisions_witness:
  "\<exists>b \<in> set (st_analysts (snd (backfill_mandate ''y.mercer'' demo_old_crew))). an_name b = ''data-quality'' \<and>
     an_state b = ''suspended''"
proof -
  let ?a = "demo_analyst\<lparr>an_name := ''data-quality'', an_state := ''suspended'', an_rights := []\<rparr>"
  have "?a \<in> set (st_analysts demo_old_crew)" by (simp add: demo_old_crew_def)
  from backfill_keeps_decisions [OF demo_old_crew_unique this, of "''y.mercer''"]
  show ?thesis by auto
qed

section \<open>List columns are read back\<close>

text \<open>A word a list column can hold: not empty, no comma in it, no space around it.\<close>

definition clean_word :: "string \<Rightarrow> bool" where
  "clean_word w \<longleftrightarrow> w \<noteq> [] \<and> CHR '','' \<notin> set w \<and> trim_space w = w"

lemma split_at_join:
  assumes "c \<notin> set w" and "\<forall>v \<in> set ws. c \<notin> set v"
  shows "split_at c (join [c] (w # ws)) = w # ws"
  using assms
proof (induction ws arbitrary: w)
  case Nil
  then show ?case by (induction w) auto
next
  case (Cons v ws)
  then have "split_at c (join [c] (v # ws)) = v # ws" by simp
  with Cons.prems(1) show ?case by (induction w) auto
qed

lemma strip_prefix_without:
  "strip_prefix ps s = Some t \<Longrightarrow> \<forall>p \<in> set ps. c \<notin> set p \<Longrightarrow> c \<in> set s \<Longrightarrow> c \<in> set t"
proof (induction ps)
  case (Cons p ps)
  have "c \<in> set (take (length p) s) \<or> c \<in> set (drop (length p) s)"
    using Cons.prems(3) by (metis Un_iff append_take_drop_id set_append)
  with Cons show ?case by (auto split: if_splits)
qed simp

lemma trim_by_without: "\<forall>p \<in> set ps. c \<notin> set p \<Longrightarrow> c \<in> set s \<Longrightarrow> c \<in> set (trim_by ps s)"
proof (induction ps s rule: trim_by.induct)
  case (1 ps s)
  then show ?case
    by (subst trim_by.simps) (auto split: option.split dest: strip_prefix_without)
qed

lemma comma_is_no_space: "\<forall>p \<in> set space_runes. CHR '','' \<notin> set p"
proof -
  have "list_all (\<lambda>p. CHR '','' \<notin> set p) space_runes" by code_simp
  then show ?thesis by (simp add: list_all_iff)
qed

lemma comma_not_blank: "CHR '','' \<in> set s \<Longrightarrow> \<not> blank s"
proof -
  assume "CHR '','' \<in> set s"
  then have "CHR '','' \<in> set (rev (trim_by space_runes s))"
    by (simp add: trim_by_without comma_is_no_space)
  then have "CHR '','' \<in> set (trim_by (map rev space_runes) (rev (trim_by space_runes s)))"
    by (rule trim_by_without [rotated]) (simp add: comma_is_no_space)
  then show ?thesis by (auto simp: blank_def trim_space_def)
qed

lemma split_list_column:
  assumes "\<forall>w \<in> set ws. clean_word w"
  shows "split_list (column ws) = sort_strings ws"
proof (cases ws)
  case Nil
  then show ?thesis by (simp add: column_def split_list_def blank_def sort_strings_def)
next
  case (Cons w vs)
  have pieces: "split_at (CHR '','') (column ws) = ws"
    unfolding column_def Cons by (rule split_at_join) (use assms Cons in \<open>auto simp: clean_word_def\<close>)
  have "\<not> blank (column ws)"
  proof (cases vs)
    case Nil
    then show ?thesis using assms Cons by (simp add: column_def blank_def clean_word_def)
  next
    case Cons': (Cons v us)
    show ?thesis by (rule comma_not_blank) (simp add: column_def Cons Cons')
  qed
  moreover have "map trim_space ws = ws" "filter (\<lambda>p. p \<noteq> []) ws = ws"
    using assms by (auto simp: clean_word_def intro: map_idI filter_True)
  ultimately show ?thesis by (simp add: split_list_def pieces)
qed

lemma set_sort_strings [simp]: "set (sort_strings xs) = set xs"
  by (simp add: sort_strings_def)

section \<open>The migrations\<close>

text \<open>What \<open>splitList\<close> answers can be stored again: its words are clean.\<close>

lemma strip_prefix_take: "strip_prefix ps s = None \<Longrightarrow> strip_prefix ps (take n s) = None"
proof (induction ps)
  case (Cons p ps)
  have "take (length p) s = p" if "take (length p) (take n s) = p"
  proof -
    have "length p \<le> n" using that by (metis length_take min.bounded_iff nle_le)
    then show ?thesis using that by (simp add: min_absorb1)
  qed
  with Cons show ?case by (auto split: if_splits)
qed simp

lemma trim_by_stops: "strip_prefix ps (trim_by ps s) = None"
proof (induction ps s rule: trim_by.induct)
  case (1 ps s)
  then show ?case by (subst trim_by.simps) (auto split: option.split)
qed

lemma strip_prefix_suffix: "strip_prefix ps s = Some t \<Longrightarrow> \<exists>k. t = drop k s"
  by (induction ps) (auto split: if_splits)

lemma trim_by_suffix: "\<exists>k. trim_by ps s = drop k s"
proof (induction ps s rule: trim_by.induct)
  case (1 ps s)
  show ?case
  proof (cases "strip_prefix ps s")
    case None
    then show ?thesis by (intro exI [of _ 0]) (simp add: trim_by_stop)
  next
    case (Some t)
    then obtain k j where "t = drop k s" "trim_by ps t = drop j t"
      using 1 strip_prefix_suffix [of ps s t] by blast
    with Some show ?thesis by (subst trim_by.simps) (auto intro: exI [of _ "k + j"] simp: add.commute)
  qed
qed

lemma trim_space_part: "\<exists>k n. trim_space s = take n (drop k s)"
proof -
  obtain k j where "trim_by space_runes s = drop k s"
    "trim_by (map rev space_runes) (rev (drop k s)) = drop j (rev (drop k s))"
    using trim_by_suffix [of space_runes s] trim_by_suffix [of "map rev space_runes" "rev (drop k s)" for k] by metis
  then have "trim_space s = take (length (drop k s) - j) (drop k s)"
    unfolding trim_space_def by (simp add: drop_rev)
  then show ?thesis by blast
qed

lemma trim_space_idem: "trim_space (trim_space s) = trim_space s"
proof -
  let ?l = "trim_by space_runes s"
  let ?r = "trim_by (map rev space_runes) (rev ?l)"
  obtain j where j: "?r = drop j (rev ?l)" using trim_by_suffix by blast
  then have "rev ?r = take (length ?l - j) ?l" by (simp add: drop_rev)
  then have "strip_prefix space_runes (rev ?r) = None"
    using strip_prefix_take [OF trim_by_stops] by simp
  then have 1: "trim_by space_runes (rev ?r) = rev ?r" by (rule trim_by_stop)
  have "trim_by (map rev space_runes) ?r = ?r" by (rule trim_by_stop [OF trim_by_stops])
  with 1 show ?thesis by (simp add: trim_space_def)
qed

lemma split_at_without: "w \<in> set (split_at c s) \<Longrightarrow> c \<notin> set w"
  by (induction c s arbitrary: w rule: split_at.induct) (auto split: if_splits list.splits)

lemma split_list_clean: "w \<in> set (split_list s) \<Longrightarrow> clean_word w"
proof -
  assume w: "w \<in> set (split_list s)"
  then obtain v where v: "v \<in> set (split_at (CHR '','') s)" "w = trim_space v" "w \<noteq> []"
    by (auto simp: split_list_def split: if_splits)
  obtain k n where "w = take n (drop k v)" using trim_space_part v(2) by blast
  then have "set w \<subseteq> set v" using set_take_subset set_drop_subset by (metis subset_trans)
  then show "clean_word w"
    using v split_at_without trim_space_idem by (auto simp: clean_word_def)
qed

definition plain_word :: "string \<Rightarrow> bool" where
  "plain_word w \<longleftrightarrow> w \<noteq> [] \<and> list_all (\<lambda>c. solid c \<and> c \<noteq> CHR '','') w"

lemma plain_word_clean: "plain_word w \<Longrightarrow> clean_word w"
proof -
  assume p: "plain_word w"
  then have "w \<noteq> []" "solid (hd w)" "solid (last w)" "CHR '','' \<notin> set w"
    by (auto simp: plain_word_def list_all_iff)
  then show ?thesis by (simp add: clean_word_def trim_space_solid)
qed

lemma skill_tables_plain:
  "list_all plain_word all_rights"
  "list_all (\<lambda>(k, n). plain_word n \<and> map_of retired_skill_names n = None) retired_skill_names"
  by code_simp+

text \<open>Every right a skill needs is one the console offers.\<close>

lemma rights_are_offered: "list_all (\<lambda>(k, rs). rs \<noteq> [] \<and> list_all (\<lambda>r. r \<in> set all_rights) rs) rights_for_skill"
  by code_simp

lemma needs_of_clean: "r \<in> set (needs_of k) \<Longrightarrow> clean_word r"
proof -
  assume r: "r \<in> set (needs_of k)"
  then obtain rs where "map_of rights_for_skill k = Some rs" "r \<in> set rs"
    by (cases "map_of rights_for_skill k") (auto simp: needs_of_def)
  then have "r \<in> set all_rights"
    using rights_are_offered map_of_SomeD [of rights_for_skill k rs] by (fastforce simp: list_all_iff)
  then have "plain_word r" using skill_tables_plain(1) by (simp add: list_all_iff)
  then show "clean_word r" by (rule plain_word_clean)
qed

lemma rights_for_clean: "r \<in> set (rights_for skills st) \<Longrightarrow> clean_word r"
proof -
  assume "r \<in> set (rights_for skills st)"
  then consider "r = ''figures-read''" | k where "r \<in> set (needs_of k)"
    by (auto simp: rights_for_def Let_def split: if_splits)
  then show "clean_word r"
  proof cases
    case 1
    have "plain_word ''figures-read''" by code_simp
    then show ?thesis by (simp add: 1 plain_word_clean)
  qed (rule needs_of_clean)
qed

text \<open>
  \<open>RightsFor\<close>: nothing for a suspended analyst, never a speaking right for a restricted one,
  otherwise the floor and what each skill needs, each once and in order.
\<close>

lemma rights_for_set:
  "set (rights_for skills st) =
     (if st = ''suspended'' then {}
      else (insert ''figures-read'' (\<Union>k \<in> set skills. set (needs_of k))) -
           (if st = ''restricted'' then set speaking_rights else {}))"
  by (auto simp: rights_for_def Let_def)

lemma new_skill_settled: "map_of retired_skill_names (new_skill k) = None"
proof (cases "map_of retired_skill_names k")
  case (Some n)
  then show ?thesis
    using skill_tables_plain(2) map_of_SomeD [OF Some] by (auto simp: new_skill_def list_all_iff)
qed (simp add: new_skill_def)

lemma new_skill_clean: "clean_word k \<Longrightarrow> clean_word (new_skill k)"
proof (cases "map_of retired_skill_names k")
  case (Some n)
  then show ?thesis
    using skill_tables_plain(2) map_of_SomeD [OF Some]
    by (auto simp: new_skill_def list_all_iff intro: plain_word_clean)
qed (simp add: new_skill_def)

lemma renamed_skills_read: "split_list (column (renamed_skills a)) = sort_strings (renamed_skills a)"
  by (rule split_list_column) (auto simp: renamed_skills_def dest: split_list_clean intro: new_skill_clean)

lemma topped_up_read: "set (split_list (column (topped_up_rights a))) = set (topped_up_rights a)"
proof -
  have "\<forall>w \<in> set (topped_up_rights a). clean_word w"
    by (auto simp: topped_up_rights_def dest: split_list_clean rights_for_clean)
  then show ?thesis by (simp add: split_list_column)
qed

text \<open>
  Renaming retired skills converges (a second run finds none), and of the rights it only adds:
  every right an analyst's column named is still named, and a new one is a right of the renamed
  skills in the analyst's own state, so a restricted analyst gains no speaking right.
\<close>

theorem rename_only_adds:
  assumes "names_unique s"
  shows "rename_retired_skills (snd (rename_retired_skills s)) = (Inr 0, snd (rename_retired_skills s)) \<and>
    (\<forall>a \<in> set (st_analysts s). \<exists>b \<in> set (st_analysts (snd (rename_retired_skills s))). an_name b = an_name a \<and>
      set (split_list (column (an_rights a))) \<subseteq> set (split_list (column (an_rights b))) \<and>
      (an_state a = ''restricted'' \<longrightarrow>
        set (split_list (column (an_rights b))) \<inter> set speaking_rights \<subseteq> set (split_list (column (an_rights a)))))"
proof -
  let ?new = "\<lambda>a. if holds_renamed a
      then a\<lparr>an_skills := renamed_skills a, an_rights := topped_up_rights a\<rparr> else a"
  let ?t = "snd (rename_retired_skills s)"
  have rows: "st_analysts ?t = map ?new (st_analysts s)" by (rule rename_rows [OF assms])
  have "\<not> holds_renamed (a\<lparr>an_skills := renamed_skills a, an_rights := topped_up_rights a\<rparr>)" for a
    by (auto simp: holds_renamed_def list_ex_iff renamed_skills_read)
       (auto simp: renamed_skills_def new_skill_settled)
  then have "\<not> holds_renamed (?new a)" for a by simp
  then have "filter holds_renamed (st_analysts ?t) = []"
    unfolding rows filter_empty_conv set_map by blast
  then have "rename_retired_skills ?t = (Inr 0, ?t)"
    by (subst rename_retired_skills_def) (simp add: Let_def)
  moreover have "\<forall>a \<in> set (st_analysts s). \<exists>b \<in> set (st_analysts ?t). an_name b = an_name a \<and>
      set (split_list (column (an_rights a))) \<subseteq> set (split_list (column (an_rights b))) \<and>
      (an_state a = ''restricted'' \<longrightarrow>
        set (split_list (column (an_rights b))) \<inter> set speaking_rights \<subseteq> set (split_list (column (an_rights a))))"
  proof
    fix a assume a: "a \<in> set (st_analysts s)"
    have "?new a \<in> set (st_analysts ?t)" unfolding rows using a by (simp only: set_map) (rule imageI)
    moreover have "set (topped_up_rights a) =
        set (split_list (column (an_rights a))) \<union> set (rights_for (renamed_skills a) (an_state a))"
      by (simp add: topped_up_rights_def)
    ultimately show "\<exists>b \<in> set (st_analysts ?t). an_name b = an_name a \<and>
      set (split_list (column (an_rights a))) \<subseteq> set (split_list (column (an_rights b))) \<and>
      (an_state a = ''restricted'' \<longrightarrow>
        set (split_list (column (an_rights b))) \<inter> set speaking_rights \<subseteq> set (split_list (column (an_rights a))))"
      by (intro bexI [of _ "?new a"]) (auto simp: topped_up_read rights_for_set)
  qed
  ultimately show ?thesis by (rule conjI)
qed

theorem rename_only_adds_witness:
  "rename_retired_skills (snd (rename_retired_skills demo_old_crew)) =
   (Inr 0, snd (rename_retired_skills demo_old_crew))"
  by (rule conjunct1 [OF rename_only_adds [OF demo_old_crew_unique]])

section \<open>The seeded crew\<close>

lemma crew_names: "length crew = 39" "distinct (map ag_name crew)"
  by code_simp+

lemma crew_skills: "list_all (\<lambda>a. list_all (\<lambda>k. k \<in> set (map fst rights_for_skill)) (ag_skills a)) crew"
  by code_simp

lemma crew_roles: "list_all (\<lambda>a. role_for roles_yaml (ag_name a) \<noteq> None) crew"
  by code_simp

lemma skill_has_rights: "k \<in> set (map fst rights_for_skill) \<Longrightarrow> needs_of k \<noteq> []"
proof -
  assume "k \<in> set (map fst rights_for_skill)"
  then obtain rs where m: "map_of rights_for_skill k = Some rs"
    by (metis map_of_eq_None_iff not_None_eq set_map)
  then have "rs \<noteq> []"
    using rights_are_offered map_of_SomeD [OF m] by (fastforce simp: list_all_iff)
  with m show ?thesis by (simp add: needs_of_def)
qed

lemma seeded_fields [simp]:
  "an_name (seeded owner ia) = ag_name (snd ia)" "an_skills (seeded owner ia) = ag_skills (snd ia)"
  "an_state (seeded owner ia) = ag_state (snd ia)"
  "an_rights (seeded owner ia) = rights_for (ag_skills (snd ia)) (ag_state (snd ia))"
  by (simp_all add: seeded_def split: prod.split)

text \<open>
  C38. A store with no roster is seeded with thirty-nine analysts of different names, each with a
  role on file and skills that all have rights; the suspended ones hold no right at all.
\<close>

theorem seeded_crew_is_on_file:
  assumes "st_analysts s = []"
  shows "fst (seed_roster owner s) = Inr 39 \<and> names_unique (snd (seed_roster owner s)) \<and>
    (\<forall>a \<in> set (st_analysts (snd (seed_roster owner s))).
       role_for roles_yaml (an_name a) \<noteq> None \<and> (\<forall>k \<in> set (an_skills a). needs_of k \<noteq> []) \<and>
       (an_state a = ''suspended'' \<longrightarrow> an_rights a = []))"
proof -
  let ?o = "if owner = [] then ''unclaimed'' else owner"
  have rows: "st_analysts (snd (seed_roster owner s)) = map (seeded ?o) (enumerate 0 crew)"
    using assms by (simp add: seed_roster_def)
  have "an_name \<circ> seeded ?o = ag_name \<circ> snd" by (intro ext) (simp only: comp_apply seeded_fields)
  then have "map an_name (map (seeded ?o) (enumerate 0 crew)) = map ag_name (map snd (enumerate 0 crew))"
    by (simp only: map_map)
  then have names: "map an_name (map (seeded ?o) (enumerate 0 crew)) = map ag_name crew"
    by (simp only: map_snd_enumerate)
  then have "names_unique (snd (seed_roster owner s))"
    unfolding names_unique_def rows using crew_names(2) by (simp only: names)
  moreover have "fst (seed_roster owner s) = Inr 39"
    using assms by (simp add: seed_roster_def crew_names(1))
  moreover have "role_for roles_yaml (an_name a) \<noteq> None \<and> (\<forall>k \<in> set (an_skills a). needs_of k \<noteq> []) \<and>
      (an_state a = ''suspended'' \<longrightarrow> an_rights a = [])" if a: "a \<in> set (st_analysts (snd (seed_roster owner s)))" for a
  proof -
    from a obtain ia where ia: "ia \<in> set (enumerate 0 crew)" "a = seeded ?o ia"
      unfolding rows by auto
    from ia(1) have "snd ia \<in> snd ` set (enumerate 0 crew)" by (rule imageI)
    then have "snd ia \<in> set (map snd (enumerate 0 crew))" by (simp only: set_map)
    then have c: "snd ia \<in> set crew" by (simp only: map_snd_enumerate)
    have "role_for roles_yaml (ag_name (snd ia)) \<noteq> None"
      using crew_roles c by (simp add: list_all_iff)
    moreover have "\<forall>k \<in> set (ag_skills (snd ia)). needs_of k \<noteq> []"
      using bspec [OF crew_skills [unfolded list_all_iff] c] skill_has_rights by blast
    ultimately show ?thesis by (simp add: ia(2) rights_for_def)
  qed
  ultimately show ?thesis by blast
qed

theorem seeded_crew_is_on_file_witness: "fst (seed_roster ''y.mercer'' empty_store) = Inr 39"
  by (rule conjunct1 [OF seeded_crew_is_on_file]) (simp add: empty_store_def)

lemma chargeback_cadence: "cadence_for ''chargeback'' = ''weekly, and the close pack monthly''"
  by code_simp

text \<open>
  The chargeback analyst is seeded with a cadence that is none of the console's, so a
  re-brief that leaves it as it stands is refused and changes nothing.
\<close>

theorem seeded_cadence_cannot_be_kept:
  assumes "get_analyst ''chargeback'' s = Some a" and "an_name b = ''chargeback''"
    and "an_cadence b = cadence_for ''chargeback''"
  shows "\<exists>e. rebrief b s = (Inl e, s)"
proof -
  have "an_cadence b \<notin> set cadences"
    unfolding assms(3) chargeback_cadence by (simp add: cadences_def)
  then show ?thesis
    using assms(1,2) by (simp add: rebrief_def op_run)
qed

theorem seeded_cadence_cannot_be_kept_witness:
  "\<exists>e. rebrief (demo_analyst\<lparr>an_name := ''chargeback'', an_cadence := cadence_for ''chargeback''\<rparr>)
     (empty_store\<lparr>st_analysts := [demo_analyst\<lparr>an_name := ''chargeback''\<rparr>]\<rparr>) =
   (Inl e, empty_store\<lparr>st_analysts := [demo_analyst\<lparr>an_name := ''chargeback''\<rparr>]\<rparr>)"
  by (rule seeded_cadence_cannot_be_kept) (simp_all add: get_analyst_def roster_def)

end
