(* ===== verification/Planning.thy ===== *)
theory Planning
  imports Supervise Mandate "HOL-Library.Product_Lexorder"
begin

text \<open>
  \<open>internal/crew/plan.go\<close>: the proposal for the next sprint. Five sources of work (open anomalies,
  blocked tasks, overdue cadence, returned deliverables, decision requests that wait) and the words
  of the sprint's goal, each routed by skill, desk, engine and what is left of an analyst's month.
  \<open>quote\<close> is \<open>strconv.Quote\<close>, which quotes one title in a reason; its table of printable runes is
  not written out. Of the words of a goal, lower-casing beyond ASCII is written for the two runes
  whose lower case is an ASCII letter; no other matches a skill, a desk or a name \<open>Hire\<close> accepts.
\<close>

section \<open>Proposed items\<close>

record proposal = plan_item +
  pp_why :: string
  pp_skill :: string

definition proposal_of :: "string \<Rightarrow> string \<Rightarrow> string \<Rightarrow> string \<Rightarrow> cents \<Rightarrow> string \<Rightarrow> string \<Rightarrow> proposal" where
  "proposal_of title goal assignee desk budget why skill =
     \<lparr>pi_title = title, pi_goal = goal, pi_assignee = assignee, pi_desk = desk, pi_budget = budget,
      pp_why = why, pp_skill = skill\<rparr>"

text \<open>What nobody can take goes to the supervisor, at no cost.\<close>

definition to_supervisor :: "string \<Rightarrow> string \<Rightarrow> string \<Rightarrow> proposal" where
  "to_supervisor title goal why = proposal_of title goal ''supervisor'' ''management'' 0 why []"

record proposed =
  pd_label :: string
  pd_start :: string
  pd_end :: string
  pd_goal :: string
  pd_items :: "proposal list"
  pd_budget :: cents
  pd_existing :: bool
  pd_typed :: string
  pd_unmatched :: bool

definition skill_anomaly_triage :: string where "skill_anomaly_triage = ''anomaly-triage''"

definition engine_by_class :: "(string \<times> string) list" where
  "engine_by_class =
     [(skill_anomaly_triage, ''openrouter''), (''variance-commentary'', ''openrouter''),
      (''decision-framing'', ''anthropic''), (''exec-reporting'', ''anthropic''),
      (''commitment-modelling'', ''anthropic'')]"

definition cadence_day_counts :: "(string \<times> int) list" where
  "cadence_day_counts = [(''daily'', 1), (''weekly'', 7), (''fortnightly'', 14), (''monthly'', 30)]"

section \<open>Routing\<close>

definition candidates_with_skill :: "analyst list \<Rightarrow> string \<Rightarrow> string \<Rightarrow> analyst list" where
  "candidates_with_skill staff skill desk =
     filter (\<lambda>a. an_state a = ''active'' \<and> (desk = [] \<or> an_desk a = desk) \<and> skill \<in> set (an_skills a)) staff"

definition find_analyst :: "analyst list \<Rightarrow> string \<Rightarrow> analyst option" where
  "find_analyst staff name = find (\<lambda>a. an_name a = name) staff"

definition headroom :: "(string \<Rightarrow> cents) \<Rightarrow> analyst \<Rightarrow> cents" where
  "headroom spent a = wrap64 (an_monthly a - spent (an_name a))"

definition prefers :: "string \<Rightarrow> analyst \<Rightarrow> bool" where
  "prefers class a \<longleftrightarrow> (case map_of engine_by_class class of None \<Rightarrow> True | Some e \<Rightarrow> an_engine a = e)"

text \<open>The order of the sort: the preferred engine first, then the most headroom, then the name.\<close>

definition rank_key :: "string \<Rightarrow> (string \<Rightarrow> cents) \<Rightarrow> analyst \<Rightarrow> bool \<times> int \<times> nat list" where
  "rank_key class spent a = (\<not> prefers class a, - headroom spent a, map byte (an_name a))"

definition skip_note :: "analyst \<Rightarrow> string" where
  "skip_note a = an_name a @ '' skipped: no headroom this month''"

definition choose_analyst :: "analyst list \<Rightarrow> string \<Rightarrow> (string \<Rightarrow> cents) \<Rightarrow> analyst option \<times> string" where
  "choose_analyst cs class spent =
     (if cs = [] then (None, ''nobody active holds '' @ class)
      else let skipped = map skip_note (filter (\<lambda>a. headroom spent a \<le> 0) cs);
               viable = filter (\<lambda>a. headroom spent a > 0) cs
           in if viable = [] then (None, join ''; '' skipped)
              else (Some (hd (sort_key (rank_key class spent) viable)), join ''; '' skipped))"

definition routed_item :: "string \<Rightarrow> string \<Rightarrow> string \<Rightarrow> analyst list \<Rightarrow> string \<Rightarrow> (string \<Rightarrow> cents) \<Rightarrow> proposal" where
  "routed_item title goal base cs class spent =
     (case choose_analyst cs class spent of (chosen, note) \<Rightarrow>
        let why = (if note \<noteq> [] then base @ ''; '' @ note else base)
        in case chosen of
             None \<Rightarrow> to_supervisor title goal why
           | Some a \<Rightarrow> proposal_of title goal (an_name a) (an_desk a) (an_per_task a) why class)"

section \<open>Source 1: open anomalies nobody has taken\<close>

definition triage_desk :: "string \<Rightarrow> string" where
  "triage_desk source =
     (if source \<in> {''aws'', ''gcp'', ''azure''} then ''triage-'' @ source
      else if source = ''ai'' then ''triage-ai''
      else if source = ''saas'' then ''saas-manager''
      else ''investigator-onprem'')"

definition unowned_anomalies :: "store \<Rightarrow> anomaly list" where
  "unowned_anomalies s =
     take 6 (sort_key (\<lambda>y. - \<bar>ay_excess y\<bar>) (filter (\<lambda>y. ay_state y = Open \<and> ay_handled_by y = []) (st_anomalies s)))"

definition anomaly_item :: "analyst list \<Rightarrow> (string \<Rightarrow> cents) \<Rightarrow> anomaly \<Rightarrow> proposal" where
  "anomaly_item staff spent y =
     (let title = ''Explain the '' @ ay_service y @ '' move on '' @ ay_day y;
          goal = cents_string (ay_excess y) @ '' against baseline on the '' @ ay_source y @ '' desk.'';
          why = ''anomaly '' @ ay_id y @ '' is open and unowned'';
          cs = candidates_with_skill staff skill_anomaly_triage (ay_source y);
          assignee = triage_desk (ay_source y)
      in if length cs \<le> 1 then
           proposal_of title goal assignee (ay_source y)
             (case find_analyst staff assignee of None \<Rightarrow> 1500 | Some a \<Rightarrow> an_per_task a) why skill_anomaly_triage
         else routed_item title goal why cs skill_anomaly_triage spent)"

definition propose_anomalies :: "analyst list \<Rightarrow> (string \<Rightarrow> cents) \<Rightarrow> store \<Rightarrow> proposal list" where
  "propose_anomalies staff spent s = map (anomaly_item staff spent) (unowned_anomalies s)"

section \<open>Source 2: blocked tasks\<close>

definition blocked_taken :: "store \<Rightarrow> task list" where
  "blocked_taken s = take 3 (tasks (no_filter\<lparr>tf_state := Some Blocked\<rparr>) s)"

definition blocked_item :: "task \<Rightarrow> proposal" where
  "blocked_item t =
     proposal_of (''Unblock: '' @ tk_title t) (tk_reason t) (coalesce (tk_assignee t)) (tk_desk t) 1000
       (''task '' @ append_int (tk_id t) @ '' has been blocked since '' @ tk_updated t) []"

definition propose_blocked :: "store \<Rightarrow> proposal list" where
  "propose_blocked s = map blocked_item (blocked_taken s)"

section \<open>Source 3: overdue cadence\<close>

text \<open>\<open>strings.Fields\<close>: the runs of bytes between white space.\<close>

function fields_from :: "string \<Rightarrow> string \<Rightarrow> string list" where
  "fields_from acc s =
     (case s of [] \<Rightarrow> (if acc = [] then [] else [acc])
      | c # t \<Rightarrow>
          (case strip_prefix space_runes s of
             Some r \<Rightarrow> (if acc = [] then fields_from [] r else acc # fields_from [] r)
           | None \<Rightarrow> fields_from (acc @ [c]) t))"
  by pat_completeness auto
termination
  by (relation "measure (length o snd)") (auto dest: strip_prefix_shorter)

declare fields_from.simps [simp del]

definition fields :: "string \<Rightarrow> string list" where
  "fields s = fields_from [] s"

definition first_clause :: "string \<Rightarrow> string" where
  "first_clause owes =
     (let c = trim_space (takeWhile (\<lambda>x. x \<noteq> CHR '';'') owes)
      in if c \<noteq> [] \<and> last c = CHR ''.'' then butlast c else c)"

text \<open>The first word of a cadence, without the commas after it.\<close>

definition cadence_word :: "string \<Rightarrow> string option" where
  "cadence_word cadence =
     (case fields cadence of [] \<Rightarrow> None
      | w # _ \<Rightarrow> Some (rev (dropWhile (\<lambda>c. c = CHR '','') (rev w))))"

definition cadence_days :: "string \<Rightarrow> int option" where
  "cadence_days word = (if word = ''on-request'' then None else map_of cadence_day_counts word)"

definition last_posted_date :: "string \<Rightarrow> store \<Rightarrow> string option" where
  "last_posted_date name s =
     (case max_text [ar_stamped a. a \<leftarrow> st_artifacts s, t \<leftarrow> st_tasks s,
             tk_id t = ar_task a \<and> tk_assignee t = Some name \<and> ar_state a = PostedDraft] of
        None \<Rightarrow> None
      | Some d \<Rightarrow> if d = [] then None else Some d)"

definition overdue :: "int \<Rightarrow> int \<Rightarrow> string option \<Rightarrow> bool" where
  "overdue base days posted =
     (case posted of None \<Rightarrow> True
      | Some d \<Rightarrow> (case parse_date (take 10 d) of None \<Rightarrow> True | Some n \<Rightarrow> n < base - days))"

definition cadence_item :: "(string \<Rightarrow> cents) \<Rightarrow> string \<Rightarrow> string option \<Rightarrow> analyst \<Rightarrow> proposal" where
  "cadence_item spent word posted a =
     (let (owes, mission) = (case role_for_desk (an_name a) (an_desk a) of
                               None \<Rightarrow> (an_mission a, an_mission a)
                             | Some r \<Rightarrow> (pr_owes r, pr_mission r));
          title = ''This sprint'' @ [CHR 0x27] @ ''s '' @ word @ '' work: '' @ first_clause owes;
          why = word @ '' cadence, last posted '' @ (case posted of None \<Rightarrow> ''never posted'' | Some d \<Rightarrow> take 10 d)
      in if headroom spent a \<le> 0 then to_supervisor title mission (why @ ''; '' @ skip_note a)
         else proposal_of title mission (an_name a) (an_desk a) (an_per_task a) why [])"

definition cadence_of :: "int \<Rightarrow> (string \<Rightarrow> cents) \<Rightarrow> store \<Rightarrow> analyst \<Rightarrow> proposal list" where
  "cadence_of base spent s a =
     (if an_state a \<noteq> ''active'' \<or> an_desk a \<in> set (map dh_desk (halts s)) then []
      else case cadence_word (an_cadence a) of None \<Rightarrow> []
      | Some word \<Rightarrow>
          (case cadence_days word of None \<Rightarrow> []
           | Some days \<Rightarrow>
               let posted = last_posted_date (an_name a) s
               in if overdue base days posted then [cadence_item spent word posted a] else []))"

definition halt_item :: "desk_halt \<Rightarrow> proposal" where
  "halt_item h =
     to_supervisor (''Cadence skipped: '' @ dh_desk h @ '' is halted'') (dh_reason h)
       (''data.halt on '' @ dh_desk h @ '' since '' @ dh_started h @ '': '' @ dh_reason h)"

definition cadence_due :: "analyst list \<Rightarrow> string \<Rightarrow> (string \<Rightarrow> cents) \<Rightarrow> store \<Rightarrow> proposal list" where
  "cadence_due staff start spent s =
     (case parse_date start of None \<Rightarrow> []
      | Some base \<Rightarrow> map halt_item (halts s) @ concat (map (cadence_of base spent s) staff))"

section \<open>Source 4: returned deliverables\<close>

definition returned_pairs :: "store \<Rightarrow> (artifact \<times> task) list" where
  "returned_pairs s =
     sort_key (\<lambda>(a, t). ar_id a) [(a, t). a \<leftarrow> st_artifacts s, t \<leftarrow> st_tasks s,
       tk_id t = ar_task a \<and> ar_state a = ReturnedDraft \<and> tk_state t \<noteq> Done]"

definition returned_item :: "(string \<Rightarrow> string) \<Rightarrow> analyst list \<Rightarrow> (string \<Rightarrow> cents) \<Rightarrow> artifact \<times> task \<Rightarrow> proposal" where
  "returned_item quote staff spent x = (case x of (r, t) \<Rightarrow>
     let title = ''Rework: '' @ tk_title t; goal = ar_reason r; who = coalesce (tk_assignee t);
         why = ''artifact '' @ append_int (ar_id r) @ '', '' @ quote (ar_title r) @ '', was returned for rework''
     in case find_analyst staff who of None \<Rightarrow> to_supervisor title goal why
        | Some a \<Rightarrow>
            if who = [] \<or> an_state a \<noteq> ''active'' then to_supervisor title goal why
            else if headroom spent a \<le> 0 then to_supervisor title goal (why @ ''; '' @ skip_note a)
            else proposal_of title goal (an_name a) (tk_desk t) (an_per_task a) why [])"

definition propose_returned :: "(string \<Rightarrow> string) \<Rightarrow> analyst list \<Rightarrow> (string \<Rightarrow> cents) \<Rightarrow> store \<Rightarrow> proposal list" where
  "propose_returned quote staff spent s = map (returned_item quote staff spent) (returned_pairs s)"

section \<open>Source 5: decision requests that wait\<close>

definition request_item :: "store \<Rightarrow> request \<Rightarrow> proposal list" where
  "request_item s r =
     (let n = length (carried_options_for (rq_sprint r) (rq_owner r) s)
      in if n = 0 then []
         else [to_supervisor (''Decision request for '' @ rq_owner r @ '': '' @ append_int (int n) @ '' option(s) waiting'') []
                 (''from '' @ sprint_label (rq_sprint r) s @ '', dated '' @ rq_lapses r)])"

definition propose_requests :: "store \<Rightarrow> proposal list" where
  "propose_requests s =
     concat (map (request_item s) (sort_key (\<lambda>r. (rq_sprint r, map byte (rq_owner r))) (st_requests s)))"

section \<open>The words of the goal\<close>

definition lower_rune :: "int option \<Rightarrow> string" where
  "lower_rune r =
     (let v = rune_value r in
      if 65 \<le> v \<and> v \<le> 90 then encode_rune (v + 32)
      else if v = 0x212A then ''k''
      else if v = 0x130 then ''i''
      else encode_rune v)"

definition lower_text :: "string \<Rightarrow> string" where
  "lower_text s = concat (map lower_rune (runes s))"

definition goal_cutset :: string where
  "goal_cutset = ''.,;:!?()'' @ [CHR 0x22, CHR 0x27]"

definition trim_set :: "string \<Rightarrow> string \<Rightarrow> string" where
  "trim_set cs s = rev (dropWhile (\<lambda>c. c \<in> set cs) (rev (dropWhile (\<lambda>c. c \<in> set cs) s)))"

definition goal_words :: "string \<Rightarrow> string list" where
  "goal_words goal = filter (\<lambda>w. w \<noteq> []) (map (trim_set goal_cutset) (fields (lower_text goal)))"

definition goal_desk :: "string list \<Rightarrow> string" where
  "goal_desk words = (case find (\<lambda>w. w \<in> set world_desks) words of None \<Rightarrow> [] | Some w \<Rightarrow> w)"

text \<open>The goal as a title: at most 120 runes.\<close>

definition goal_title :: "string \<Rightarrow> string" where
  "goal_title goal = concat (map (encode_rune \<circ> rune_value) (take 120 (runes goal)))"

definition segment_of :: "string \<Rightarrow> string" where
  "segment_of skill = takeWhile (\<lambda>c. c \<noteq> CHR ''-'') skill"

definition skill_first_segments :: "(string \<times> string list) list" where
  "skill_first_segments =
     (let hyphened = filter (\<lambda>k. CHR ''-'' \<in> set k) skill_pool
      in map (\<lambda>g. (g, filter (\<lambda>k. segment_of k = g) hyphened)) (first_seen (map segment_of hyphened)))"

definition strip_s :: "string \<Rightarrow> string" where
  "strip_s w = (if w \<noteq> [] \<and> last w = CHR ''s'' then butlast w else w)"

definition goal_segment_min_letters :: nat where "goal_segment_min_letters = 6"
definition goal_segment_excluded_filler :: string where "goal_segment_excluded_filler = ''sprint''"

definition resolve_first_segment :: "string \<Rightarrow> string option" where
  "resolve_first_segment word =
     (let w = strip_s word in
      if length w < goal_segment_min_letters \<or> w = goal_segment_excluded_filler then None
      else case find (\<lambda>(g, ks). strip_s g = w) skill_first_segments of
             Some (_, [k]) \<Rightarrow> Some k
           | _ \<Rightarrow> None)"

definition skill_goal_item :: "analyst list \<Rightarrow> string \<Rightarrow> string \<Rightarrow> string \<Rightarrow> (string \<Rightarrow> cents) \<Rightarrow> proposal" where
  "skill_goal_item staff goal skill desk spent =
     routed_item (goal_title goal) goal (''the sprint goal names '' @ skill)
       (candidates_with_skill staff skill desk) skill spent"

definition candidate_by_name :: "analyst list \<Rightarrow> string \<Rightarrow> analyst list" where
  "candidate_by_name staff name =
     (case find_analyst staff name of None \<Rightarrow> []
      | Some a \<Rightarrow> if an_state a \<noteq> ''active'' then [] else [a])"

definition name_goal_item :: "analyst list \<Rightarrow> string \<Rightarrow> string \<Rightarrow> (string \<Rightarrow> cents) \<Rightarrow> proposal" where
  "name_goal_item staff goal name spent =
     routed_item (goal_title goal) goal (''the sprint goal names '' @ name)
       (candidate_by_name staff name) name spent"

text \<open>What one word of the goal asks for: a skill by its name, an analyst, or a skill by its first segment.\<close>

datatype goal_match = AskSkill string | AskName string

definition match_word :: "analyst list \<Rightarrow> string \<Rightarrow> goal_match option" where
  "match_word staff w =
     (if w \<in> set skill_pool then Some (AskSkill w)
      else case find_analyst staff w of Some _ \<Rightarrow> Some (AskName w)
      | None \<Rightarrow> map_option AskSkill (resolve_first_segment w))"

fun goal_matches :: "analyst list \<Rightarrow> string set \<Rightarrow> string list \<Rightarrow> goal_match list" where
  "goal_matches staff seen [] = []"
| "goal_matches staff seen (w # ws) =
     (if w \<in> set world_desks \<or> w \<in> seen then goal_matches staff seen ws
      else case match_word staff w of None \<Rightarrow> goal_matches staff seen ws
      | Some m \<Rightarrow> m # goal_matches staff (insert w seen) ws)"

definition goal_item :: "analyst list \<Rightarrow> string \<Rightarrow> string \<Rightarrow> (string \<Rightarrow> cents) \<Rightarrow> goal_match \<Rightarrow> proposal" where
  "goal_item staff goal desk spent m =
     (case m of AskSkill k \<Rightarrow> skill_goal_item staff goal k desk spent
      | AskName n \<Rightarrow> name_goal_item staff goal n spent)"

text \<open>The items the goal adds, and whether it named nothing the console knows.\<close>

definition propose_goal :: "analyst list \<Rightarrow> string \<Rightarrow> (string \<Rightarrow> cents) \<Rightarrow> proposal list \<times> bool" where
  "propose_goal staff goal spent =
     (let words = goal_words goal; ms = goal_matches staff {} words
      in (map (goal_item staff goal (goal_desk words) spent) ms, words \<noteq> [] \<and> ms = []))"

section \<open>Propose\<close>

definition month_of :: "string \<Rightarrow> string" where
  "month_of start = (if length start \<ge> 7 then take 7 start else [])"

definition plan_items :: "(string \<Rightarrow> string) \<Rightarrow> string \<Rightarrow> string \<Rightarrow> store \<Rightarrow> proposal list" where
  "plan_items quote start goal s =
     (let staff = roster s; spent = spend_in_month (month_of start) s
      in propose_anomalies staff spent s @ propose_blocked s @ cadence_due staff start spent s @
         propose_returned quote staff spent s @ propose_requests s @ fst (propose_goal staff goal spent))"

definition propose :: "(string \<Rightarrow> string) \<Rightarrow> string \<Rightarrow> string \<Rightarrow> string \<Rightarrow> string \<Rightarrow> store \<Rightarrow> proposed" where
  "propose quote label start end' goal s =
     (let items = plan_items quote start goal s in
      \<lparr>pd_label = label, pd_start = start, pd_end = end',
       pd_goal = (if blank goal then ''Close what is open, and explain what is not.'' else goal),
       pd_items = items, pd_budget = cents_sum (map pi_budget items),
       pd_existing = list_ex (\<lambda>p. sp_label p = label) (st_sprints s), pd_typed = goal,
       pd_unmatched = snd (propose_goal (roster s) goal (spend_in_month (month_of start) s))\<rparr>)"

text \<open>The plan \<open>Approve\<close> is given reads the fields the board knows.\<close>

definition board_plan :: "proposed \<Rightarrow> plan" where
  "board_plan p =
     \<lparr>pl_label = pd_label p, pl_start = pd_start p, pl_end = pd_end p, pl_goal = pd_goal p,
      pl_items = map plan_item.truncate (pd_items p), pl_existing = pd_existing p\<rparr>"

section \<open>The choice among qualified analysts\<close>

lemma hd_sort_key:
  assumes "xs \<noteq> []"
  shows "hd (sort_key k xs) \<in> set xs" and "y \<in> set xs \<Longrightarrow> k (hd (sort_key k xs)) \<le> k y"
proof -
  obtain z zs where z: "sort_key k xs = z # zs"
    using assms by (metis length_sort length_0_conv neq_Nil_conv)
  have set: "set (z # zs) = set xs" by (metis z set_sort)
  have "sorted (map k (z # zs))" using sorted_sort_key [of k xs] by (simp only: z)
  then have "\<forall>y \<in> set (z # zs). k z \<le> k y" by auto
  with set z show "hd (sort_key k xs) \<in> set xs" "y \<in> set xs \<Longrightarrow> k (hd (sort_key k xs)) \<le> k y"
    by auto
qed

lemma choose_analyst_Some:
  assumes "choose_analyst cs class spent = (Some a, note)"
  shows "a \<in> set cs" and "headroom spent a > 0"
    and "b \<in> set cs \<Longrightarrow> headroom spent b > 0 \<Longrightarrow> rank_key class spent a \<le> rank_key class spent b"
proof -
  let ?v = "filter (\<lambda>a. headroom spent a > 0) cs"
  have v: "?v \<noteq> []" and a: "a = hd (sort_key (rank_key class spent) ?v)"
    using assms by (auto simp: choose_analyst_def Let_def split: if_splits)
  show "a \<in> set cs" "headroom spent a > 0"
    using hd_sort_key(1) [OF v, of "rank_key class spent"] unfolding a by auto
  show "rank_key class spent a \<le> rank_key class spent b" if "b \<in> set cs" "headroom spent b > 0"
    unfolding a by (rule hd_sort_key(2) [OF v]) (use that in simp)
qed

lemma choose_analyst_None:
  "choose_analyst cs class spent = (None, note) \<longleftrightarrow>
   (\<forall>a \<in> set cs. headroom spent a \<le> 0) \<and>
   note = (if cs = [] then ''nobody active holds '' @ class else join ''; '' (map skip_note cs))"
proof (cases "filter (\<lambda>a. headroom spent a > 0) cs = []")
  case True
  then have "\<forall>a \<in> set cs. headroom spent a \<le> 0" by (auto simp: filter_empty_conv)
  moreover from this have "filter (\<lambda>a. headroom spent a \<le> 0) cs = cs" by simp
  ultimately show ?thesis using True by (auto simp: choose_analyst_def Let_def)
next
  case False
  then have "cs \<noteq> []" "\<not> (\<forall>a \<in> set cs. headroom spent a \<le> 0)" by (auto simp: filter_empty_conv not_le)
  with False show ?thesis by (auto simp: choose_analyst_def Let_def)
qed

lemma rank_key_name: "rank_key class spent a = rank_key class spent b \<Longrightarrow> an_name a = an_name b"
proof -
  assume "rank_key class spent a = rank_key class spent b"
  then have "map byte (an_name a) = map byte (an_name b)" by (simp add: rank_key_def)
  then show ?thesis by (simp add: inj_map_eq_map [of byte] inj_def)
qed

text \<open>
  C31. The analyst chosen for a task has money left this month; no qualified analyst with money left
  is on the preferred engine while the chosen one is not, none on an equally preferred engine has
  more left; and the choice does not depend on the order the candidates are listed in.
\<close>

theorem routing_choice_is_best:
  assumes "choose_analyst cs class spent = (Some a, note)"
  shows "a \<in> set cs \<and> headroom spent a > 0 \<and>
    (\<forall>b \<in> set cs. headroom spent b > 0 \<longrightarrow>
       (prefers class b \<longrightarrow> prefers class a) \<and>
       (prefers class b = prefers class a \<longrightarrow> headroom spent b \<le> headroom spent a)) \<and>
    (\<forall>ds. mset ds = mset cs \<and> distinct (map an_name cs) \<longrightarrow> fst (choose_analyst ds class spent) = Some a)"
proof -
  note ch = choose_analyst_Some [OF assms]
  have best: "(prefers class b \<longrightarrow> prefers class a) \<and>
      (prefers class b = prefers class a \<longrightarrow> headroom spent b \<le> headroom spent a)"
    if "b \<in> set cs" "headroom spent b > 0" for b
    using ch(3) [OF that] by (auto simp: rank_key_def less_eq_prod_def)
  have same: "fst (choose_analyst ds class spent) = Some a"
    if m: "mset ds = mset cs" and d: "distinct (map an_name cs)" for ds
  proof (cases "choose_analyst ds class spent")
    case (Pair r note')
    have sets: "set ds = set cs" using m by (metis set_mset_mset)
    show ?thesis
    proof (cases r)
      case None
      then have "headroom spent a \<le> 0" using Pair ch(1) by (simp add: choose_analyst_None sets)
      with ch(2) show ?thesis by simp
    next
      case (Some a')
      note ch' = choose_analyst_Some [OF Pair [unfolded Some]]
      have "rank_key class spent a = rank_key class spent a'"
        using ch(3) [of a'] ch'(3) [of a] ch ch' by (simp add: sets antisym)
      then have "an_name a = an_name a'" by (rule rank_key_name)
      then have "a = a'" using d ch(1) ch'(1) by (auto simp: sets intro: distinct_key_eq)
      then show ?thesis by (simp add: Pair Some)
    qed
  qed
  show ?thesis using ch(1,2) best same by blast
qed

definition demo_cheap :: analyst where
  "demo_cheap = demo_analyst\<lparr>an_name := ''zed'', an_engine := ''openrouter'', an_monthly := 1000\<rparr>"

definition demo_strong :: analyst where
  "demo_strong = demo_analyst\<lparr>an_name := ''abe'', an_engine := ''anthropic'', an_monthly := 1000\<rparr>"

lemma demo_choice:
  "choose_analyst [demo_cheap, demo_strong] ''decision-framing'' (\<lambda>_. 0) = (Some demo_strong, [])"
  by (simp add: choose_analyst_def demo_cheap_def demo_strong_def headroom_def wrap64_def rank_key_def
      prefers_def engine_by_class_def skill_anomaly_triage_def less_eq_prod_def)

theorem routing_choice_is_best_witness:
  "demo_strong \<in> set [demo_cheap, demo_strong] \<and>
   fst (choose_analyst [demo_strong, demo_cheap] ''decision-framing'' (\<lambda>_. 0)) = Some demo_strong"
proof -
  have "mset [demo_strong, demo_cheap] = mset [demo_cheap, demo_strong]"
    "distinct (map an_name [demo_cheap, demo_strong])"
    by (simp_all add: demo_cheap_def demo_strong_def)
  then show ?thesis using routing_choice_is_best [OF demo_choice] by blast
qed

section \<open>What a proposal may cost\<close>

definition guarded :: "analyst list \<Rightarrow> (string \<Rightarrow> cents) \<Rightarrow> proposal \<Rightarrow> bool" where
  "guarded staff spent it \<longleftrightarrow>
     (pi_assignee it = ''supervisor'' \<and> pi_desk it = ''management'' \<and> pi_budget it = 0) \<or>
     (\<exists>a \<in> set staff. an_state a = ''active'' \<and> an_name a = pi_assignee it \<and>
        pi_budget it = an_per_task a \<and> headroom spent a > 0)"

lemma proposal_fields [simp]:
  "pi_assignee (proposal_of t g a d b w k) = a" "pi_desk (proposal_of t g a d b w k) = d"
  "pi_budget (proposal_of t g a d b w k) = b" "pp_skill (proposal_of t g a d b w k) = k"
  by (simp_all add: proposal_of_def)

lemma to_supervisor_guarded: "guarded staff spent (to_supervisor t g w)"
  by (simp add: guarded_def to_supervisor_def)

lemma to_analyst_guarded:
  "a \<in> set staff \<Longrightarrow> an_state a = ''active'' \<Longrightarrow> headroom spent a > 0 \<Longrightarrow>
   guarded staff spent (proposal_of t g (an_name a) d (an_per_task a) w k)"
  by (auto simp: guarded_def)

lemma routed_item_guarded:
  assumes "\<forall>a \<in> set cs. a \<in> set staff \<and> an_state a = ''active''"
  shows "guarded staff spent (routed_item t g w cs class spent)"
proof (cases "choose_analyst cs class spent")
  case (Pair r note')
  show ?thesis
  proof (cases r)
    case None
    then show ?thesis by (simp add: routed_item_def Pair to_supervisor_guarded)
  next
    case (Some a)
    note ch = choose_analyst_Some [OF Pair [unfolded Some]]
    show ?thesis
      unfolding routed_item_def Pair Some Let_def prod.case option.case
      by (rule to_analyst_guarded) (use assms ch in auto)
  qed
qed

lemma candidates_active:
  "\<forall>a \<in> set (candidates_with_skill staff skill desk). a \<in> set staff \<and> an_state a = ''active''"
  by (simp add: candidates_with_skill_def)

lemma find_analyst_SomeD: "find_analyst staff n = Some a \<Longrightarrow> a \<in> set staff \<and> an_name a = n"
  by (auto simp: find_analyst_def find_Some_iff)

lemma goal_item_guarded: "guarded staff spent (goal_item staff goal desk spent m)"
proof (cases m)
  case (AskSkill k)
  then show ?thesis
    by (simp add: goal_item_def skill_goal_item_def routed_item_guarded candidates_active)
next
  case (AskName n)
  have "\<forall>a \<in> set (candidate_by_name staff n). a \<in> set staff \<and> an_state a = ''active''"
  proof (cases "find_analyst staff n")
    case (Some a)
    with find_analyst_SomeD [OF Some] show ?thesis by (auto simp: candidate_by_name_def)
  qed (simp add: candidate_by_name_def)
  then show ?thesis by (simp add: AskName goal_item_def name_goal_item_def routed_item_guarded)
qed

lemma returned_item_guarded: "guarded staff spent (returned_item quote staff spent x)"
proof -
  obtain r t where x: "x = (r, t)" by (cases x)
  show ?thesis
  proof (cases "find_analyst staff (coalesce (tk_assignee t))")
    case None
    then show ?thesis by (simp add: returned_item_def x Let_def to_supervisor_guarded)
  next
    case (Some a)
    have "guarded staff spent (proposal_of p g (an_name a) d (an_per_task a) w k)"
      if "an_state a = ''active''" "headroom spent a > 0" for p g d w k
      using find_analyst_SomeD [OF Some] that by (intro to_analyst_guarded) auto
    with Some show ?thesis
      by (simp add: returned_item_def x Let_def to_supervisor_guarded not_le)
  qed
qed

lemma cadence_item_guarded:
  "a \<in> set staff \<Longrightarrow> an_state a = ''active'' \<Longrightarrow> guarded staff spent (cadence_item spent w posted a)"
  by (simp add: cadence_item_def Let_def to_supervisor_guarded to_analyst_guarded not_le split: prod.split)

lemma cadence_due_guarded:
  assumes "it \<in> set (cadence_due staff start spent s)"
  shows "guarded staff spent it"
proof (cases "parse_date start")
  case None
  with assms show ?thesis by (simp add: cadence_due_def)
next
  case (Some base)
  from assms consider h where "it = halt_item h" | a where "a \<in> set staff" "it \<in> set (cadence_of base spent s a)"
    by (auto simp: cadence_due_def Some)
  then show ?thesis
  proof cases
    case 1
    then show ?thesis by (simp add: halt_item_def to_supervisor_guarded)
  next
    case 2
    then show ?thesis
      by (auto simp: cadence_of_def Let_def intro: cadence_item_guarded split: if_splits option.splits)
  qed
qed

lemma request_item_guarded: "it \<in> set (request_item s r) \<Longrightarrow> guarded staff spent it"
  by (auto simp: request_item_def Let_def to_supervisor_guarded split: if_splits)

text \<open>
  C30. What an item of a proposal may cost. It goes to the supervisor at no cost, or to an active
  analyst with money left this month for that analyst's own per-task guard; the two exceptions are
  an anomaly on a desk with at most one qualified analyst, which goes to the desk's triage name, and
  the rework of a blocked task, which goes back to its assignee for 10.00.
\<close>

theorem proposal_is_guarded:
  assumes "it \<in> set (pd_items (propose quote label start end' goal s))"
  shows "guarded (roster s) (spend_in_month (month_of start) s) it \<or>
    (\<exists>y \<in> set (st_anomalies s). ay_state y = Open \<and> pi_assignee it = triage_desk (ay_source y) \<and>
       length (candidates_with_skill (roster s) skill_anomaly_triage (ay_source y)) \<le> 1) \<or>
    (\<exists>t \<in> set (st_tasks s). tk_state t = Blocked \<and> pi_assignee it = coalesce (tk_assignee t) \<and> pi_budget it = 1000)"
proof -
  let ?staff = "roster s" and ?spent = "spend_in_month (month_of start) s"
  from assms consider
      (anomaly) y where "y \<in> set (unowned_anomalies s)" "it = anomaly_item ?staff ?spent y"
    | (blocked) t where "t \<in> set (blocked_taken s)" "it = blocked_item t"
    | (rest) "guarded ?staff ?spent it"
    by (auto simp: propose_def plan_items_def Let_def propose_anomalies_def propose_blocked_def
        propose_returned_def propose_requests_def propose_goal_def
        intro: cadence_due_guarded returned_item_guarded request_item_guarded goal_item_guarded)
  then show ?thesis
  proof cases
    case anomaly
    have "y \<in> set (st_anomalies s)" "ay_state y = Open"
      using anomaly(1) by (auto simp: unowned_anomalies_def dest: in_set_takeD)
    moreover have "guarded ?staff ?spent it"
      if "\<not> length (candidates_with_skill ?staff skill_anomaly_triage (ay_source y)) \<le> 1"
      using that by (simp add: anomaly(2) anomaly_item_def Let_def routed_item_guarded candidates_active)
    moreover have "pi_assignee it = triage_desk (ay_source y)"
      if "length (candidates_with_skill ?staff skill_anomaly_triage (ay_source y)) \<le> 1"
      using that by (simp add: anomaly(2) anomaly_item_def Let_def)
    ultimately show ?thesis by blast
  next
    case blocked
    then have "t \<in> set (st_tasks s)" "tk_state t = Blocked"
      by (auto simp: blocked_taken_def task_matches_def no_filter_def dest: in_set_takeD)
    then show ?thesis by (auto simp: blocked(2) blocked_item_def)
  qed (rule disjI1)
qed

section \<open>Concrete plans\<close>

definition demo_move :: anomaly where
  "demo_move = \<lparr>ay_id = ''A-7'', ay_source = ''aws'', ay_team = ''web'', ay_service = ''EC2'',
     ay_day = ''2026-10-01'', ay_direction = ''up'', ay_amount = 9000, ay_baseline = 1000, ay_excess = 8000,
     ay_z = 5, ay_rule = ''spike'', ay_rule_version = ''1'', ay_driver = [], ay_caused_by = [],
     ay_caused_by_kind = [], ay_handled_by = [], ay_state = Open, ay_reason = [], ay_detected_at = [],
     ay_closed_at = []\<rparr>"

text \<open>The aws desk is halted and its only triage analyst suspended.\<close>

definition demo_halted_desk :: store where
  "demo_halted_desk = empty_store\<lparr>
     st_anomalies := [demo_move],
     st_analysts := [demo_analyst\<lparr>an_name := ''triage-aws'', an_desk := ''aws'', an_state := ''suspended'',
       an_skills := [skill_anomaly_triage], an_per_task := 1200\<rparr>],
     st_halts := [\<lparr>dh_desk = ''aws'', dh_reason = ''feed stale'', dh_started = ''2026-09-20'',
       dh_applied_by = ''supervisor'', dh_owner = ''t.langley'', dh_suspended = [''triage-aws'']\<rparr>]\<rparr>"

text \<open>
  Source 1 does not ask whether the analyst it names may work: an open anomaly among the six
  largest, on a desk where no active analyst holds the triage skill, becomes an item for the desk's
  triage name at that analyst's per-task guard, whatever the analyst's state, what is left of its
  month, or a halt on the desk.
\<close>

theorem suspended_triage_still_routed:
  assumes "y \<in> set (unowned_anomalies s)"
    and "candidates_with_skill (roster s) skill_anomaly_triage (ay_source y) = []"
    and "find_analyst (roster s) (triage_desk (ay_source y)) = Some a"
  shows "\<exists>it \<in> set (pd_items (propose quote label start end' goal s)).
    pi_assignee it = an_name a \<and> pi_budget it = an_per_task a"
proof -
  let ?it = "anomaly_item (roster s) (spend_in_month (month_of start) s) y"
  have "?it \<in> set (pd_items (propose quote label start end' goal s))"
    using assms(1) by (auto simp: propose_def plan_items_def Let_def propose_anomalies_def)
  moreover have "pi_assignee ?it = an_name a" "pi_budget ?it = an_per_task a"
    using assms(2,3) find_analyst_SomeD [OF assms(3)] by (simp_all add: anomaly_item_def Let_def)
  ultimately show ?thesis by blast
qed

theorem suspended_triage_still_routed_witness:
  "\<exists>it \<in> set (pd_items (propose id ''W41'' ''2026-10-05'' ''2026-10-11'' [] demo_halted_desk)).
     pi_assignee it = ''triage-aws'' \<and> pi_budget it = 1200"
proof -
  let ?a = "demo_analyst\<lparr>an_name := ''triage-aws'', an_desk := ''aws'', an_state := ''suspended'',
       an_skills := [skill_anomaly_triage], an_per_task := 1200\<rparr>"
  have r: "roster demo_halted_desk = [?a]" by (simp add: roster_def demo_halted_desk_def)
  have y: "demo_move \<in> set (unowned_anomalies demo_halted_desk)"
    by (simp add: unowned_anomalies_def demo_halted_desk_def demo_move_def)
  have c: "candidates_with_skill (roster demo_halted_desk) skill_anomaly_triage (ay_source demo_move) = []"
    unfolding r by (simp add: candidates_with_skill_def)
  have f: "find_analyst (roster demo_halted_desk) (triage_desk (ay_source demo_move)) = Some ?a"
    unfolding r by (simp add: find_analyst_def triage_desk_def demo_move_def)
  show ?thesis using suspended_triage_still_routed [OF y c f] by simp
qed

theorem proposal_is_guarded_witness:
  "\<exists>it \<in> set (pd_items (propose id ''W41'' ''2026-10-05'' ''2026-10-11'' [] demo_halted_desk)).
     guarded (roster demo_halted_desk) (spend_in_month ''2026-10'' demo_halted_desk) it \<or>
     pi_assignee it = ''triage-aws''"
proof -
  let ?P = "propose id ''W41'' ''2026-10-05'' ''2026-10-11'' [] demo_halted_desk"
  have it: "anomaly_item (roster demo_halted_desk) (spend_in_month (month_of ''2026-10-05'') demo_halted_desk) demo_move
      \<in> set (pd_items ?P)"
    by (simp add: propose_def plan_items_def Let_def propose_anomalies_def unowned_anomalies_def
        demo_halted_desk_def demo_move_def)
  have m: "month_of ''2026-10-05'' = ''2026-10''" by (simp add: month_of_def)
  have a: "y \<in> set (st_anomalies demo_halted_desk) \<Longrightarrow> triage_desk (ay_source y) = ''triage-aws''" for y
    by (simp add: demo_halted_desk_def demo_move_def triage_desk_def)
  have t: "t \<notin> set (st_tasks demo_halted_desk)" for t by (simp add: demo_halted_desk_def empty_store_def)
  show ?thesis using proposal_is_guarded [OF it] a t it unfolding m by auto
qed

text \<open>
  Of the blocked tasks a plan takes up at most three, and those are the newest: a blocked task
  left out of the plan has no larger number than one taken up.
\<close>

theorem newest_blocked_are_unblocked:
  assumes "t \<in> set (st_tasks s)" and "tk_state t = Blocked" and "t \<notin> set (blocked_taken s)"
  shows "length (propose_blocked s) = 3 \<and> (\<forall>u \<in> set (blocked_taken s). tk_id t \<le> tk_id u)"
proof -
  let ?b = "tasks (no_filter\<lparr>tf_state := Some Blocked\<rparr>) s"
  let ?xs = "filter (task_matches (no_filter\<lparr>tf_state := Some Blocked\<rparr>)) (st_tasks s)"
  have t: "t \<in> set ?b" using assms(1,2) by (simp add: task_matches_def no_filter_def)
  have split: "?b = blocked_taken s @ drop 3 ?b" by (simp add: blocked_taken_def)
  then have rest: "t \<in> set (drop 3 ?b)" using t assms(3) by (metis Un_iff set_append)
  have "3 < length ?b" using rest by (metis drop_all empty_iff list.set(1) not_le)
  then have "length (propose_blocked s) = 3" by (simp add: propose_blocked_def blocked_taken_def)
  moreover have "sorted (rev (map tk_id ?b))"
    by (simp add: tasks_def rev_map)
  then have "sorted_wrt (\<ge>) (map tk_id (blocked_taken s @ drop 3 ?b))"
    unfolding split [symmetric] by (simp add: sorted_wrt_rev)
  then have "tk_id t \<le> tk_id u" if "u \<in> set (blocked_taken s)" for u
    using that rest by (auto simp: sorted_wrt_append)
  ultimately show ?thesis by blast
qed

definition demo_blocked :: store where
  "demo_blocked = empty_store\<lparr>st_tasks := map (\<lambda>i. demo_task\<lparr>tk_id := i, tk_state := Blocked\<rparr>) [1, 2, 3, 4]\<rparr>"

theorem newest_blocked_are_unblocked_witness:
  "length (propose_blocked demo_blocked) = 3 \<and>
   (\<forall>u \<in> set (blocked_taken demo_blocked). tk_id (demo_task\<lparr>tk_id := 1, tk_state := Blocked\<rparr>) \<le> tk_id u)"
  by (rule newest_blocked_are_unblocked)
     (simp_all add: demo_blocked_def blocked_taken_def tasks_def task_matches_def no_filter_def demo_task_def)

end
