(* ===== verification/Replan.thy ===== *)
theory Replan
  imports Planning
begin

text \<open>
  The supervisor's one planning call: \<open>internal/crew/plan_ask.go\<close> (the model's answer, parsed and
  checked against the deterministic plan and the roster), \<open>plan_ledger.go\<close> (what the call cost) and,
  of \<open>internal/web/planning.go\<close>, the plan that is rebuilt from an accepted answer.
\<close>

section \<open>The plan block\<close>

definition plan_block_max_bytes :: int where "plan_block_max_bytes = 65536"
definition plan_why_max_bytes :: nat where "plan_why_max_bytes = 240"

definition open_plan_fence :: "string \<Rightarrow> string option" where
  "open_plan_fence s =
     (if starts_with (fence @ ''plan'') s then
        (let r = dropWhile (\<lambda>c. c = CHR '' '' \<or> c = CHR 0x09) (drop 7 s);
             r' = (case r of c # t \<Rightarrow> if c = CHR 0x0D then t else r | [] \<Rightarrow> r)
         in case r' of c # t \<Rightarrow> if c = CHR 0x0A then until_fence t else None | [] \<Rightarrow> None)
      else None)"

fun find_plan :: "string \<Rightarrow> string option" where
  "find_plan [] = None"
| "find_plan (c # s) = (case open_plan_fence (c # s) of Some b \<Rightarrow> Some b | None \<Rightarrow> find_plan s)"

record raw_item =
  ri_ref :: string
  ri_assignee :: string
  ri_budget :: string
  ri_why :: string

definition empty_item :: raw_item where
  "empty_item = \<lparr>ri_ref = [], ri_assignee = [], ri_budget = [], ri_why = []\<rparr>"

definition set_item_field :: "string \<Rightarrow> string \<Rightarrow> jtext \<Rightarrow> raw_item \<Rightarrow> raw_item option" where
  "set_item_field k raw v r =
     (if field_is ''ref'' k then map_option (\<lambda>x. r\<lparr>ri_ref := x\<rparr>) (into_number v (ri_ref r))
      else if field_is ''assignee'' k then map_option (\<lambda>x. r\<lparr>ri_assignee := x\<rparr>) (into_string v (ri_assignee r))
      else if field_is ''budget_cents'' k then map_option (\<lambda>x. r\<lparr>ri_budget := x\<rparr>) (into_number v (ri_budget r))
      else if field_is ''why'' k then map_option (\<lambda>x. r\<lparr>ri_why := x\<rparr>) (into_string v (ri_why r))
      else Some r)"

definition set_items_field :: "string \<Rightarrow> string \<Rightarrow> jtext \<Rightarrow> raw_item list \<Rightarrow> raw_item list option" where
  "set_items_field k raw v rs =
     (if field_is ''items'' k then
        (case v of TNull \<Rightarrow> Some []
         | TArr vs \<Rightarrow> those (map (decode_struct set_item_field empty_item) vs)
         | _ \<Rightarrow> None)
      else Some rs)"

definition decode_items :: "string \<Rightarrow> raw_item list option" where
  "decode_items s = (case parse_json s of None \<Rightarrow> None | Some v \<Rightarrow> decode_struct set_items_field [] v)"

section \<open>ValidatePlanAnswer\<close>

record plan_answer =
  pw_ref :: nat
  pw_assignee :: string
  pw_budget :: cents
  pw_why :: string

datatype plan_fault =
  PlanTooLong nat | PlanNotJSON | TooManyItems nat nat | NoValidRef nat | RefTwice nat
| NoWhy nat | WhyTooLong nat nat | NotReroutable nat string | NotOnRoster nat string
| NotActive nat string | LacksSkill nat string string | OffDesk nat string string
| NoHeadroom nat string | BudgetNotCents nat | BudgetNegative nat | OverGuard nat cents cents
| OverItem nat cents cents

datatype plan_reading = NoPlanBlock | PlanRefused plan_fault | PlanAccepted "plan_answer list"

text \<open>The roster by name: of two rows with one name the later counts.\<close>

definition by_name :: "analyst list \<Rightarrow> string \<Rightarrow> analyst option" where
  "by_name staff n = find (\<lambda>a. an_name a = n) (rev staff)"

text \<open>A whole number from 1 to the number of items of the plan.\<close>

definition ref_of :: "nat \<Rightarrow> raw_item \<Rightarrow> nat option" where
  "ref_of n r =
     (case parse_int64 (ri_ref r) of None \<Rightarrow> None
      | Some v \<Rightarrow> if v < 1 \<or> v > int n then None else Some (nat v))"

definition assignee_for :: "raw_item \<Rightarrow> proposal \<Rightarrow> string" where
  "assignee_for r det = (let a = trim_space (ri_assignee r) in if a = [] then pi_assignee det else a)"

text \<open>A changed assignee comes from the pool the item was routed in.\<close>

definition reroute_fault :: "nat \<Rightarrow> analyst list \<Rightarrow> proposal \<Rightarrow> string \<Rightarrow> plan_fault option" where
  "reroute_fault i staff det who =
     (if who = pi_assignee det then None
      else if pp_skill det = [] \<or> pp_skill det \<notin> set skill_pool then Some (NotReroutable i (pi_assignee det))
      else case by_name staff who of None \<Rightarrow> Some (NotOnRoster i who)
      | Some a \<Rightarrow>
          if an_state a \<noteq> ''active'' then Some (NotActive i who)
          else if pp_skill det \<notin> set (an_skills a) then Some (LacksSkill i who (pp_skill det))
          else if pi_desk det \<noteq> [] \<and> an_desk a \<noteq> pi_desk det then Some (OffDesk i who (pi_desk det))
          else None)"

definition budget_for :: "nat \<Rightarrow> raw_item \<Rightarrow> proposal \<Rightarrow> analyst \<Rightarrow> plan_fault + cents" where
  "budget_for i r det a =
     (case (if ri_budget r = [] then Some (pi_budget det) else parse_int64 (ri_budget r)) of
        None \<Rightarrow> Inl (BudgetNotCents i)
      | Some b \<Rightarrow>
          if b < 0 then Inl (BudgetNegative i)
          else if b > an_per_task a then Inl (OverGuard i b (an_per_task a))
          else if b > pi_budget det then Inl (OverItem i b (pi_budget det))
          else Inr b)"

definition answer_item :: "nat \<Rightarrow> proposal list \<Rightarrow> analyst list \<Rightarrow> (string \<Rightarrow> cents) \<Rightarrow> nat set \<Rightarrow> raw_item \<Rightarrow>
    plan_fault + plan_answer" where
  "answer_item i items staff spent seen r =
     (case ref_of (length items) r of None \<Rightarrow> Inl (NoValidRef i)
      | Some ref \<Rightarrow>
          if ref \<in> seen then Inl (RefTwice ref)
          else if blank (ri_why r) then Inl (NoWhy i)
          else if length (ri_why r) > plan_why_max_bytes then Inl (WhyTooLong i (length (ri_why r)))
          else
            let det = items ! (ref - 1); who = assignee_for r det
            in case reroute_fault i staff det who of Some e \<Rightarrow> Inl e
            | None \<Rightarrow>
                (case by_name staff who of None \<Rightarrow> Inl (NotOnRoster i who)
                 | Some a \<Rightarrow>
                     if headroom spent a \<le> 0 then Inl (NoHeadroom i who)
                     else case budget_for i r det a of Inl e \<Rightarrow> Inl e
                     | Inr b \<Rightarrow> Inr \<lparr>pw_ref = ref, pw_assignee = who, pw_budget = b, pw_why = ri_why r\<rparr>))"

fun answer_items :: "nat \<Rightarrow> proposal list \<Rightarrow> analyst list \<Rightarrow> (string \<Rightarrow> cents) \<Rightarrow> nat set \<Rightarrow> raw_item list \<Rightarrow>
    plan_fault + plan_answer list" where
  "answer_items i items staff spent seen [] = Inr []"
| "answer_items i items staff spent seen (r # rs) =
     (case answer_item i items staff spent seen r of Inl e \<Rightarrow> Inl e
      | Inr x \<Rightarrow>
          (case answer_items (Suc i) items staff spent (insert (pw_ref x) seen) rs of
             Inl e \<Rightarrow> Inl e | Inr xs \<Rightarrow> Inr (x # xs)))"

definition validate_plan_answer :: "string \<Rightarrow> proposed \<Rightarrow> analyst list \<Rightarrow> (string \<Rightarrow> cents) \<Rightarrow> plan_reading" where
  "validate_plan_answer body det staff spent =
     (case find_plan body of None \<Rightarrow> NoPlanBlock
      | Some raw \<Rightarrow>
          if int (length raw) > plan_block_max_bytes then PlanRefused (PlanTooLong (length raw))
          else case decode_items raw of None \<Rightarrow> PlanRefused PlanNotJSON
          | Some rs \<Rightarrow>
              if length rs > length (pd_items det) then PlanRefused (TooManyItems (length rs) (length (pd_items det)))
              else case answer_items 1 (pd_items det) staff spent {} rs of
                     Inl e \<Rightarrow> PlanRefused e | Inr xs \<Rightarrow> PlanAccepted xs)"

section \<open>The plan rebuilt from an accepted answer\<close>

definition answered_item :: "proposal list \<Rightarrow> plan_answer \<Rightarrow> proposal" where
  "answered_item items x =
     (let d = items ! (pw_ref x - 1)
      in proposal_of (pi_title d) (pi_goal d) (pw_assignee x) (pi_desk d) (pw_budget x) (pw_why x) (pp_skill d))"

definition model_plan_from :: "proposed \<Rightarrow> plan_answer list \<Rightarrow> proposed" where
  "model_plan_from det xs =
     (let items = map (answered_item (pd_items det)) xs
      in \<lparr>pd_label = pd_label det, pd_start = pd_start det, pd_end = pd_end det, pd_goal = pd_goal det,
          pd_items = items, pd_budget = cents_sum (map pi_budget items), pd_existing = pd_existing det,
          pd_typed = pd_typed det, pd_unmatched = False\<rparr>)"

section \<open>What the call cost\<close>

definition cents_up :: "int \<Rightarrow> cents" where
  "cents_up micros = wrap64 (micros + 9999) sdiv 10000"

definition settle_plan_ask :: "string \<Rightarrow> string \<Rightarrow> string \<Rightarrow> int \<Rightarrow> string \<Rightarrow> string \<Rightarrow> cents op" where
  "settle_plan_ask label month who micros outcome reason =
     andthen (exec (\<lambda>s. s\<lparr>st_plan_asks := st_plan_asks s @
       [\<lparr>pa_label = label, pa_month = month, pa_analyst = who, pa_micros = micros, pa_cents = cents_up micros,
         pa_outcome = outcome, pa_reason = reason, pa_created = sql_now s\<rparr>]\<rparr>)) (\<lambda>_.
     ok (cents_up micros))"

section \<open>What an accepted answer may change\<close>

lemma by_name_SomeD: "by_name staff n = Some a \<Longrightarrow> a \<in> set staff \<and> an_name a = n"
proof -
  assume "by_name staff n = Some a"
  then obtain i where "i < length (rev staff)" "rev staff ! i = a" "an_name a = n"
    unfolding by_name_def find_Some_iff by blast
  then show ?thesis using nth_mem [of i "rev staff"] by simp
qed

definition answer_ok_for :: "proposal list \<Rightarrow> analyst list \<Rightarrow> (string \<Rightarrow> cents) \<Rightarrow> plan_answer \<Rightarrow> bool" where
  "answer_ok_for items staff spent x \<longleftrightarrow>
     1 \<le> pw_ref x \<and> pw_ref x \<le> length items \<and> \<not> blank (pw_why x) \<and>
     (let det = items ! (pw_ref x - 1) in
        0 \<le> pw_budget x \<and> pw_budget x \<le> pi_budget det \<and>
        (\<exists>a \<in> set staff. an_name a = pw_assignee x \<and> pw_budget x \<le> an_per_task a \<and> headroom spent a > 0 \<and>
           (pw_assignee x \<noteq> pi_assignee det \<longrightarrow>
              an_state a = ''active'' \<and> pp_skill det \<in> set (an_skills a) \<and>
              (pi_desk det \<noteq> [] \<longrightarrow> an_desk a = pi_desk det))))"

lemma ref_of_SomeD: "ref_of n r = Some k \<Longrightarrow> 1 \<le> k \<and> k \<le> n"
  by (auto simp: ref_of_def split: option.splits if_splits)

lemma budget_for_InrD:
  "budget_for i r det a = Inr b \<Longrightarrow> 0 \<le> b \<and> b \<le> an_per_task a \<and> b \<le> pi_budget det"
  by (auto simp: budget_for_def not_less split: option.splits if_splits)

lemma reroute_fault_NoneD:
  "reroute_fault i staff det who = None \<Longrightarrow> by_name staff who = Some a \<Longrightarrow> who \<noteq> pi_assignee det \<Longrightarrow>
   an_state a = ''active'' \<and> pp_skill det \<in> set (an_skills a) \<and> (pi_desk det \<noteq> [] \<longrightarrow> an_desk a = pi_desk det)"
  by (auto simp: reroute_fault_def split: if_splits)

lemma answer_item_InrD:
  assumes "answer_item i items staff spent seen r = Inr x"
  shows "answer_ok_for items staff spent x \<and> pw_ref x \<notin> seen"
proof -
  from assms obtain ref where ref: "ref_of (length items) r = Some ref"
    by (cases "ref_of (length items) r") (auto simp: answer_item_def)
  let ?det = "items ! (ref - 1)"
  let ?who = "assignee_for r ?det"
  from assms ref have why: "ref \<notin> seen" "\<not> blank (ri_why r)"
    and re: "reroute_fault i staff ?det ?who = None"
    by (auto simp: answer_item_def Let_def split: if_splits option.splits)
  from assms ref why re obtain a where a: "by_name staff ?who = Some a" "headroom spent a > 0"
    by (auto simp: answer_item_def Let_def not_le split: if_splits option.splits)
  from assms ref why re a obtain b where b: "budget_for i r ?det a = Inr b"
    and x: "x = \<lparr>pw_ref = ref, pw_assignee = ?who, pw_budget = b, pw_why = ri_why r\<rparr>"
    by (auto simp: answer_item_def Let_def split: if_splits sum.splits)
  show ?thesis
    using ref_of_SomeD [OF ref] why a budget_for_InrD [OF b] by_name_SomeD [OF a(1)] reroute_fault_NoneD [OF re a(1)]
    by (auto simp: answer_ok_for_def Let_def x)
qed

lemma answer_items_InrD:
  "answer_items i items staff spent seen rs = Inr xs \<Longrightarrow>
   (\<forall>x \<in> set xs. answer_ok_for items staff spent x) \<and> distinct (map pw_ref xs) \<and> pw_ref ` set xs \<inter> seen = {}"
proof (induction rs arbitrary: i seen xs)
  case (Cons r rs)
  then obtain x ys where x: "answer_item i items staff spent seen r = Inr x"
    and ys: "answer_items (Suc i) items staff spent (insert (pw_ref x) seen) rs = Inr ys" "xs = x # ys"
    by (auto split: sum.splits)
  from Cons.IH [OF ys(1)] answer_item_InrD [OF x] show ?case by (auto simp: ys(2))
qed simp

lemma validate_accepted:
  assumes "validate_plan_answer body det staff spent = PlanAccepted xs"
  shows "(\<forall>x \<in> set xs. answer_ok_for (pd_items det) staff spent x) \<and> distinct (map pw_ref xs)"
proof -
  from assms obtain rs where "answer_items 1 (pd_items det) staff spent {} rs = Inr xs"
    by (auto simp: validate_plan_answer_def split: option.splits if_splits sum.splits)
  from answer_items_InrD [OF this] show ?thesis by blast
qed

text \<open>A sum over different positions of a list of amounts, none negative, is at most the whole.\<close>

lemma sum_at_positions:
  fixes vs :: "int list"
  assumes "distinct ks" and "\<forall>k \<in> set ks. k < length vs" and "\<forall>v \<in> set vs. 0 \<le> v"
  shows "sum_list (map (\<lambda>k. vs ! k) ks) \<le> sum_list vs"
proof -
  have "sum_list (map (\<lambda>k. vs ! k) ks) = (\<Sum>k \<in> set ks. vs ! k)"
    using assms(1) by (simp add: sum_list_distinct_conv_sum_set)
  also have "\<dots> \<le> (\<Sum>k \<in> {..<length vs}. vs ! k)"
    by (rule sum_mono2) (use assms(2,3) in \<open>auto\<close>)
  also have "\<dots> = sum_list vs" by (simp add: sum_list_sum_nth atLeast0LessThan)
  finally show ?thesis .
qed

text \<open>
  C29. The model's plan only redistributes. Of an accepted answer every item replaces another item
  of the deterministic plan, keeps its title, goal and desk, goes to somebody on the roster with
  money left this month (a changed assignee is active, holds the item's skill and sits on its desk),
  and costs no more than that item and no more than the assignee's per-task guard; so the plan as a
  whole costs at most what the deterministic plan did.
\<close>

theorem model_plan_only_redistributes:
  assumes "validate_plan_answer body det staff spent = PlanAccepted xs"
    and "\<forall>it \<in> set (pd_items det). 0 \<le> pi_budget it"
  shows "(\<forall>x \<in> set xs. answer_ok_for (pd_items det) staff spent x) \<and> distinct (map pw_ref xs) \<and>
    (\<forall>it \<in> set (pd_items (model_plan_from det xs)). \<exists>d \<in> set (pd_items det).
       pi_title it = pi_title d \<and> pi_goal it = pi_goal d \<and> pi_desk it = pi_desk d \<and>
       0 \<le> pi_budget it \<and> pi_budget it \<le> pi_budget d) \<and>
    sum_list (map pi_budget (pd_items (model_plan_from det xs))) \<le> sum_list (map pi_budget (pd_items det))"
proof -
  note acc = validate_accepted [OF assms(1)]
  let ?vs = "map pi_budget (pd_items det)" and ?ks = "map (\<lambda>x. pw_ref x - 1) xs"
  have pos: "pw_ref x - 1 < length (pd_items det)" "1 \<le> pw_ref x" "0 \<le> pw_budget x"
      "pw_budget x \<le> pi_budget (pd_items det ! (pw_ref x - 1))" if "x \<in> set xs" for x
    using acc that by (auto simp: answer_ok_for_def Let_def)
  have "sum_list (map pi_budget (pd_items (model_plan_from det xs))) = sum_list (map pw_budget xs)"
    by (simp add: model_plan_from_def answered_item_def Let_def comp_def)
  also have "\<dots> \<le> sum_list (map (\<lambda>x. ?vs ! (pw_ref x - 1)) xs)"
    by (rule sum_list_mono) (use pos in \<open>auto\<close>)
  also have "\<dots> = sum_list (map (\<lambda>k. ?vs ! k) ?ks)" by (simp add: comp_def)
  also have "\<dots> \<le> sum_list ?vs"
  proof (rule sum_at_positions)
    have "inj_on (\<lambda>x. pw_ref x - 1) (set xs)"
    proof (rule inj_onI)
      fix x y
      assume x: "x \<in> set xs" and y: "y \<in> set xs" and "pw_ref x - 1 = pw_ref y - 1"
      then have "pw_ref x = pw_ref y" using pos(2) [OF x] pos(2) [OF y] by simp
      then show "x = y" using acc x y by (auto simp: distinct_map dest: inj_onD)
    qed
    then show "distinct ?ks" using acc by (simp add: distinct_map)
    show "\<forall>k \<in> set ?ks. k < length ?vs" using pos(1) by auto
    show "\<forall>v \<in> set ?vs. 0 \<le> v" using assms(2) by auto
  qed
  finally have sums: "sum_list (map pi_budget (pd_items (model_plan_from det xs))) \<le> sum_list ?vs" .
  have "\<exists>d \<in> set (pd_items det). pi_title it = pi_title d \<and> pi_goal it = pi_goal d \<and> pi_desk it = pi_desk d \<and>
       0 \<le> pi_budget it \<and> pi_budget it \<le> pi_budget d" if it: "it \<in> set (pd_items (model_plan_from det xs))" for it
  proof -
    from it obtain x where x: "x \<in> set xs" "it = answered_item (pd_items det) x"
      by (auto simp: model_plan_from_def Let_def)
    then show ?thesis
      using pos [OF x(1)]
      by (intro bexI [of _ "pd_items det ! (pw_ref x - 1)"]) (auto simp: answered_item_def Let_def proposal_of_def)
  qed
  with acc sums show ?thesis by blast
qed

definition demo_det :: proposed where
  "demo_det = \<lparr>pd_label = ''W41'', pd_start = ''2026-10-05'', pd_end = ''2026-10-11'', pd_goal = ''g'',
     pd_items = [proposal_of ''Explain'' ''g'' ''zed'' ''aws'' 1000 ''w'' []], pd_budget = 1000, pd_existing = False,
     pd_typed = [], pd_unmatched = False\<rparr>"

definition demo_plan_text :: string where
  "demo_plan_text = [CHR 0x7B, CHR 0x22] @ ''items'' @ [CHR 0x22] @ '':['' @ [CHR 0x7B, CHR 0x22] @ ''ref'' @
     [CHR 0x22] @ '':1,'' @ [CHR 0x22] @ ''budget_cents'' @ [CHR 0x22] @ '':500,'' @ [CHR 0x22] @ ''why'' @
     [CHR 0x22] @ '':'' @ [CHR 0x22] @ ''less'' @ [CHR 0x22] @ ''}]}''"

definition demo_answer :: string where
  "demo_answer = fence @ ''plan'' @ [CHR 0x0A] @ demo_plan_text @ fence"

lemma demo_plan_found: "find_plan demo_answer = Some demo_plan_text" "int (length demo_plan_text) \<le> plan_block_max_bytes"
  by code_simp+

lemma demo_plan_decoded:
  "decode_items demo_plan_text = Some [empty_item\<lparr>ri_ref := ''1'', ri_budget := ''500'', ri_why := ''less''\<rparr>]"
  by code_simp

lemma demo_numbers: "parse_int64 ''1'' = Some 1" "parse_int64 ''500'' = Some 500"
  by code_simp+

lemma demo_accepted:
  "validate_plan_answer demo_answer demo_det [demo_cheap\<lparr>an_per_task := 1200\<rparr>] (\<lambda>_. 0) =
   PlanAccepted [\<lparr>pw_ref = 1, pw_assignee = ''zed'', pw_budget = 500, pw_why = ''less''\<rparr>]"
  using demo_plan_found(2)
  by (simp add: validate_plan_answer_def demo_plan_found(1) demo_plan_decoded not_le demo_det_def answer_item_def
      ref_of_def demo_numbers empty_item_def assignee_for_def reroute_fault_def by_name_def demo_cheap_def
      headroom_def wrap64_def budget_for_def blank_def trim_space_solid solid_def byte_def plan_why_max_bytes_def)

theorem model_plan_only_redistributes_witness:
  "sum_list (map pi_budget (pd_items (model_plan_from demo_det
     [\<lparr>pw_ref = 1, pw_assignee = ''zed'', pw_budget = 500, pw_why = ''less''\<rparr>]))) \<le>
   sum_list (map pi_budget (pd_items demo_det))"
proof -
  have "\<forall>it \<in> set (pd_items demo_det). 0 \<le> pi_budget it" by (simp add: demo_det_def)
  from model_plan_only_redistributes [OF demo_accepted this] show ?thesis by blast
qed

section \<open>The call is in the month's spend\<close>

lemma cents_up_covers:
  assumes "0 \<le> micros" and "micros \<le> max64 - 9999"
  shows "micros \<le> cents_up micros * 10000 \<and> cents_up micros * 10000 < micros + 10000"
proof -
  have "wrap64 (micros + 9999) = micros + 9999"
    using assms by (intro wrap64_id) (simp add: in64_def min64_def max64_def)
  then have "cents_up micros = (micros + 9999) div 10000"
    using assms(1) by (simp add: cents_up_def sdiv_nonneg)
  then show ?thesis by linarith
qed

text \<open>
  C32. What a planning call cost is in the supervisor's month at once and in nobody else's: the
  month's spend rises by the booked cents, which are the micro-units rounded up, so never less than
  the call cost and less than a cent more.
\<close>

theorem plan_call_is_counted:
  assumes "0 \<le> micros" and "micros \<le> max64 - 9999"
  shows "\<exists>c t. settle_plan_ask label month who micros outcome reason s = (Inr c, t) \<and>
    micros \<le> c * 10000 \<and> c * 10000 < micros + 10000 \<and>
    (\<forall>m n. spend_in_month m t n =
       (if m = month \<and> n = who then wrap64 (spend_in_month m s n + c) else spend_in_month m s n))"
proof -
  let ?t = "s\<lparr>st_plan_asks := st_plan_asks s @
       [\<lparr>pa_label = label, pa_month = month, pa_analyst = who, pa_micros = micros, pa_cents = cents_up micros,
         pa_outcome = outcome, pa_reason = reason, pa_created = sql_now s\<rparr>]\<rparr>"
  have run: "settle_plan_ask label month who micros outcome reason s = (Inr (cents_up micros), ?t)"
    by (simp add: settle_plan_ask_def op_run)
  have "ask_spend m n ?t = ask_spend m n s + (if m = month \<and> n = who then cents_up micros else 0)" for m n
    by (auto simp: ask_spend_def)
  moreover have "task_spend m n ?t = task_spend m n s" for m n by (simp add: task_spend_def)
  ultimately have "spend_in_month m ?t n =
      (if m = month \<and> n = who then wrap64 (spend_in_month m s n + cents_up micros) else spend_in_month m s n)" for m n
    by (simp add: spend_in_month_def wrap64_add_left add.assoc)
  with run cents_up_covers [OF assms] show ?thesis by blast
qed

theorem plan_call_is_counted_witness:
  "\<exists>c t. settle_plan_ask ''W41'' ''2026-10'' ''supervisor'' 2337 ''accepted'' [] empty_store = (Inr c, t) \<and>
     2337 \<le> c * 10000"
  using plan_call_is_counted [of 2337 "''W41''" "''2026-10''" "''supervisor''" "''accepted''" "[]" empty_store]
  by (force simp: max64_def)

end
