(* ===== verification/Ledger.thy ===== *)
theory Ledger
  imports Replan
begin

text \<open>
  What the crew's own calls cost and who may spend: \<open>internal/crew/provenance.go\<close> (the live ledger,
  micro-units settled into cents once over the whole run), \<open>cadence_settings.go\<close> (the switch a
  clock-driven run obeys) and, of \<open>attestation.go\<close>, who counts as attested and the clearing of
  invented attestations. \<open>ValidAttestation\<close> parses a URL (\<open>net/url\<close>) and is not modelled.
\<close>

section \<open>SettleLiveSpend\<close>

definition live_rows :: "store \<Rightarrow> task list" where
  "live_rows s = sort_key tk_id (filter (\<lambda>t. tk_micros t > 0) (st_tasks s))"

definition live_total :: "task list \<Rightarrow> int" where
  "live_total rows = cents_sum (map tk_micros rows)"

definition whole_cents :: "task \<Rightarrow> int" where
  "whole_cents t = tk_micros t sdiv 10000"

definition rem_micros :: "task \<Rightarrow> int" where
  "rem_micros t = tk_micros t smod 10000"

text \<open>Largest remainder first, then the smaller number.\<close>

definition by_remainder :: "task list \<Rightarrow> task list" where
  "by_remainder rows = sort_key (\<lambda>t. (- rem_micros t, tk_id t)) rows"

text \<open>The whole cents of every task, and the tasks that get one of the cents these leave.\<close>

definition handed_whole :: "task list \<Rightarrow> int" where
  "handed_whole rows = cents_sum (map whole_cents rows)"

definition bumped :: "task list \<Rightarrow> task list" where
  "bumped rows = take (nat (cents_up (live_total rows) - handed_whole rows)) (by_remainder rows)"

definition give :: "task list \<Rightarrow> task \<Rightarrow> cents" where
  "give rows t = whole_cents t + (if tk_id t \<in> set (map tk_id (bumped rows)) then 1 else 0)"

definition book :: "task list \<Rightarrow> string \<Rightarrow> task \<Rightarrow> task" where
  "book rows now t =
     (let delta = wrap64 (give rows t - tk_live t) in
      if delta = 0 then t
      else t\<lparr>tk_spent := wrap64 (tk_spent t + delta), tk_live := give rows t, tk_updated := now\<rparr>)"

definition settle_live_spend :: "cents op" where
  "settle_live_spend = (\<lambda>s.
     let rows = live_rows s in
     if rows = [] then (Inr 0, s)
     else (Inr (handed_whole rows + int (length (bumped rows))),
           s\<lparr>st_tasks := map (\<lambda>t. if tk_micros t > 0 then book rows (sql_now s) t else t) (st_tasks s)\<rparr>))"

section \<open>Reads of the live ledger\<close>

definition live_spend :: "store \<Rightarrow> int \<times> nat" where
  "live_spend s = (sum_list (map tk_micros (live_rows s)), length (live_rows s))"

definition live_spend_by :: "string \<Rightarrow> store \<Rightarrow> int \<times> nat" where
  "live_spend_by who s =
     (let rows = filter (\<lambda>t. tk_assignee t = Some who) (live_rows s)
      in (sum_list (map tk_micros rows), length rows))"

definition task_tokens :: "int \<Rightarrow> store \<Rightarrow> (int \<times> int) option" where
  "task_tokens i s = map_option (\<lambda>t. (tk_tokens t, tk_ceiling t)) (find (\<lambda>t. tk_id t = i) (st_tasks s))"

definition live_tokens_by :: "string \<Rightarrow> store \<Rightarrow> int \<times> nat" where
  "live_tokens_by who s =
     (let rows = filter (\<lambda>t. tk_tokens t > 0 \<and> tk_assignee t = Some who) (st_tasks s)
      in (sum_list (map tk_tokens rows), length rows))"

definition real_money :: "int \<Rightarrow> int \<Rightarrow> string" where
  "real_money micros n =
     (if n = 0 \<or> micros = 0 then []
      else cents_string (cents_up micros) @ '' of it is real money, spent on '' @ append_int n @ '' '' @
        (if n = 1 then ''task'' else ''tasks'') @ '' an agent actually '' @
        ''wrote. Everything else here was generated when the estate was seeded.'')"

section \<open>The cadence switch\<close>

definition key_enabled :: string where "key_enabled = ''cadence.enabled''"
definition key_ceiling :: string where "key_ceiling = ''cadence.ceiling_cents''"
definition key_by :: string where "key_by = ''cadence.changed_by''"
definition key_at :: string where "key_at = ''cadence.changed_at''"

text \<open>\<open>INSERT OR REPLACE INTO settings\<close>, and the value a key reads, the empty string for none.\<close>

definition put_setting :: "string \<Rightarrow> string \<Rightarrow> (string \<times> string) list \<Rightarrow> (string \<times> string) list" where
  "put_setting k v rows = filter (\<lambda>(k', _). k' \<noteq> k) rows @ [(k, v)]"

fun put_settings :: "(string \<times> string) list \<Rightarrow> (string \<times> string) list \<Rightarrow> (string \<times> string) list" where
  "put_settings [] rows = rows"
| "put_settings ((k, v) # ws) rows = put_settings ws (put_setting k v rows)"

definition setting :: "string \<Rightarrow> (string \<times> string) list \<Rightarrow> string" where
  "setting k rows = coalesce (map_of rows k)"

record cadence_switch =
  cs_enabled :: bool
  cs_ceiling :: cents
  cs_by :: string
  cs_at :: string

definition cadence_settings :: "store \<Rightarrow> cadence_switch" where
  "cadence_settings s =
     \<lparr>cs_enabled = (setting key_enabled (st_settings s) = ''on''),
      cs_ceiling = (case parse_int64 (trim_space (setting key_ceiling (st_settings s))) of
                      None \<Rightarrow> 0 | Some n \<Rightarrow> if n > 0 then n else 0),
      cs_by = setting key_by (st_settings s), cs_at = setting key_at (st_settings s)\<rparr>"

definition cadence_writes :: "bool \<Rightarrow> cents \<Rightarrow> string \<Rightarrow> string \<Rightarrow> (string \<times> string) list" where
  "cadence_writes on limit who day =
     [(key_enabled, if on then ''on'' else ''off''), (key_ceiling, append_int limit), (key_by, who), (key_at, day)]"

text \<open>The four writes come from a Go map, whose order no run promises: \<open>order\<close> is the order of this run.\<close>

definition set_cadence :: "((string \<times> string) list \<Rightarrow> (string \<times> string) list) \<Rightarrow> bool \<Rightarrow> cents \<Rightarrow> string \<Rightarrow> unit op" where
  "set_cadence order on limit who =
     andthen (ensure (\<not> limit < 0) NegativeCeiling) (\<lambda>_.
     exec (\<lambda>s. s\<lparr>st_settings := put_settings (order (cadence_writes on limit who (today s))) (st_settings s)\<rparr>))"

section \<open>Attestation\<close>

definition is_unattested :: "analyst \<Rightarrow> bool" where
  "is_unattested a \<longleftrightarrow> (let m = trim_space (an_attestation a) in m = [] \<or> m = ''none'')"

definition counts_for_attestation :: "analyst \<Rightarrow> bool" where
  "counts_for_attestation a \<longleftrightarrow> an_state a \<noteq> ''suspended''"

definition unattested :: "analyst list \<Rightarrow> nat \<times> nat" where
  "unattested staff =
     (let live = filter counts_for_attestation staff in (length (filter is_unattested live), length live))"

definition fabricated :: "analyst \<Rightarrow> bool" where
  "fabricated a \<longleftrightarrow> an_attestation a \<noteq> ''none'' \<and> an_detail a = []"

definition clear_fabricated :: "nat op" where
  "clear_fabricated = (\<lambda>s.
     (Inr (length (filter fabricated (st_analysts s))),
      s\<lparr>st_analysts := update_where fabricated (\<lambda>a. a\<lparr>an_attestation := ''none''\<rparr>) (st_analysts s)\<rparr>))"

section \<open>The settled column\<close>

lemma quot_rem_cents:
  assumes "0 \<le> tk_micros t"
  shows "tk_micros t = 10000 * whole_cents t + rem_micros t \<and> 0 \<le> rem_micros t \<and>
     rem_micros t < 10000 \<and> 0 \<le> whole_cents t"
proof -
  have "whole_cents t = tk_micros t div 10000" using assms by (simp add: whole_cents_def sdiv_nonneg)
  moreover have "rem_micros t = tk_micros t mod 10000"
    using assms by (cases "tk_micros t = 0") (simp_all add: rem_micros_def signed_modulo_int_def)
  ultimately show ?thesis using assms by simp
qed

text \<open>The rows a settlement reads, in the ranges the arithmetic is exact in.\<close>

definition payable :: "task list \<Rightarrow> bool" where
  "payable rows \<longleftrightarrow> distinct (map tk_id rows) \<and> (\<forall>t \<in> set rows. 0 < tk_micros t) \<and>
     sum_list (map tk_micros rows) \<le> 2 ^ 62"

lemma payable_sums:
  assumes "payable rows"
  shows "sum_list (map tk_micros rows) = 10000 * sum_list (map whole_cents rows) + sum_list (map rem_micros rows)"
    and "0 \<le> sum_list (map whole_cents rows)" and "0 \<le> sum_list (map rem_micros rows)"
proof -
  have pos: "\<forall>t \<in> set rows. 0 < tk_micros t" using assms by (simp add: payable_def)
  then show "sum_list (map tk_micros rows) = 10000 * sum_list (map whole_cents rows) + sum_list (map rem_micros rows)"
    by (induction rows) (use quot_rem_cents in \<open>force+\<close>)
  show "0 \<le> sum_list (map whole_cents rows)" "0 \<le> sum_list (map rem_micros rows)"
    using pos quot_rem_cents by (auto intro!: sum_list_nonneg simp: less_imp_le)
qed

lemma payable_handed: "payable rows \<Longrightarrow> handed_whole rows = sum_list (map whole_cents rows)"
  using payable_sums [of rows]
  by (simp add: handed_whole_def cents_sum_wrap wrap64_id payable_def in64_def min64_def max64_def)

lemma payable_want:
  assumes "payable rows"
  shows "cents_up (live_total rows) = (sum_list (map tk_micros rows) + 9999) div 10000"
proof -
  let ?T = "sum_list (map tk_micros rows)"
  have "0 \<le> ?T" "?T \<le> 2 ^ 62" using payable_sums [OF assms] assms by (simp_all add: payable_def)
  then show ?thesis
    by (simp add: live_total_def cents_sum_wrap cents_up_def wrap64_id in64_def min64_def max64_def sdiv_nonneg)
qed

lemma payable_left:
  assumes "payable rows"
  shows "cents_up (live_total rows) - handed_whole rows = (sum_list (map rem_micros rows) + 9999) div 10000"
  using payable_sums(1) [OF assms] by (simp add: payable_want [OF assms] payable_handed [OF assms])

lemma by_remainder_set [simp]: "set (by_remainder rows) = set rows" "length (by_remainder rows) = length rows"
  by (simp_all add: by_remainder_def)

text \<open>A list of remainders below a cent, the largest first: what they round up to in cents is no more
  than the number of them that are not zero.\<close>

lemma cents_of_remainders:
  fixes rs :: "int list"
  assumes "\<forall>r \<in> set rs. 0 \<le> r \<and> r < 10000" and "sorted_wrt (\<ge>) rs"
  shows "(sum_list rs + 9999) div 10000 \<le> int (length rs) \<and>
    (\<forall>r \<in> set (take (nat ((sum_list rs + 9999) div 10000)) rs). 0 < r)"
proof -
  let ?m = "length (filter (\<lambda>r. 0 < r) rs)"
  have split: "rs = filter (\<lambda>r. 0 < r) rs @ filter (\<lambda>r. \<not> 0 < r) rs" using assms(2)
  proof (induction rs)
    case (Cons r rs)
    show ?case
    proof (cases "0 < r")
      case False
      with Cons.prems have "\<forall>x \<in> set rs. \<not> 0 < x" by auto
      then show ?thesis using False by (simp add: filter_empty_conv)
    qed (use Cons in simp)
  qed simp
  have "sum_list rs \<le> 9999 * int ?m" using assms(1)
    by (induction rs) auto
  then have "(sum_list rs + 9999) div 10000 \<le> int ?m" by linarith
  then have "nat ((sum_list rs + 9999) div 10000) \<le> ?m" by (simp add: nat_le_iff)
  then have "take (nat ((sum_list rs + 9999) div 10000)) rs =
      take (nat ((sum_list rs + 9999) div 10000)) (filter (\<lambda>r. 0 < r) rs)"
    by (subst split) simp
  moreover have "(sum_list rs + 9999) div 10000 \<le> int (length rs)"
    using \<open>_ \<le> int ?m\<close> length_filter_le [of "\<lambda>r. 0 < r" rs] by linarith
  ultimately show ?thesis by (auto dest!: in_set_takeD)
qed

lemma bumped_facts:
  assumes "payable rows"
  shows "int (length (bumped rows)) = cents_up (live_total rows) - handed_whole rows"
    and "\<forall>t \<in> set (bumped rows). 0 < rem_micros t"
proof -
  let ?rs = "map rem_micros (by_remainder rows)"
  have "\<forall>r \<in> set ?rs. 0 \<le> r \<and> r < 10000"
    using assms quot_rem_cents by (force simp: payable_def)
  moreover have "sorted (map (\<lambda>t. (- rem_micros t, tk_id t)) (by_remainder rows))"
    by (simp add: by_remainder_def)
  then have "sorted_wrt (\<ge>) ?rs"
    unfolding sorted_wrt_map by (rule sorted_wrt_mono_rel [rotated]) (auto simp: less_eq_prod_def)
  ultimately have c: "(sum_list ?rs + 9999) div 10000 \<le> int (length ?rs) \<and>
      (\<forall>r \<in> set (take (nat ((sum_list ?rs + 9999) div 10000)) ?rs). 0 < r)"
    by (rule cents_of_remainders)
  have "mset ?rs = mset (map rem_micros rows)" by (simp add: by_remainder_def)
  then have s: "sum_list ?rs = sum_list (map rem_micros rows)" by (metis sum_mset_sum_list)
  have l: "cents_up (live_total rows) - handed_whole rows = (sum_list ?rs + 9999) div 10000"
    using payable_left [OF assms] by (simp only: s)
  moreover have "0 \<le> sum_list ?rs" using payable_sums(3) [OF assms] by (simp only: s)
  moreover have "0 \<le> (sum_list ?rs + 9999) div 10000" using calculation(2) by simp
  ultimately show "int (length (bumped rows)) = cents_up (live_total rows) - handed_whole rows"
    using c unfolding bumped_def l by (simp add: min_absorb2 nat_le_iff)
  show "\<forall>t \<in> set (bumped rows). 0 < rem_micros t"
    using c unfolding bumped_def l by (simp add: take_map)
qed

lemma bumped_id:
  assumes "payable rows" and "t \<in> set rows"
  shows "tk_id t \<in> tk_id ` set (bumped rows) \<longleftrightarrow> t \<in> set (bumped rows)"
proof -
  have "set (bumped rows) \<subseteq> set rows" by (auto simp: bumped_def dest: in_set_takeD)
  moreover have "inj_on tk_id (set rows)" using assms(1) by (simp add: payable_def distinct_map)
  ultimately show ?thesis using assms(2) by (auto dest: inj_onD)
qed

lemma give_cases:
  "payable rows \<Longrightarrow> t \<in> set rows \<Longrightarrow>
   give rows t = whole_cents t + (if t \<in> set (bumped rows) then 1 else 0)"
  by (simp add: give_def bumped_id)

lemma give_near:
  assumes "payable rows" and "t \<in> set rows"
  shows "\<bar>10000 * give rows t - tk_micros t\<bar> < 10000" and "0 \<le> give rows t"
proof -
  have "0 \<le> tk_micros t" using assms by (auto simp: payable_def)
  note q = quot_rem_cents [OF this]
  have "t \<in> set (bumped rows) \<Longrightarrow> 0 < rem_micros t" using bumped_facts(2) [OF assms(1)] by blast
  with q show "\<bar>10000 * give rows t - tk_micros t\<bar> < 10000" "0 \<le> give rows t"
    by (auto simp: give_cases [OF assms])
qed

lemma sum_indicator:
  "sum_list (map (\<lambda>x. f x + (if P x then 1 else 0)) xs) = sum_list (map f xs) + int (length (filter P xs))"
  by (induction xs) auto

lemma bumped_count:
  assumes "payable rows"
  shows "length (filter (\<lambda>t. t \<in> set (bumped rows)) rows) = length (bumped rows)"
proof -
  let ?k = "nat (cents_up (live_total rows) - handed_whole rows)"
  have "distinct rows" using assms by (auto simp: payable_def distinct_map)
  then have "distinct (by_remainder rows)" by (simp add: by_remainder_def)
  then have d: "distinct (bumped rows @ drop ?k (by_remainder rows))" by (simp add: bumped_def)
  then have "filter (\<lambda>t. t \<in> set (bumped rows)) (bumped rows @ drop ?k (by_remainder rows)) = bumped rows"
    by (auto simp: filter_empty_conv)
  then have "filter (\<lambda>t. t \<in> set (bumped rows)) (by_remainder rows) = bumped rows"
    by (simp add: bumped_def)
  moreover have "mset (by_remainder rows) = mset rows" by (simp add: by_remainder_def)
  then have "size (filter_mset (\<lambda>t. t \<in> set (bumped rows)) (mset (by_remainder rows))) =
      size (filter_mset (\<lambda>t. t \<in> set (bumped rows)) (mset rows))" by simp
  ultimately show ?thesis by (simp only: mset_filter [symmetric] size_mset)
qed

lemma give_total:
  assumes "payable rows"
  shows "sum_list (map (give rows) rows) = cents_up (live_total rows)"
proof -
  have "map (give rows) rows = map (\<lambda>t. whole_cents t + (if t \<in> set (bumped rows) then 1 else 0)) rows"
    by (simp add: give_cases [OF assms])
  then have "sum_list (map (give rows) rows) =
      sum_list (map (\<lambda>t. whole_cents t + (if t \<in> set (bumped rows) then 1 else 0)) rows)"
    by (rule arg_cong)
  also have "\<dots> = handed_whole rows + int (length (bumped rows))"
    unfolding sum_indicator bumped_count [OF assms] payable_handed [OF assms] ..
  finally show ?thesis using bumped_facts(1) [OF assms] by simp
qed

lemma book_keeps [simp]: "tk_id (book rows n t) = tk_id t" "tk_micros (book rows n t) = tk_micros t"
  by (simp_all add: book_def Let_def)

lemma book_writes:
  assumes "payable rows" and "t \<in> set rows" and "0 \<le> tk_live t" and "tk_live t \<le> tk_spent t" and "tk_spent t \<le> 2 ^ 62"
  shows "tk_live (book rows n t) = give rows t \<and> tk_spent (book rows n t) = tk_spent t + give rows t - tk_live t"
proof -
  have "tk_micros t \<le> sum_list (map tk_micros rows)"
    using assms(1,2) by (intro member_le_sum_list) (auto simp: payable_def)
  then have "tk_micros t \<le> 4611686018427387904" using assms(1) by (simp add: payable_def)
  then have "give rows t \<le> 2305843009213693952" using give_near(1) [OF assms(1,2)] by linarith
  then have "wrap64 (give rows t - tk_live t) = give rows t - tk_live t"
    "wrap64 (tk_spent t + (give rows t - tk_live t)) = tk_spent t + (give rows t - tk_live t)"
    using assms(3-5) give_near(2) [OF assms(1,2)] by (simp_all add: wrap64_id in64_def min64_def max64_def)
  then show ?thesis by (simp add: book_def Let_def)
qed

text \<open>A settlement reads only numbers and amounts the settlement itself does not change.\<close>

lemma settled_rows:
  fixes B :: "task \<Rightarrow> task"
  assumes "\<And>t. tk_id (B t) = tk_id t" and "\<And>t. tk_micros (B t) = tk_micros t"
  shows "live_total (map B rows) = live_total rows" and "handed_whole (map B rows) = handed_whole rows"
    and "bumped (map B rows) = map B (bumped rows)" and "give (map B rows) (B t) = give rows t"
proof -
  have w: "whole_cents (B t) = whole_cents t" "rem_micros (B t) = rem_micros t" for t
    by (simp_all add: whole_cents_def rem_micros_def assms)
  show t: "live_total (map B rows) = live_total rows" and h: "handed_whole (map B rows) = handed_whole rows"
    by (simp_all add: live_total_def handed_whole_def comp_def assms w)
  have "by_remainder (map B rows) = map B (by_remainder rows)"
    unfolding by_remainder_def by (rule sort_key_image) (simp add: assms w)
  then show b: "bumped (map B rows) = map B (bumped rows)" by (simp add: bumped_def t h take_map)
  show "give (map B rows) (B t) = give rows t" by (simp add: give_def b w assms image_image)
qed

section \<open>A settlement as a whole\<close>

lemma settle_live_spend_run:
  "settle_live_spend s = (Inr (handed_whole (live_rows s) + int (length (bumped (live_rows s)))),
     s\<lparr>st_tasks := map (\<lambda>t. if tk_micros t > 0 then book (live_rows s) (sql_now s) t else t) (st_tasks s)\<rparr>)"
proof (cases "live_rows s = []")
  case True
  then have "filter (\<lambda>t. tk_micros t > 0) (st_tasks s) = []"
    by (metis live_rows_def length_0_conv length_sort)
  then have "map (\<lambda>t. if tk_micros t > 0 then book (live_rows s) (sql_now s) t else t) (st_tasks s) = st_tasks s"
    by (intro map_idI) (auto simp: filter_empty_conv)
  then show ?thesis
    using True by (simp add: settle_live_spend_def handed_whole_def bumped_def by_remainder_def cents_sum_wrap wrap64_id
        in64_def min64_def max64_def)
qed (simp add: settle_live_spend_def Let_def)

lemma live_rows_of_map:
  assumes "\<And>t. tk_id (B t) = tk_id t" and "\<And>t. tk_micros (B t) = tk_micros t"
  shows "live_rows (s\<lparr>st_tasks := map (\<lambda>t. if tk_micros t > 0 then B t else t) (st_tasks s)\<rparr>) = map B (live_rows s)"
proof -
  let ?f = "\<lambda>t. if tk_micros t > 0 then B t else t"
  have "filter (\<lambda>t. tk_micros t > 0) (map ?f xs) = map B (filter (\<lambda>t. tk_micros t > 0) xs)" for xs
    by (induction xs) (simp_all add: assms)
  then show ?thesis by (simp add: live_rows_def sort_key_image assms)
qed

lemma live_rows_facts:
  "set (live_rows s) = {t \<in> set (st_tasks s). tk_micros t > 0}"
  "mset (live_rows s) = filter_mset (\<lambda>t. tk_micros t > 0) (mset (st_tasks s))"
  by (auto simp: live_rows_def)

lemma live_rows_payable:
  assumes "distinct (map tk_id (st_tasks s))" and "sum_list (map tk_micros (live_rows s)) \<le> 2 ^ 62"
  shows "payable (live_rows s)"
proof -
  have "distinct (map tk_id (filter (\<lambda>t. tk_micros t > 0) (st_tasks s)))"
    using assms(1) by (rule distinct_map_filter)
  then have "distinct (map tk_id (live_rows s))"
    unfolding distinct_map by (simp add: live_rows_def)
  then show ?thesis using assms(2) by (simp add: payable_def live_rows_facts)
qed

lemma sum_over_changed:
  fixes h :: "task \<Rightarrow> int"
  assumes "\<And>t. t \<in> set xs \<Longrightarrow> P t \<Longrightarrow> h (B t) = h t + d t"
  shows "sum_list (map h (map (\<lambda>t. if P t then B t else t) xs)) = sum_list (map h xs) + sum_list (map d (filter P xs))"
  using assms by (induction xs) auto

text \<open>
  C23. Settling the live ledger books the whole run rounded up to the cent, once: the booked cents
  cover what the calls cost and exceed it by less than a cent, the column of the tasks adds up to
  them, each task is within a cent of its own cost, the crew's spend rises by exactly what was not
  booked before, and settling again answers the same and writes nothing.
\<close>

theorem settle_adds_up:
  assumes "distinct (map tk_id (st_tasks s))" and "sum_list (map tk_micros (live_rows s)) \<le> 2 ^ 62"
    and "\<forall>t \<in> set (live_rows s). 0 \<le> tk_live t \<and> tk_live t \<le> tk_spent t \<and> tk_spent t \<le> 2 ^ 62"
  shows "\<exists>c t. settle_live_spend s = (Inr c, t) \<and>
    fst (live_spend s) \<le> 10000 * c \<and> 10000 * c < fst (live_spend s) + 10000 \<and>
    sum_list (map tk_live (live_rows t)) = c \<and>
    (\<forall>x \<in> set (live_rows t). \<bar>10000 * tk_live x - tk_micros x\<bar> < 10000) \<and>
    sum_list (map tk_spent (st_tasks t)) =
      sum_list (map tk_spent (st_tasks s)) + c - sum_list (map tk_live (live_rows s)) \<and>
    settle_live_spend t = (Inr c, t)"
proof -
  let ?rows = "live_rows s" and ?B = "book (live_rows s) (sql_now s)"
  let ?t = "s\<lparr>st_tasks := map (\<lambda>t. if tk_micros t > 0 then ?B t else t) (st_tasks s)\<rparr>"
  let ?c = "cents_up (live_total ?rows)"
  note pay = live_rows_payable [OF assms(1,2)]
  have run: "settle_live_spend s = (Inr ?c, ?t)"
    using bumped_facts(1) [OF pay] by (simp add: settle_live_spend_run)
  have rows: "live_rows ?t = map ?B ?rows" by (rule live_rows_of_map) simp_all
  have wrote: "tk_live (?B x) = give ?rows x \<and> tk_spent (?B x) = tk_spent x + (give ?rows x - tk_live x)"
    if "x \<in> set ?rows" for x
    using book_writes [OF pay that] assms(3) that by simp
  have cover: "fst (live_spend s) \<le> 10000 * ?c" "10000 * ?c < fst (live_spend s) + 10000"
    unfolding payable_want [OF pay] live_spend_def fst_conv by linarith+
  have "map tk_live (live_rows ?t) = map (give ?rows) ?rows"
    unfolding rows by (simp add: wrote)
  then have column: "sum_list (map tk_live (live_rows ?t)) = ?c" by (simp only: give_total [OF pay])
  have near: "\<forall>x \<in> set (live_rows ?t). \<bar>10000 * tk_live x - tk_micros x\<bar> < 10000"
    unfolding rows using wrote give_near(1) [OF pay] by simp
  have st: "st_tasks ?t = map (\<lambda>t. if tk_micros t > 0 then ?B t else t) (st_tasks s)" by simp
  have "sum_list (map tk_spent (st_tasks ?t)) = sum_list (map tk_spent (st_tasks s)) +
      sum_list (map (\<lambda>x. give ?rows x - tk_live x) (filter (\<lambda>x. tk_micros x > 0) (st_tasks s)))"
    unfolding st by (rule sum_over_changed) (use wrote in \<open>simp add: live_rows_facts\<close>)
  moreover have "sum_list (map (\<lambda>x. give ?rows x - tk_live x) (filter (\<lambda>x. tk_micros x > 0) (st_tasks s))) =
      sum_list (map (\<lambda>x. give ?rows x - tk_live x) ?rows)"
    by (simp add: sum_mset_sum_list [symmetric] live_rows_facts)
  ultimately have spent: "sum_list (map tk_spent (st_tasks ?t)) =
      sum_list (map tk_spent (st_tasks s)) + ?c - sum_list (map tk_live ?rows)"
    using give_total [OF pay] by (simp add: sum_list_subtractf)
  have again: "settle_live_spend ?t = (Inr ?c, ?t)"
  proof -
    note S = settled_rows [of ?B ?rows, OF book_keeps]
    have same: "book (live_rows ?t) n (?B x) = ?B x" if "x \<in> set ?rows" for x n
      using wrote [OF that] by (simp add: rows book_def [of "map ?B ?rows"] S(4) Let_def wrap64_id in64_def min64_def max64_def)
    have "map (\<lambda>x. if tk_micros x > 0 then book (live_rows ?t) (sql_now ?t) x else x) (st_tasks ?t) = st_tasks ?t"
      by (rule map_idI) (auto simp: same live_rows_facts)
    then show ?thesis
      using bumped_facts(1) [OF pay] by (simp add: settle_live_spend_run rows S(2,3))
  qed
  from run cover column near spent again show ?thesis by blast
qed

text \<open>Three calls on three tasks that cost about a fifth of a cent each.\<close>

definition demo_calls :: store where
  "demo_calls = empty_store\<lparr>st_tasks := map (\<lambda>(i, m). demo_task\<lparr>tk_id := i, tk_micros := m, tk_live := 0, tk_spent := 0\<rparr>)
     [(1, 2100), (2, 2300), (3, 15000)]\<rparr>"

theorem settle_adds_up_witness:
  "\<exists>c t. settle_live_spend demo_calls = (Inr c, t) \<and> 19400 \<le> 10000 * c \<and> 10000 * c < 29400 \<and>
     sum_list (map tk_live (live_rows t)) = c"
proof -
  have r: "live_rows demo_calls = st_tasks demo_calls"
    by (simp add: live_rows_def demo_calls_def)
  have "distinct (map tk_id (st_tasks demo_calls))" "sum_list (map tk_micros (live_rows demo_calls)) \<le> 2 ^ 62"
    "\<forall>t \<in> set (live_rows demo_calls). 0 \<le> tk_live t \<and> tk_live t \<le> tk_spent t \<and> tk_spent t \<le> 2 ^ 62"
    "fst (live_spend demo_calls) = 19400"
    unfolding live_spend_def fst_conv r by (simp_all add: demo_calls_def)
  from settle_adds_up [OF this(1-3)] this(4) show ?thesis by force
qed

section \<open>The settings table behind its interface\<close>

text \<open>What the switch relies on of the table: a key reads what was last put, and nothing else moves.\<close>

locale keyed_table =
  fixes get :: "'k \<Rightarrow> 't \<Rightarrow> 'v" and put :: "'k \<Rightarrow> 'v \<Rightarrow> 't \<Rightarrow> 't"
  assumes get_put: "get k (put k v t) = v"
    and get_other: "k \<noteq> k' \<Longrightarrow> get k' (put k v t) = get k' t"
begin

lemma get_after_puts:
  "distinct (map fst ws) \<Longrightarrow>
   get k (foldl (\<lambda>t (k, v). put k v t) t ws) = (case map_of ws k of Some v \<Rightarrow> v | None \<Rightarrow> get k t)"
proof (induction ws arbitrary: t)
  case (Cons w ws)
  obtain k' v where w: "w = (k', v)" by (cases w)
  have "map_of ws k' = None" using Cons.prems by (simp add: w map_of_eq_None_iff)
  then show ?case using Cons by (auto simp: w get_put get_other split: option.split)
qed simp

lemma puts_commute:
  assumes "distinct (map fst ws)" and "mset vs = mset ws"
  shows "get k (foldl (\<lambda>t (k, v). put k v t) t vs) = get k (foldl (\<lambda>t (k, v). put k v t) t ws)"
proof -
  have d: "distinct (map fst vs)" using assms by (metis mset_eq_imp_distinct_iff mset_map)
  have "map_of vs = map_of ws"
    using assms d by (metis map_of_inject_set set_mset_mset)
  then show ?thesis by (simp add: get_after_puts assms(1) d)
qed

end

interpretation st: keyed_table setting put_setting
proof unfold_locales
  fix k k' v :: string and t
  show "setting k (put_setting k v t) = v"
    by (auto simp: setting_def put_setting_def map_add_def coalesce_def dest: map_of_SomeD split: option.split)
  show "k \<noteq> k' \<Longrightarrow> setting k' (put_setting k v t) = setting k' t"
    by (induction t) (auto simp: setting_def put_setting_def map_add_def split: option.split)
qed

lemma put_settings_foldl: "put_settings ws rows = foldl (\<lambda>t (k, v). put_setting k v t) rows ws"
  by (induction ws rows rule: put_settings.induct) simp_all

lemma append_int_nat: "0 \<le> n \<Longrightarrow> append_int n = show_nat (nat n)"
  by (simp add: append_int_def)

lemma trim_digits: "list_all is_digit s \<Longrightarrow> trim_space s = s"
proof (cases "s = []")
  case False
  assume "list_all is_digit s"
  then have "solid (hd s)" "solid (last s)" using False by (auto simp: list_all_iff digit_solid)
  with False show ?thesis by (simp add: trim_space_solid)
qed simp

lemma ceiling_reads_back:
  assumes "0 \<le> n" and "in64 n"
  shows "parse_int64 (trim_space (append_int n)) = Some n"
  using assms by (simp add: append_int_nat trim_digits parse_int64_digits in64_def)

text \<open>
  The cadence switch reads back as it was set, in whatever order the four keys are written, by
  whom and on what day, and no other setting moves; a negative ceiling is refused and nothing is
  written.
\<close>

theorem cadence_switch_reads_back:
  assumes "\<And>ws. mset (order ws) = mset ws" and "in64 limit"
  shows "if limit < 0 then set_cadence order on limit who s = (Inl NegativeCeiling, s)
    else \<exists>t. set_cadence order on limit who s = (Inr (), t) \<and>
      cadence_settings t = \<lparr>cs_enabled = on, cs_ceiling = limit, cs_by = who, cs_at = today s\<rparr> \<and>
      (\<forall>k. k \<notin> {key_enabled, key_ceiling, key_by, key_at} \<longrightarrow>
         setting k (st_settings t) = setting k (st_settings s))"
proof (cases "limit < 0")
  case False
  let ?ws = "cadence_writes on limit who (today s)"
  let ?t = "s\<lparr>st_settings := put_settings (order ?ws) (st_settings s)\<rparr>"
  have keys: "distinct (map fst ?ws)"
    by (simp add: cadence_writes_def key_enabled_def key_ceiling_def key_by_def key_at_def)
  have read: "setting k (st_settings ?t) =
      (case map_of ?ws k of Some v \<Rightarrow> v | None \<Rightarrow> setting k (st_settings s))" for k
    using st.puts_commute [OF keys assms(1)] st.get_after_puts [OF keys]
    by (simp add: put_settings_foldl)
  have "cadence_settings ?t = \<lparr>cs_enabled = on, cs_ceiling = limit, cs_by = who, cs_at = today s\<rparr>"
    unfolding cadence_settings_def read
    using ceiling_reads_back [of limit] False assms(2)
    by (simp add: cadence_writes_def key_enabled_def key_ceiling_def key_by_def key_at_def)
  moreover have "set_cadence order on limit who s = (Inr (), ?t)"
    using False by (simp add: set_cadence_def op_run)
  moreover have "setting k (st_settings ?t) = setting k (st_settings s)"
    if "k \<notin> {key_enabled, key_ceiling, key_by, key_at}" for k
    unfolding read using that by (simp add: cadence_writes_def)
  ultimately show ?thesis using False by simp
qed (simp add: set_cadence_def op_run)

theorem cadence_switch_reads_back_witness:
  "\<exists>t. set_cadence rev True 500 ''t.langley'' empty_store = (Inr (), t) \<and>
     cadence_settings t =
       \<lparr>cs_enabled = True, cs_ceiling = 500, cs_by = ''t.langley'', cs_at = today empty_store\<rparr>"
proof -
  have "mset (rev ws) = mset ws" "in64 500" for ws :: "(string \<times> string) list"
    by (simp_all add: in64_def min64_def max64_def)
  from cadence_switch_reads_back [OF this, where on = True and who = "''t.langley''" and s = empty_store]
  show ?thesis by (simp, blast)
qed

text \<open>Clearing invented attestations leaves none, keeps every one with its evidence, and is done once.\<close>

lemma clear_fabricated_once:
  "clear_fabricated s = (Inr n, t) \<Longrightarrow> filter fabricated (st_analysts t) = [] \<and> fst (clear_fabricated t) = Inr 0 \<and>
     (\<forall>a. an_detail a \<noteq> [] \<longrightarrow> a \<in> set (st_analysts t) \<longleftrightarrow> a \<in> set (st_analysts s))"
  by (auto simp: clear_fabricated_def update_where_def filter_empty_conv fabricated_def image_iff)

end
