(* ===== verification/Rounding.thy ===== *)
theory Rounding
  imports Detect
begin

text \<open>
  How far rounding to a float64 (\<open>Detect.f64\<close>) moves a number.
\<close>

lemma bitlen_bounds: "0 < n \<Longrightarrow> 2 ^ (bitlen n - 1) \<le> n \<and> n < 2 ^ bitlen n \<and> 0 < bitlen n"
proof (induction n rule: bitlen.induct)
  case (1 n)
  show ?case
  proof (cases "n = 1")
    case False
    then have "0 < n div 2" "n \<noteq> 0" using "1.prems" by simp_all
    note ih = "1.IH" [OF this(2,1)]
    obtain k where k: "bitlen (n div 2) = Suc k" using ih by (cases "bitlen (n div 2)") auto
    have n: "bitlen n = Suc (Suc k)" using \<open>n \<noteq> 0\<close> by (subst bitlen.simps) (simp add: k)
    from ih have "2 ^ k \<le> n div 2" "n div 2 < 2 ^ Suc k" by (simp_all add: k)
    then have "2 * 2 ^ k \<le> n" "n < 2 * 2 ^ Suc k" by linarith+
    then show ?thesis unfolding n by simp
  qed (simp add: bitlen.simps)
qed

lemma pow2_pos [simp]: "0 < pow2 e"
  by (simp add: pow2_def)

lemma pow2_add1: "pow2 (e + 1) = 2 * pow2 e"
proof -
  consider "0 \<le> e" | "e = -1" | "e < -1" by linarith
  then show ?thesis
  proof cases
    case 1
    then have "nat (e + 1) = Suc (nat e)" by simp
    with 1 show ?thesis by (simp add: pow2_def)
  next
    case 3
    then have "nat (- e) = Suc (nat (- (e + 1)))" by simp
    with 3 show ?thesis by (simp add: pow2_def)
  qed (simp add: pow2_def)
qed

lemma pow2_add: "pow2 (e + int k) = 2 ^ k * pow2 e"
proof (induction k)
  case (Suc k)
  have "pow2 (e + int (Suc k)) = pow2 ((e + int k) + 1)" by (simp add: algebra_simps)
  then show ?case by (simp add: pow2_add1 Suc)
qed simp

lemma pow2_nat: "pow2 (int k) = 2 ^ k"
  by (simp add: pow2_def)

lemma pow2_diff: "pow2 (int k - int m) = 2 ^ k / 2 ^ m"
proof -
  have "2 ^ m * pow2 (int k - int m) = pow2 (int k)"
    using pow2_add [of "int k - int m" m] by simp
  then show ?thesis by (simp add: pow2_nat field_simps)
qed

lemma round_even_near: "\<bar>of_int (round_even x) - x\<bar> \<le> 1 / 2"
proof -
  have "of_int \<lfloor>x\<rfloor> \<le> x" "x < of_int \<lfloor>x\<rfloor> + 1" by linarith+
  then show ?thesis by (auto simp: round_even_def Let_def)
qed

text \<open>The exponent \<open>f64\<close> rounds at: at least 52 bits stand before the point.\<close>

lemma f64_scale:
  assumes "x \<noteq> 0" and "quotient_of \<bar>x\<bar> = (a, b)"
  defines "e0 \<equiv> int (bitlen (nat a)) - int (bitlen (nat b)) - 53"
  shows "2 ^ 52 \<le> \<bar>x\<bar> / pow2 (if \<bar>x\<bar> / pow2 e0 \<ge> 2 ^ 53 then e0 + 1 else e0)"
proof (cases "\<bar>x\<bar> / pow2 e0 \<ge> 2 ^ 53")
  case True
  then show ?thesis unfolding pow2_add1 if_P [OF True] by (simp add: field_simps)
next
  case False
  let ?m = "bitlen (nat a)" and ?n = "bitlen (nat b)"
  have b: "0 < b" using assms(2) by (rule quotient_of_denom_pos)
  have x: "\<bar>x\<bar> = of_int a / of_int b" using assms(2) by (rule quotient_of_div)
  then have a: "0 < a" using assms(1) b by (metis abs_eq_0 abs_ge_zero divide_pos_pos linorder_neqE of_int_0_less_iff
      of_int_0 not_less zero_less_abs_iff divide_nonpos_pos less_le_not_le)
  have A: "(2 :: rat) ^ (?m - 1) \<le> of_int a" "0 < ?m"
  proof -
    have "2 ^ (?m - 1) \<le> nat a" "0 < ?m" using bitlen_bounds [of "nat a"] a by auto
    then have "2 ^ (?m - 1) \<le> a" using a by (metis le_nat_iff less_imp_le of_nat_numeral of_nat_power)
    then show "(2 :: rat) ^ (?m - 1) \<le> of_int a" by (metis of_int_le_iff of_int_numeral of_int_power)
    show "0 < ?m" by fact
  qed
  have B: "of_int b \<le> (2 :: rat) ^ ?n"
  proof -
    have "nat b < 2 ^ ?n" using bitlen_bounds [of "nat b"] b by auto
    then have "b \<le> 2 ^ ?n" using b by (metis less_imp_le nat_le_iff of_nat_numeral of_nat_power)
    then show ?thesis by (metis of_int_le_iff of_int_numeral of_int_power)
  qed
  have "pow2 e0 * 2 ^ 53 = pow2 (int ?m - int ?n)"
    using pow2_add [of e0 53] by (simp add: e0_def)
  then have p: "pow2 e0 * 2 ^ 53 = 2 ^ ?m / 2 ^ ?n" by (simp add: pow2_diff)
  have "(2 :: rat) ^ ?m = 2 * 2 ^ (?m - 1)" using A(2) by (metis power_eq_if not_gr_zero)
  then have "pow2 e0 * 2 ^ 52 = 2 ^ (?m - 1) / 2 ^ ?n" using p by simp
  also have "\<dots> \<le> of_int a / of_int b"
    using A B a b by (intro frac_le) simp_all
  finally have "2 ^ 52 * pow2 e0 \<le> \<bar>x\<bar>" by (simp add: x mult.commute)
  then have "2 ^ 52 \<le> \<bar>x\<bar> / pow2 e0" by (simp add: pos_le_divide_eq)
  with False show ?thesis by simp
qed

text \<open>Rounding to a float64 moves a number by at most one part in \<open>2 ^ 53\<close>.\<close>

lemma f64_near: "\<bar>f64 x - x\<bar> * 2 ^ 53 \<le> \<bar>x\<bar>"
proof (cases "x = 0")
  case False
  obtain a b where ab: "quotient_of \<bar>x\<bar> = (a, b)" by (cases "quotient_of \<bar>x\<bar>")
  define e where "e = (let e0 = int (bitlen (nat a)) - int (bitlen (nat b)) - 53 in
     if \<bar>x\<bar> / pow2 e0 \<ge> 2 ^ 53 then e0 + 1 else e0)"
  have f: "f64 x = sgn x * of_int (round_even (\<bar>x\<bar> / pow2 e)) * pow2 e"
    using False by (simp add: f64_def ab e_def Let_def)
  have s: "2 ^ 52 \<le> \<bar>x\<bar> / pow2 e" using f64_scale [OF False ab] by (simp add: e_def Let_def)
  have "pow2 e \<noteq> 0" using pow2_pos [of e] by linarith
  then have "x = sgn x * (\<bar>x\<bar> / pow2 e) * pow2 e" by (simp add: sgn_mult_abs)
  then have "f64 x - x = sgn x * (of_int (round_even (\<bar>x\<bar> / pow2 e)) - \<bar>x\<bar> / pow2 e) * pow2 e"
    unfolding f by (metis left_diff_distrib right_diff_distrib)
  then have "\<bar>f64 x - x\<bar> = \<bar>of_int (round_even (\<bar>x\<bar> / pow2 e)) - \<bar>x\<bar> / pow2 e\<bar> * pow2 e"
    using False by (simp add: abs_mult abs_sgn_eq abs_of_pos [OF pow2_pos])
  also have "\<dots> \<le> 1 / 2 * pow2 e"
    by (rule mult_right_mono [OF round_even_near]) (rule less_imp_le [OF pow2_pos])
  finally have "\<bar>f64 x - x\<bar> * 2 ^ 53 \<le> 2 ^ 52 * pow2 e" by simp
  also have "\<dots> \<le> \<bar>x\<bar>" using s by (simp add: pos_le_divide_eq)
  finally show ?thesis .
qed (simp add: f64_def)

end
