(* ===== verification/Accounts.thy ===== *)
theory Accounts
  imports Detect Digest Mandate Json
begin

text \<open>
  \<open>internal/auth\<close>: accounts, passwords, the lockout, sessions and the accounts of an identity
  provider. The store is the four tables the package reads and writes, the journal and the clock,
  a float64 number of seconds. \<open>scrypt\<close> and \<open>pbkdf2\<close> are third-party code and a parameter;
  random bytes (salts, session tokens) are arguments of the operations that draw them.
\<close>

section \<open>The tables\<close>

record account =
  ac_name :: string
  ac_hash :: string
  ac_role :: string
  ac_created :: rat
  ac_last :: "rat option"
  ac_failed :: int
  ac_locked :: rat

record session =
  sn_key :: string
  sn_user :: string
  sn_created :: rat
  sn_expires :: rat

record identity =
  ie_issuer :: string
  ie_subject :: string
  ie_user :: string
  ie_linked :: rat

record accounts =
  au_users :: "account list"
  au_sessions :: "session list"
  au_identities :: "identity list"
  au_break_glass :: "(string \<times> rat) list"
  au_log :: "(string \<times> (string \<times> json) list) list"
  au_now :: rat
  au_secret :: "int list"

text \<open>\<open>scrypt.Key\<close>, which may refuse, and \<open>pbkdf2.Key\<close> with SHA-256: password, salt, costs, length.\<close>

record kdf =
  kd_scrypt :: "string \<Rightarrow> int list \<Rightarrow> nat \<Rightarrow> nat \<Rightarrow> nat \<Rightarrow> nat \<Rightarrow> int list option"
  kd_pbkdf2 :: "string \<Rightarrow> int list \<Rightarrow> nat \<Rightarrow> nat \<Rightarrow> int list"

datatype auth_error =
  KdfFailed | RowExists | NeedsName | PasswordTooShort | NoRoleNamed string | NoAccount string
| OnlyAdmin | ExternalNeeds | ExternalBadRole | AccountVanished

type_synonym 'a act = "accounts \<Rightarrow> (auth_error + 'a) \<times> accounts"

definition record_entry :: "string \<Rightarrow> (string \<times> json) list \<Rightarrow> accounts \<Rightarrow> accounts" where
  "record_entry what d s = s\<lparr>au_log := au_log s @ [(what, d)]\<rparr>"

section \<open>Roles\<close>

definition rank :: "string \<Rightarrow> nat" where
  "rank r = (case map_of [(''viewer'', 1), (''operator'', 2), (''admin'', 3)] r of None \<Rightarrow> 0 | Some n \<Rightarrow> n)"

definition valid_role :: "string \<Rightarrow> bool" where
  "valid_role r \<longleftrightarrow> r \<in> {''viewer'', ''operator'', ''admin''}"

definition may :: "account option \<Rightarrow> string \<Rightarrow> bool" where
  "may u need = (case u of None \<Rightarrow> False | Some a \<Rightarrow> rank need \<le> rank (ac_role a))"

section \<open>Passwords\<close>

definition min_password :: nat where "min_password = 10"
definition session_hours :: nat where "session_hours = 12"
definition scrypt_n :: nat where "scrypt_n = 16384"
definition pbkdf2_rounds :: nat where "pbkdf2_rounds = 480000"
definition key_len :: nat where "key_len = 32"

definition derive :: "kdf \<Rightarrow> string \<Rightarrow> int list \<Rightarrow> string \<Rightarrow> string option" where
  "derive kd password salt algo =
     (if algo = ''scrypt'' then map_option hex (kd_scrypt kd password salt scrypt_n 8 1 key_len)
      else if algo = ''pbkdf2'' then Some (hex (kd_pbkdf2 kd password salt pbkdf2_rounds key_len))
      else None)"

definition hash_password :: "kdf \<Rightarrow> int list \<Rightarrow> string \<Rightarrow> string option" where
  "hash_password kd salt password =
     map_option (\<lambda>h. ''scrypt$'' @ hex salt @ ''$'' @ h) (derive kd password salt ''scrypt'')"

text \<open>\<open>hex.DecodeString\<close>.\<close>

fun hex_decode :: "string \<Rightarrow> int list option" where
  "hex_decode [] = Some []"
| "hex_decode [c] = None"
| "hex_decode (c # d # s) =
     (case (hex_value c, hex_value d, hex_decode s) of
        (Some a, Some b, Some r) \<Rightarrow> Some ((16 * a + b) # r) | _ \<Rightarrow> None)"

definition verify_password :: "kdf \<Rightarrow> string \<Rightarrow> string \<Rightarrow> bool" where
  "verify_password kd password stored =
     (case split_at (CHR ''$'') stored of
        [algo, salt, want] \<Rightarrow>
          (case hex_decode salt of None \<Rightarrow> False
           | Some bs \<Rightarrow> (case derive kd password bs algo of None \<Rightarrow> False | Some got \<Rightarrow> got = want))
      | _ \<Rightarrow> False)"

section \<open>Accounts\<close>

definition account_of :: "string \<Rightarrow> accounts \<Rightarrow> account option" where
  "account_of name s = find (\<lambda>u. ac_name u = name) (au_users s)"

definition count_role :: "string \<Rightarrow> accounts \<Rightarrow> nat" where
  "count_role r s = length (filter (\<lambda>u. ac_role u = r) (au_users s))"

definition new_account :: "string \<Rightarrow> string \<Rightarrow> string \<Rightarrow> rat \<Rightarrow> account" where
  "new_account name h role now =
     \<lparr>ac_name = name, ac_hash = h, ac_role = role, ac_created = now, ac_last = None, ac_failed = 0, ac_locked = 0\<rparr>"

definition make_account :: "kdf \<Rightarrow> int list \<Rightarrow> string \<Rightarrow> string \<Rightarrow> string \<Rightarrow> bool act" where
  "make_account kd salt username password role s =
     (let name = trim_space username in
      if name = [] \<or> \<not> valid_role role then (Inr False, s)
      else if account_of name s \<noteq> None then (Inr False, s)
      else case hash_password kd salt password of None \<Rightarrow> (Inl KdfFailed, s)
      | Some h \<Rightarrow>
          (Inr True, record_entry ''user_created'' [(''username'', JString name), (''role'', JString role)]
             (s\<lparr>au_users := au_users s @ [new_account name h role (au_now s)]\<rparr>)))"

definition create :: "kdf \<Rightarrow> int list \<Rightarrow> string \<Rightarrow> string \<Rightarrow> string \<Rightarrow> bool act" where
  "create kd salt username password role s =
     (if blank username \<or> length password < min_password \<or> \<not> valid_role role then (Inr False, s)
      else make_account kd salt username password role s)"

definition mark_break_glass :: "string \<Rightarrow> accounts \<Rightarrow> accounts" where
  "mark_break_glass name s =
     s\<lparr>au_break_glass := filter (\<lambda>(n, _). n \<noteq> name) (au_break_glass s) @ [(name, au_now s)]\<rparr>"

definition change_account :: "string \<Rightarrow> (account \<Rightarrow> account) \<Rightarrow> accounts \<Rightarrow> accounts" where
  "change_account name f s = s\<lparr>au_users := update_where (\<lambda>u. ac_name u = name) f (au_users s)\<rparr>"

definition drop_sessions :: "string \<Rightarrow> accounts \<Rightarrow> accounts" where
  "drop_sessions name s = s\<lparr>au_sessions := filter (\<lambda>x. sn_user x \<noteq> name) (au_sessions s)\<rparr>"

text \<open>Of the command line only: creates the account or resets its password.\<close>

definition set_password :: "kdf \<Rightarrow> int list \<Rightarrow> string \<Rightarrow> string \<Rightarrow> string \<Rightarrow> bool \<Rightarrow> bool act" where
  "set_password kd salt username password role weak s =
     (let name = trim_space username in
      if name = [] then (Inl NeedsName, s)
      else if length password < min_password \<and> \<not> weak then (Inl PasswordTooShort, s)
      else case account_of name s of
        None \<Rightarrow>
          (case make_account kd salt name password (if valid_role role then role else ''admin'') s of
             (Inl e, t) \<Rightarrow> (Inl e, t)
           | (Inr made, t) \<Rightarrow> (Inr made, mark_break_glass name t))
      | Some _ \<Rightarrow>
          (case hash_password kd salt password of None \<Rightarrow> (Inl KdfFailed, s)
           | Some h \<Rightarrow>
               (Inr False, record_entry ''password_reset'' [(''username'', JString name), (''by'', JString ''command line'')]
                  (drop_sessions name (mark_break_glass name (change_account name (\<lambda>u. u\<lparr>ac_hash := h\<rparr>) s))))))"

definition signup_open :: "string \<Rightarrow> accounts \<Rightarrow> bool" where
  "signup_open env s \<longleftrightarrow> count_role ''admin'' s = 0 \<or> trim_space env \<noteq> []"

text \<open>\<open>env\<close> is the joining code of the installation, \<open>given\<close> the one that was typed.\<close>

datatype registration = Registered bool | RegClosed | WrongCode | RegShort | NameTaken

definition register :: "kdf \<Rightarrow> int list \<Rightarrow> string \<Rightarrow> string \<Rightarrow> string \<Rightarrow> string \<Rightarrow> registration act" where
  "register kd salt env username password given s =
     (let fst_one = (count_role ''admin'' s = 0); code = trim_space env in
      if \<not> fst_one \<and> code = [] then (Inr RegClosed, s)
      else if code \<noteq> [] \<and> given \<noteq> code then (Inr WrongCode, s)
      else if length password < min_password then (Inr RegShort, s)
      else
        let role = (if fst_one then ''admin'' else ''viewer'') in
        case create kd salt username password role s of
          (Inl e, t) \<Rightarrow> (Inl e, t)
        | (Inr False, t) \<Rightarrow> (Inr NameTaken, t)
        | (Inr True, t) \<Rightarrow>
            (Inr (Registered fst_one),
             record_entry ''user_registered'' [(''username'', JString username), (''role'', JString role),
               (''first'', JBool fst_one)] t))"

definition set_role :: "string \<Rightarrow> string \<Rightarrow> unit act" where
  "set_role name role s =
     (if \<not> valid_role role then (Inl (NoRoleNamed role), s)
      else if account_of name s = None then (Inl (NoAccount name), s)
      else (Inr (), record_entry ''user_role_changed'' [(''username'', JString name), (''role'', JString role)]
              (change_account name (\<lambda>u. u\<lparr>ac_role := role\<rparr>) s)))"

definition delete_account :: "string \<Rightarrow> unit act" where
  "delete_account username s =
     (let name = trim_space username in
      case account_of name s of None \<Rightarrow> (Inl (NoAccount name), s)
      | Some u \<Rightarrow>
          if ac_role u = ''admin'' \<and> count_role ''admin'' s \<le> 1 then (Inl OnlyAdmin, s)
          else (Inr (), record_entry ''user_removed'' [(''username'', JString name), (''role'', JString (ac_role u))]
                  (drop_sessions name s\<lparr>au_users := filter (\<lambda>u. ac_name u \<noteq> name) (au_users s)\<rparr>)))"

section \<open>Signing in\<close>

text \<open>The lock after the n-th wrong password in a row, in seconds.\<close>

definition lock_seconds :: "int \<Rightarrow> int" where
  "lock_seconds failed = min 300 (10 * 2 ^ nat (min failed 5))"

definition miss :: "rat \<Rightarrow> account \<Rightarrow> account" where
  "miss now u =
     u\<lparr>ac_failed := wrap64 (ac_failed u + 1),
       ac_locked := (if wrap64 (ac_failed u + 1) \<ge> 3
                     then f64 (now + of_int (lock_seconds (wrap64 (ac_failed u + 1)))) else 0)\<rparr>"

text \<open>The account that signed in, or nothing with the one sentence every refusal says.\<close>

definition authenticate :: "kdf \<Rightarrow> string \<Rightarrow> string \<Rightarrow> account option act" where
  "authenticate kd username password s =
     (case account_of username s of None \<Rightarrow> (Inr None, s)
      | Some u \<Rightarrow>
          if ac_locked u > au_now s then (Inr None, s)
          else if \<not> verify_password kd password (ac_hash u) then
            (Inr None, record_entry ''login_failed'' [(''username'', JString username),
               (''attempt'', JInt (wrap64 (ac_failed u + 1)))] (change_account username (miss (au_now s)) s))
          else
            (Inr (Some u), change_account username
               (\<lambda>u. u\<lparr>ac_failed := 0, ac_locked := 0, ac_last := Some (au_now s)\<rparr>) s))"

definition authenticate_break_glass :: "kdf \<Rightarrow> string \<Rightarrow> string \<Rightarrow> account option act" where
  "authenticate_break_glass kd username password s =
     (if trim_space username \<notin> set (map fst (au_break_glass s)) then (Inr None, s)
      else authenticate kd username password s)"

section \<open>Sessions\<close>

definition octets :: "string \<Rightarrow> int list" where
  "octets s = map (\<lambda>c. int (byte c)) s"

definition session_key :: "string \<Rightarrow> string" where
  "session_key token = hex (sha256 (octets token))"

text \<open>\<open>base64.RawURLEncoding\<close>.\<close>

definition url_char :: "int \<Rightarrow> char" where
  "url_char n = ''ABCDEFGHIJKLMNOPQRSTUVWXYZabcdefghijklmnopqrstuvwxyz0123456789-_'' ! nat n"

fun url_base64 :: "int list \<Rightarrow> string" where
  "url_base64 (a # b # c # r) =
     url_char (a div 4) # url_char (a mod 4 * 16 + b div 16) # url_char (b mod 16 * 4 + c div 64) #
     url_char (c mod 64) # url_base64 r"
| "url_base64 [a, b] = [url_char (a div 4), url_char (a mod 4 * 16 + b div 16), url_char (b mod 16 * 4)]"
| "url_base64 [a] = [url_char (a div 4), url_char (a mod 4 * 16)]"
| "url_base64 [] = []"

definition start_session :: "int list \<Rightarrow> string \<Rightarrow> string act" where
  "start_session raw username s =
     (let token = url_base64 raw; now = au_now s;
          t = s\<lparr>au_sessions := filter (\<lambda>x. \<not> sn_expires x < now) (au_sessions s)\<rparr>
      in if session_key token \<in> set (map sn_key (au_sessions t)) then (Inl RowExists, t)
         else (Inr token, record_entry ''login'' [(''username'', JString username)]
                (t\<lparr>au_sessions := au_sessions t @ [\<lparr>sn_key = session_key token, sn_user = username,
                   sn_created = now, sn_expires = f64 (now + of_nat (session_hours * 3600))\<rparr>]\<rparr>)))"

definition session_rows :: "string \<Rightarrow> accounts \<Rightarrow> account list" where
  "session_rows token s =
     [u. x \<leftarrow> au_sessions s, u \<leftarrow> au_users s,
      ac_name u = sn_user x \<and> sn_key x = session_key token \<and> sn_expires x > au_now s]"

definition session_user :: "string \<Rightarrow> accounts \<Rightarrow> account option" where
  "session_user token s =
     (if token = [] then None else case session_rows token s of [] \<Rightarrow> None | u # _ \<Rightarrow> Some u)"

definition end_session :: "string \<Rightarrow> accounts \<Rightarrow> accounts" where
  "end_session token s =
     (if token = [] then s
      else case find (\<lambda>x. sn_key x = session_key token) (au_sessions s) of None \<Rightarrow> s
      | Some x \<Rightarrow>
          record_entry ''logout'' [(''username'', JString (sn_user x))]
            (s\<lparr>au_sessions := filter (\<lambda>x. sn_key x \<noteq> session_key token) (au_sessions s)\<rparr>))"

text \<open>\<open>hmac.New(sha256.New, key)\<close>.\<close>

definition hmac_sha256 :: "int list \<Rightarrow> int list \<Rightarrow> int list" where
  "hmac_sha256 key m =
     (let k = (if length key > 64 then sha256 key else key);
          p = map word_of_int (k @ replicate (64 - length k) 0) :: 8 word list;
          pad = (\<lambda>b. map (\<lambda>w. uint (xor w b)) p)
      in sha256 (pad 0x5C @ sha256 (pad 0x36 @ m)))"

definition csrf_token :: "string \<Rightarrow> accounts \<Rightarrow> string" where
  "csrf_token session s =
     take 32 (hex (hmac_sha256 (au_secret s) (octets (if session = [] then ''anon'' else session))))"

definition csrf_ok :: "string \<Rightarrow> string \<Rightarrow> accounts \<Rightarrow> bool" where
  "csrf_ok session given s \<longleftrightarrow> csrf_token session s = given"

section \<open>Accounts of an identity provider\<close>

definition external :: "string \<Rightarrow> accounts \<Rightarrow> bool" where
  "external name s \<longleftrightarrow> name \<in> set (map ie_user (au_identities s))"

definition unusable_password :: string where "unusable_password = ''external$$''"

definition linked_account :: "string \<Rightarrow> string \<Rightarrow> accounts \<Rightarrow> string option" where
  "linked_account iss sub s =
     map_option ie_user (find (\<lambda>i. ie_issuer i = iss \<and> ie_subject i = sub) (au_identities s))"

datatype external_answer = SignedIn account | NoAccess | ExternalNameTaken

definition refuse_external :: "string \<Rightarrow> string \<Rightarrow> string \<Rightarrow> string option \<Rightarrow> accounts \<Rightarrow> accounts" where
  "refuse_external iss sub name linked s =
     (case linked of
        None \<Rightarrow> record_entry ''external_access_refused'' [(''issuer'', JString iss), (''subject'', JString sub),
          (''username'', JString name), (''linked'', JBool False), (''sessions_ended'', JInt 0),
          (''reason'', JString ''no value of the roles claim maps to a role'')] s
      | Some n \<Rightarrow> record_entry ''external_access_refused'' [(''issuer'', JString iss), (''subject'', JString sub),
          (''username'', JString n), (''linked'', JBool True),
          (''sessions_ended'', JInt (int (length (filter (\<lambda>x. sn_user x = n) (au_sessions s))))),
          (''reason'', JString ''no value of the roles claim maps to a role'')]
          (drop_sessions n s))"

text \<open>The account of an identity that is linked to \<open>name\<close>, at the role the provider maps to now.\<close>

definition provider_account :: "string \<Rightarrow> string \<Rightarrow> string \<Rightarrow> accounts \<Rightarrow> accounts" where
  "provider_account iss name role s =
     (case account_of name s of
        None \<Rightarrow> record_entry ''user_created'' [(''username'', JString name), (''role'', JString role),
            (''by'', JString ''identity provider''), (''issuer'', JString iss)]
          (s\<lparr>au_users := au_users s @ [(new_account name unusable_password role (au_now s))\<lparr>ac_last := Some (au_now s)\<rparr>]\<rparr>)
      | Some u \<Rightarrow>
          change_account name (\<lambda>u. u\<lparr>ac_last := Some (au_now s)\<rparr>)
            (if ac_role u \<noteq> role then
               record_entry ''user_role_changed'' [(''username'', JString name), (''role'', JString role),
                 (''was'', JString (ac_role u)), (''by'', JString ''identity provider'')]
                 (change_account name (\<lambda>u. u\<lparr>ac_role := role\<rparr>) s)
             else s))"

definition admit_external :: "string \<Rightarrow> string \<Rightarrow> string \<Rightarrow> external_answer act" where
  "admit_external iss name role s =
     (let t = provider_account iss name role s in
      case account_of name t of None \<Rightarrow> (Inl AccountVanished, t) | Some u \<Rightarrow> (Inr (SignedIn u), t))"

text \<open>\<open>role\<close> is empty where the provider's claim maps to none.\<close>

definition sign_in_external :: "string \<Rightarrow> string \<Rightarrow> string \<Rightarrow> string \<Rightarrow> external_answer act" where
  "sign_in_external iss sub username role s =
     (let name = trim_space username; linked = linked_account iss sub s in
      if iss = [] \<or> sub = [] \<or> name = [] then (Inl ExternalNeeds, s)
      else if role \<noteq> [] \<and> \<not> valid_role role then (Inl ExternalBadRole, s)
      else if role = [] then (Inr NoAccess, refuse_external iss sub name linked s)
      else case linked of
        Some n \<Rightarrow> admit_external iss n role s
      | None \<Rightarrow>
          if account_of name s \<noteq> None \<or> external name s then
            (Inr ExternalNameTaken, record_entry ''external_access_refused'' [(''issuer'', JString iss),
               (''subject'', JString sub), (''username'', JString name), (''linked'', JBool False),
               (''reason'', JString ''another account already holds this name'')] s)
          else admit_external iss name role
                 (s\<lparr>au_identities := au_identities s @
                    [\<lparr>ie_issuer = iss, ie_subject = sub, ie_user = name, ie_linked = au_now s\<rparr>]\<rparr>))"

end
