(* ===== verification/Access.thy ===== *)
theory Access
  imports Accounts Rounding
begin

text \<open>
  Who may do what with accounts through the console: the handlers of \<open>internal/web\<close> that reach
  \<open>internal/auth\<close> (\<open>signupSubmit\<close>, \<open>loginSubmit\<close>, \<open>logout\<close>, \<open>accountAction\<close>, \<open>oidcCallback\<close>), every
  sequence of them, and what no sequence of them does. What the identity provider established about
  a person (\<open>sso.Provider.Finish\<close>) is an argument of the callback.
\<close>

section \<open>The handlers\<close>

datatype page_reply = ToEntry | Told string | ToldError auth_error | Plain | Unavailable | Cookie string | NotFoundPage
  | Printed bool | BadSpec

datatype account_form =
  CreateForm "int list" string string
| RemoveForm string
| RoleForm string

definition reload_page :: string where "reload_page = ''reload the page and try again''"

text \<open>\<open>done\<close>: the error of an action, or the page as it is.\<close>

definition told :: "(auth_error + unit) \<times> accounts \<Rightarrow> page_reply \<times> accounts" where
  "told x = (case x of (Inl e, t) \<Rightarrow> (ToldError e, t) | (Inr _, t) \<Rightarrow> (Plain, t))"

definition account_form_action :: "kdf \<Rightarrow> account \<Rightarrow> string \<Rightarrow> account_form \<Rightarrow> accounts \<Rightarrow> page_reply \<times> accounts" where
  "account_form_action kd u name form s =
     (case form of
        CreateForm salt password role \<Rightarrow>
          (case create kd salt name password role s of
             (Inl e, t) \<Rightarrow> (ToldError e, t)
           | (Inr made, t) \<Rightarrow>
               (if made then Plain else Told ''that name is taken, or the password is under ten characters'', t))
      | RemoveForm confirm \<Rightarrow>
          if confirm \<noteq> name then (Told ''to remove an account, type its name in the box beside the button'', s)
          else if name = ac_name u then
            (Told ''you cannot remove the account you are signed in as: ask another admin, or promote one first'', s)
          else told (delete_account name s)
      | RoleForm role \<Rightarrow>
          if name = ac_name u \<and> role \<noteq> ''admin'' \<and> count_role ''admin'' s \<le> 1 then
            (Told ''you are the only admin: promote somebody else first'', s)
          else told (set_role name role s))"

definition account_action :: "kdf \<Rightarrow> string \<Rightarrow> string \<Rightarrow> string \<Rightarrow> account_form \<Rightarrow> accounts \<Rightarrow> page_reply \<times> accounts" where
  "account_action kd cookie csrf username form s =
     (case session_user cookie s of None \<Rightarrow> (ToEntry, s)
      | Some u \<Rightarrow>
          if \<not> csrf_ok cookie csrf s then (Told reload_page, s)
          else if \<not> may (Some u) ''admin'' then (Told ''managing accounts is an admin's job'', s)
          else account_form_action kd u (trim_space username) form s)"

definition begin_session :: "int list \<Rightarrow> string \<Rightarrow> accounts \<Rightarrow> page_reply \<times> accounts" where
  "begin_session raw name s =
     (case start_session raw name s of (Inl _, t) \<Rightarrow> (Unavailable, t) | (Inr token, t) \<Rightarrow> (Cookie token, t))"

definition signup_open_here :: "bool \<Rightarrow> string \<Rightarrow> accounts \<Rightarrow> bool" where
  "signup_open_here oidc env s \<longleftrightarrow> \<not> oidc \<and> signup_open env s"

definition registration_told :: "registration \<Rightarrow> string" where
  "registration_told r =
     (case r of
        Registered True \<Rightarrow> ''this installation is yours: you are the admin''
      | Registered False \<Rightarrow> ''account created; an admin can raise your role''
      | RegClosed \<Rightarrow> ''registration is closed; ask an admin for an account''
      | WrongCode \<Rightarrow> ''that joining code is not right''
      | RegShort \<Rightarrow> ''choose a password of at least 10 characters''
      | NameTaken \<Rightarrow> ''that name is taken, or the password is too short'')"

definition signup_submit :: "kdf \<Rightarrow> bool \<Rightarrow> string \<Rightarrow> int list \<Rightarrow> int list \<Rightarrow> string \<Rightarrow> string \<Rightarrow> string \<Rightarrow> string \<Rightarrow> string \<Rightarrow>
    accounts \<Rightarrow> page_reply \<times> accounts" where
  "signup_submit kd oidc env salt raw cookie csrf username password code s =
     (if \<not> csrf_ok cookie csrf s then (Told reload_page, s)
      else if \<not> signup_open_here oidc env s then (Told ''registration is closed'', s)
      else case register kd salt env username password code s of
        (Inl _, t) \<Rightarrow> (Unavailable, t)
      | (Inr (Registered _), t) \<Rightarrow> begin_session raw (trim_space username) t
      | (Inr r, t) \<Rightarrow> (Told (registration_told r), t))"

definition login_refused :: string where
  "login_refused = ''could not sign in: the account name or the password is not right, '' @
     ''or there have been too many attempts; wait a few minutes before trying again''"

definition login_submit :: "kdf \<Rightarrow> bool \<Rightarrow> int list \<Rightarrow> string \<Rightarrow> string \<Rightarrow> string \<Rightarrow> string \<Rightarrow> accounts \<Rightarrow> page_reply \<times> accounts" where
  "login_submit kd only raw cookie csrf username password s =
     (if \<not> csrf_ok cookie csrf s then (Told reload_page, s)
      else case (if only then authenticate_break_glass kd username password s else authenticate kd username password s) of
        (Inl _, t) \<Rightarrow> (Unavailable, t)
      | (Inr None, t) \<Rightarrow> (Told login_refused, t)
      | (Inr (Some u), t) \<Rightarrow> begin_session raw (ac_name u) t)"

definition external_told :: "external_answer \<Rightarrow> string" where
  "external_told a =
     (case a of NoAccess \<Rightarrow> ''your organisation's sign-in does not give you access to this console''
      | ExternalNameTaken \<Rightarrow> ''an account with that name already exists here and is not linked to '' @
          ''your organisation's sign-in; ask an admin''
      | SignedIn _ \<Rightarrow> [])"

definition oidc_callback :: "bool \<Rightarrow> int list \<Rightarrow> string \<Rightarrow> string \<Rightarrow> string \<Rightarrow> string \<Rightarrow> accounts \<Rightarrow> page_reply \<times> accounts" where
  "oidc_callback oidc raw iss sub username role s =
     (if \<not> oidc then (NotFoundPage, s)
      else case sign_in_external iss sub username role s of
        (Inl _, t) \<Rightarrow> (Unavailable, t)
      | (Inr (SignedIn u), t) \<Rightarrow> begin_session raw (ac_name u) t
      | (Inr a, t) \<Rightarrow> (Told (external_told a), t))"

section \<open>The command line\<close>

text \<open>
  \<open>setPassword\<close> of \<open>cmd/costcrew/main.go\<close>, behind \<open>-set-password NAME:PASSWORD\<close>, \<open>-set-role\<close> and
  \<open>-allow-weak-password\<close>. It needs no session and may run beside the server.
\<close>

definition password_command :: "kdf \<Rightarrow> int list \<Rightarrow> string \<Rightarrow> string \<Rightarrow> bool \<Rightarrow> accounts \<Rightarrow> page_reply \<times> accounts" where
  "password_command kd salt spec role weak s =
     (if CHR '':'' \<notin> set spec then (BadSpec, s)
      else case cut_at (CHR '':'') spec of (name, password) \<Rightarrow>
        (case set_password kd salt name password role weak s of
           (Inl e, t) \<Rightarrow> (ToldError e, t) | (Inr created, t) \<Rightarrow> (Printed created, t)))"

section \<open>Requests in sequence\<close>

text \<open>One request or command, with the random bytes it draws, or time passing.\<close>

datatype web_event =
  Signup "int list" "int list" string string string string string
| Login "int list" string string string string
| Logout string
| Manage string string string account_form
| Callback "int list" string string string string
| Command "int list" string string bool
| Tick rat

fun serve :: "kdf \<Rightarrow> bool \<Rightarrow> bool \<Rightarrow> string \<Rightarrow> web_event \<Rightarrow> accounts \<Rightarrow> page_reply \<times> accounts" where
  "serve kd oidc only env (Signup salt raw cookie csrf name password code) s =
     signup_submit kd oidc env salt raw cookie csrf name password code s"
| "serve kd oidc only env (Login raw cookie csrf name password) s =
     login_submit kd (oidc \<and> only) raw cookie csrf name password s"
| "serve kd oidc only env (Logout cookie) s = (ToEntry, end_session cookie s)"
| "serve kd oidc only env (Manage cookie csrf name form) s = account_action kd cookie csrf name form s"
| "serve kd oidc only env (Callback raw iss sub name role) s = oidc_callback oidc raw iss sub name role s"
| "serve kd oidc only env (Command salt spec role weak) s = password_command kd salt spec role weak s"
| "serve kd oidc only env (Tick now) s = (Plain, s\<lparr>au_now := now\<rparr>)"

inductive served :: "kdf \<Rightarrow> bool \<Rightarrow> bool \<Rightarrow> string \<Rightarrow> accounts \<Rightarrow> accounts \<Rightarrow> bool"
  for kd oidc only env s where
  start: "served kd oidc only env s s"
| request: "served kd oidc only env s t \<Longrightarrow> serve kd oidc only env e t = (r, t') \<Longrightarrow> served kd oidc only env s t'"

section \<open>What each operation leaves of the tables\<close>

lemma record_entry_keeps [simp]:
  "au_users (record_entry w d s) = au_users s" "au_sessions (record_entry w d s) = au_sessions s"
  "au_identities (record_entry w d s) = au_identities s" "au_break_glass (record_entry w d s) = au_break_glass s"
  "au_now (record_entry w d s) = au_now s" "au_secret (record_entry w d s) = au_secret s"
  "account_of n (record_entry w d s) = account_of n s" "count_role x (record_entry w d s) = count_role x s"
  by (simp_all add: record_entry_def account_of_def count_role_def)

lemma drop_sessions_keeps [simp]:
  "au_users (drop_sessions n s) = au_users s" "au_identities (drop_sessions n s) = au_identities s"
  "au_sessions (drop_sessions n s) = filter (\<lambda>x. sn_user x \<noteq> n) (au_sessions s)"
  by (simp_all add: drop_sessions_def)

lemma change_account_keeps [simp]:
  "au_users (change_account n f s) = update_where (\<lambda>u. ac_name u = n) f (au_users s)"
  "au_sessions (change_account n f s) = au_sessions s" "au_identities (change_account n f s) = au_identities s"
  by (simp_all add: change_account_def)

lemma mark_break_glass_keeps [simp]:
  "au_users (mark_break_glass n s) = au_users s" "au_sessions (mark_break_glass n s) = au_sessions s"
  by (simp_all add: mark_break_glass_def)

lemma account_of_SomeD: "account_of n s = Some u \<Longrightarrow> u \<in> set (au_users s) \<and> ac_name u = n"
proof -
  assume "account_of n s = Some u"
  then obtain i where "i < length (au_users s)" "au_users s ! i = u" "ac_name u = n"
    unfolding account_of_def find_Some_iff by blast
  then show ?thesis using nth_mem [of i "au_users s"] by simp
qed

lemma account_of_None: "account_of n s = None \<longleftrightarrow> n \<notin> ac_name ` set (au_users s)"
  by (auto simp: account_of_def find_None_iff)

lemma session_user_SomeD:
  assumes "session_user token s = Some u"
  shows "u \<in> set (au_users s) \<and>
    (\<exists>x \<in> set (au_sessions s). sn_user x = ac_name u \<and> sn_key x = session_key token \<and> sn_expires x > au_now s)"
proof -
  from assms have "u \<in> set (session_rows token s)"
    by (auto simp: session_user_def split: if_splits list.splits)
  then show ?thesis by (auto simp: session_rows_def)
qed

lemma map_update_name [simp]:
  "(\<And>u. ac_name (f u) = ac_name u) \<Longrightarrow> map ac_name (update_where p f us) = map ac_name us"
  by (simp add: update_where_def)

text \<open>The users after an operation: as they were, one more, or one of them changed.\<close>

lemma make_account_users:
  assumes "make_account kd salt name password role s = (r, t)"
  shows "au_users t = au_users s \<or>
    (\<exists>u. au_users t = au_users s @ [u] \<and> ac_name u \<notin> ac_name ` set (au_users s) \<and> ac_role u = role \<and>
       ac_name u = trim_space name)"
  using assms
  by (auto simp: make_account_def Let_def account_of_None new_account_def split: if_splits option.splits)

lemma create_users:
  assumes "create kd salt name password role s = (r, t)"
  shows "au_users t = au_users s \<or>
    (\<exists>u. au_users t = au_users s @ [u] \<and> ac_name u \<notin> ac_name ` set (au_users s) \<and> ac_role u = role \<and>
       ac_name u = trim_space name)"
  using assms make_account_users by (fastforce simp: create_def split: if_splits)

lemma register_users:
  assumes "register kd salt env name password given s = (r, t)"
  shows "au_users t = au_users s \<or>
    (\<exists>u. au_users t = au_users s @ [u] \<and> ac_name u \<notin> ac_name ` set (au_users s) \<and>
       ac_role u = (if count_role ''admin'' s = 0 then ''admin'' else ''viewer'') \<and> ac_name u = trim_space name)"
proof (cases "create kd salt name password (if count_role ''admin'' s = 0 then ''admin'' else ''viewer'') s")
  case (Pair r' t')
  then have "au_users t = au_users s \<or> au_users t = au_users t'"
    using assms by (auto simp: register_def Let_def split: if_splits sum.splits bool.splits)
  with create_users [OF Pair] show ?thesis by auto
qed

definition same_roles :: "accounts \<Rightarrow> accounts \<Rightarrow> bool" where
  "same_roles s t \<longleftrightarrow> map (\<lambda>u. (ac_name u, ac_role u)) (au_users t) = map (\<lambda>u. (ac_name u, ac_role u)) (au_users s)"

text \<open>The command line makes a missing account, at the admin's role where the one asked for is unknown.\<close>

lemma set_password_users:
  assumes "set_password kd salt name password role weak s = (r, t)"
  shows "same_roles s t \<or>
    (\<exists>u. au_users t = au_users s @ [u] \<and> ac_name u \<notin> ac_name ` set (au_users s) \<and>
       ac_role u = (if valid_role role then role else ''admin'') \<and> ac_name u = trim_space name)"
proof (cases "account_of (trim_space name) s")
  case None
  let ?m = "make_account kd salt (trim_space name) password (if valid_role role then role else ''admin'') s"
  obtain q t' where m: "?m = (q, t')" by (cases ?m)
  have "t = s \<or> au_users t = au_users t'"
    using assms None m by (auto simp: set_password_def Let_def split: if_splits sum.splits)
  then show ?thesis
    using make_account_users [OF m] by (auto simp: same_roles_def trim_space_idem)
next
  case (Some u)
  then show ?thesis
    using assms by (auto simp: set_password_def Let_def same_roles_def update_where_def split: if_splits option.splits)
qed

lemma password_command_users:
  assumes "password_command kd salt spec role weak s = (r, t)"
  obtains "same_roles s t"
  | u where "au_users t = au_users s @ [u]" "ac_name u \<notin> ac_name ` set (au_users s)"
      "ac_role u = (if valid_role role then role else ''admin'')" "ac_name u = trim_space (fst (cut_at (CHR '':'') spec))"
proof (cases "CHR '':'' \<in> set spec")
  case False
  with assms that(1) show thesis by (simp add: password_command_def same_roles_def)
next
  case True
  obtain name password where c: "cut_at (CHR '':'') spec = (name, password)" by fastforce
  obtain q t' where q: "set_password kd salt name password role weak s = (q, t')"
    by (cases "set_password kd salt name password role weak s")
  have "t = t'" using assms True by (auto simp: password_command_def c q split: sum.splits)
  with set_password_users [OF q] that c show thesis by auto
qed

lemma begin_session_users [simp]: "au_users (snd (begin_session raw n s)) = au_users s"
  by (auto simp: begin_session_def start_session_def Let_def split: if_splits)

lemma signup_users:
  "register kd salt env name password code s = (q, t) \<Longrightarrow>
   au_users (snd (signup_submit kd oidc env salt raw cookie csrf name password code s)) = au_users s \<or>
   au_users (snd (signup_submit kd oidc env salt raw cookie csrf name password code s)) = au_users t"
  by (simp add: signup_submit_def split: sum.split registration.split)

lemma end_session_users [simp]: "au_users (end_session token s) = au_users s"
  by (auto simp: end_session_def split: option.split)

lemma authenticate_roles: "authenticate kd name password s = (r, t) \<Longrightarrow> same_roles s t"
  by (auto simp: authenticate_def same_roles_def update_where_def miss_def Let_def split: option.splits if_splits)

lemma login_roles: "same_roles s (snd (login_submit kd only raw cookie csrf name password s))"
proof -
  have "same_roles s t" if "(if only then authenticate_break_glass kd name password s else authenticate kd name password s) = (r, t)"
    for r t
    using that authenticate_roles
    by (auto simp: authenticate_break_glass_def same_roles_def split: if_splits)
  then show ?thesis
    by (auto simp: login_submit_def same_roles_def split: prod.split sum.split option.split)
qed

section \<open>Somebody who can manage the installation\<close>

definition has_admin :: "accounts \<Rightarrow> bool" where
  "has_admin s \<longleftrightarrow> (\<exists>u \<in> set (au_users s). ac_role u = ''admin'')"

definition names_apart :: "accounts \<Rightarrow> bool" where
  "names_apart s \<longleftrightarrow> distinct (map ac_name (au_users s))"

lemma has_admin_count: "has_admin s \<longleftrightarrow> 0 < count_role ''admin'' s"
  by (auto simp: has_admin_def count_role_def filter_empty_conv)

lemma has_admin_roles: "has_admin s \<longleftrightarrow> ''admin'' \<in> snd ` set (map (\<lambda>u. (ac_name u, ac_role u)) (au_users s))"
  by (force simp: has_admin_def)

lemma names_apart_roles: "names_apart s \<longleftrightarrow> distinct (map fst (map (\<lambda>u. (ac_name u, ac_role u)) (au_users s)))"
  by (simp add: names_apart_def comp_def)

lemma same_roles_keeps:
  "same_roles s t \<Longrightarrow> has_admin t \<longleftrightarrow> has_admin s" "same_roles s t \<Longrightarrow> names_apart t \<longleftrightarrow> names_apart s"
  by (simp_all only: has_admin_roles names_apart_roles same_roles_def)

lemma same_users_keeps:
  assumes "au_users t = au_users s"
  shows "has_admin t \<longleftrightarrow> has_admin s" and "names_apart t \<longleftrightarrow> names_apart s"
  using assms by (simp_all add: has_admin_def names_apart_def)

lemma one_more_keeps:
  assumes "au_users t = au_users s \<or> (\<exists>u. au_users t = au_users s @ [u] \<and> ac_name u \<notin> ac_name ` set (au_users s) \<and> P u)"
  shows "has_admin s \<Longrightarrow> has_admin t" and "names_apart s \<Longrightarrow> names_apart t"
  using assms by (auto simp: has_admin_def names_apart_def)

text \<open>Of two admins with different names at least one is not the one that is being changed.\<close>

lemma another_admin:
  assumes "names_apart s" and "1 < count_role ''admin'' s"
  shows "\<exists>u \<in> set (au_users s). ac_role u = ''admin'' \<and> ac_name u \<noteq> n"
proof (rule ccontr)
  let ?as = "filter (\<lambda>u. ac_role u = ''admin'') (au_users s)"
  assume "\<not> ?thesis"
  then have "set (map ac_name ?as) \<subseteq> {n}" by auto
  then have "card (set (map ac_name ?as)) \<le> card {n}" by (intro card_mono) simp_all
  moreover have "distinct (map ac_name ?as)" using assms(1) by (simp add: names_apart_def distinct_map_filter)
  then have "card (set (map ac_name ?as)) = length (map ac_name ?as)" by (rule distinct_card)
  then have "card (set (map ac_name ?as)) = count_role ''admin'' s" by (simp add: count_role_def)
  ultimately show False using assms(2) by simp
qed

lemma form_keeps:
  assumes "names_apart s" and "u \<in> set (au_users s)" and "ac_role u = ''admin''" and "trim_space n = n"
  shows "has_admin (snd (account_form_action kd u n form s)) \<and> names_apart (snd (account_form_action kd u n form s))"
proof (cases form)
  case (CreateForm salt password role)
  obtain r t where c: "create kd salt n password role s = (r, t)" by (cases "create kd salt n password role s")
  have "has_admin s" using assms(2,3) by (auto simp: has_admin_def)
  with one_more_keeps [OF create_users [OF c]] assms(1) show ?thesis
    by (auto simp: account_form_action_def CreateForm c split: sum.split)
next
  case (RemoveForm confirm)
  let ?t = "snd (account_form_action kd u n form s)"
  have "au_users ?t = au_users s \<or> n \<noteq> ac_name u \<and> au_users ?t = filter (\<lambda>v. ac_name v \<noteq> n) (au_users s)"
    by (auto simp: account_form_action_def RemoveForm told_def delete_account_def assms(4) split: option.split)
  then have "u \<in> set (au_users ?t)" "names_apart ?t"
    using assms(1,2) by (auto simp: names_apart_def distinct_map_filter)
  then show ?thesis using assms(3) by (auto simp: has_admin_def)
next
  case (RoleForm role)
  let ?t = "snd (account_form_action kd u n form s)"
  show ?thesis
  proof (cases "au_users ?t = au_users s")
    case True
    then show ?thesis using assms(1-3) by (auto simp: has_admin_def names_apart_def)
  next
    case False
    have t: "au_users ?t = update_where (\<lambda>v. ac_name v = n) (\<lambda>v. v\<lparr>ac_role := role\<rparr>) (au_users s)"
      and c: "\<not> (n = ac_name u \<and> role \<noteq> ''admin'' \<and> count_role ''admin'' s \<le> 1)"
      using False by (auto simp: account_form_action_def RoleForm told_def set_role_def split: if_splits)
    obtain v where v: "v \<in> set (au_users s)" "ac_role v = ''admin''" "ac_name v \<noteq> n \<or> role = ''admin''"
      using c another_admin [OF assms(1), of n] assms(2,3) by (cases "n = ac_name u") (auto simp: not_le)
    then have "(if ac_name v = n then v\<lparr>ac_role := role\<rparr> else v) \<in> set (au_users ?t)"
      unfolding t update_where_def by (simp add: image_iff) blast
    then have "has_admin ?t" unfolding has_admin_def
      by (rule rev_bexI) (use v in auto)
    moreover have "names_apart ?t" using assms(1) by (simp add: names_apart_def t)
    ultimately show ?thesis ..
  qed
qed

section \<open>Where the admin's role comes from\<close>

definition is_admin :: "string \<Rightarrow> accounts \<Rightarrow> bool" where
  "is_admin n s \<longleftrightarrow> (\<exists>u \<in> set (au_users s). ac_name u = n \<and> ac_role u = ''admin'')"

lemma is_admin_roles: "is_admin n s \<longleftrightarrow> (n, ''admin'') \<in> set (map (\<lambda>u. (ac_name u, ac_role u)) (au_users s))"
  by (force simp: is_admin_def)

lemma same_roles_admin: "same_roles s t \<Longrightarrow> is_admin n t \<longleftrightarrow> is_admin n s"
  by (simp only: is_admin_roles same_roles_def)

lemma is_admin_change:
  assumes "\<And>u. ac_name (f u) = ac_name u" and "\<And>u. ac_role (f u) = ''admin'' \<Longrightarrow> ac_role u = ''admin''"
  shows "is_admin n (change_account m f s) \<Longrightarrow> is_admin n s"
  using assms by (auto simp: is_admin_def update_where_def split: if_splits)

lemma provider_account_admin:
  assumes "role \<noteq> ''admin''" and "is_admin n (provider_account iss name role s)"
  shows "is_admin n s"
proof (cases "account_of name s")
  case None
  with assms show ?thesis by (auto simp: provider_account_def is_admin_def new_account_def)
next
  case (Some u)
  let ?r = "change_account name (\<lambda>u. u\<lparr>ac_role := role\<rparr>) s"
  from assms(2) have "is_admin n (if ac_role u \<noteq> role then
      record_entry ''user_role_changed'' [(''username'', JString name), (''role'', JString role),
        (''was'', JString (ac_role u)), (''by'', JString ''identity provider'')] ?r else s)"
    unfolding provider_account_def Some option.case by (rule is_admin_change [rotated 2]) simp_all
  then have "is_admin n ?r \<or> is_admin n s" by (auto simp: is_admin_def split: if_splits)
  then show ?thesis by (rule disjE) (rule is_admin_change [where m = name], use assms(1) in auto)
qed

lemma admit_external_state: "snd (admit_external iss name role s) = provider_account iss name role s"
  by (simp add: admit_external_def Let_def split: option.split)

lemma begin_session_admin [simp]: "is_admin n (snd (begin_session raw m s)) = is_admin n s"
  by (simp add: is_admin_def)

lemma refuse_external_users [simp]: "au_users (refuse_external iss sub m l s) = au_users s"
  by (simp add: refuse_external_def split: option.split)

lemma sign_in_external_state:
  "au_users (snd (sign_in_external iss sub name role s)) = au_users s \<or>
   (\<exists>m is. snd (sign_in_external iss sub name role s) = provider_account iss m role (s\<lparr>au_identities := is\<rparr>))"
proof (cases "linked_account iss sub s")
  case None
  then show ?thesis by (auto simp: sign_in_external_def Let_def admit_external_state)
next
  case (Some n)
  have "s = s\<lparr>au_identities := au_identities s\<rparr>" by simp
  then have "\<exists>m is. provider_account iss n role s = provider_account iss m role (s\<lparr>au_identities := is\<rparr>)" by metis
  then show ?thesis using Some by (auto simp: sign_in_external_def Let_def admit_external_state)
qed

lemma sign_in_external_admin:
  assumes "role \<noteq> ''admin''" and "is_admin n (snd (sign_in_external iss sub name role s))"
  shows "is_admin n s"
proof -
  from sign_in_external_state [of iss sub name role s] show ?thesis
  proof
    assume "au_users (snd (sign_in_external iss sub name role s)) = au_users s"
    with assms(2) show ?thesis by (simp add: is_admin_def)
  next
    assume "\<exists>m is. snd (sign_in_external iss sub name role s) = provider_account iss m role (s\<lparr>au_identities := is\<rparr>)"
    then obtain m ids where "is_admin n (provider_account iss m role (s\<lparr>au_identities := ids\<rparr>))" using assms(2) by auto
    from provider_account_admin [OF assms(1) this] show ?thesis by (simp add: is_admin_def)
  qed
qed

lemma callback_users:
  "au_users (snd (oidc_callback oidc raw iss sub name role s)) = au_users s \<or>
   au_users (snd (oidc_callback oidc raw iss sub name role s)) = au_users (snd (sign_in_external iss sub name role s))"
  by (simp add: oidc_callback_def split: prod.split sum.split external_answer.split)

text \<open>Names stay apart when the provider's account is made or changed, and an admin's role stays one.\<close>

lemma provider_names: "names_apart s \<Longrightarrow> names_apart (provider_account iss name role s)"
  by (auto simp: names_apart_def provider_account_def new_account_def account_of_None split: option.split)

lemma provider_admin: "has_admin (provider_account iss name ''admin'' s)"
proof (cases "account_of name s")
  case None
  then show ?thesis by (simp add: has_admin_def provider_account_def new_account_def)
next
  case (Some u)
  let ?f = "\<lambda>u. u\<lparr>ac_last := Some (au_now s)\<rparr>" and ?g = "\<lambda>u. u\<lparr>ac_role := ''admin''\<rparr>"
  have u: "u \<in> set (au_users s)" "ac_name u = name" using account_of_SomeD [OF Some] by auto
  then have "?f u \<in> set (update_where (\<lambda>u. ac_name u = name) ?f (au_users s))"
    "?f (?g u) \<in> set (update_where (\<lambda>u. ac_name u = name) ?f (update_where (\<lambda>u. ac_name u = name) ?g (au_users s)))"
    by (force simp: update_where_def)+
  then show ?thesis
    by (cases "ac_role u = ''admin''") (auto simp: has_admin_def provider_account_def Some intro: rev_bexI)
qed

lemma sign_in_external_keeps:
  shows "names_apart s \<Longrightarrow> names_apart (snd (sign_in_external iss sub name role s))"
    and "has_admin s \<Longrightarrow> role = ''admin'' \<Longrightarrow> has_admin (snd (sign_in_external iss sub name role s))"
proof -
  have i: "names_apart (s\<lparr>au_identities := is\<rparr>) = names_apart s" for "is" by (simp add: names_apart_def)
  from sign_in_external_state [of iss sub name role s]
  show "names_apart s \<Longrightarrow> names_apart (snd (sign_in_external iss sub name role s))"
    and "has_admin s \<Longrightarrow> role = ''admin'' \<Longrightarrow> has_admin (snd (sign_in_external iss sub name role s))"
    using provider_names i provider_admin same_users_keeps by metis+
qed

section \<open>An admin is kept, and where one is not\<close>

text \<open>Every event but a callback keeps an admin, and every event keeps the names apart.\<close>

lemma signup_state:
  assumes "t = snd (signup_submit kd oidc env salt raw cookie csrf name password code s)"
  shows "au_users t = au_users s \<or>
    (\<exists>u. au_users t = au_users s @ [u] \<and> ac_name u \<notin> ac_name ` set (au_users s) \<and>
       ac_role u = (if count_role ''admin'' s = 0 then ''admin'' else ''viewer'') \<and> ac_name u = trim_space name)"
proof -
  obtain q t' where q: "register kd salt env name password code s = (q, t')"
    by (cases "register kd salt env name password code s")
  have "au_users t = au_users s \<or> au_users t = au_users t'" using signup_users [OF q] assms by blast
  with register_users [OF q] show ?thesis by auto
qed

lemma serve_names:
  assumes "serve kd oidc only env e s = (r, t)" and "names_apart s"
  shows "names_apart t"
proof (cases e)
  case (Signup salt raw cookie csrf name password code)
  then have "t = snd (signup_submit kd oidc env salt raw cookie csrf name password code s)" using assms(1) by simp
  from one_more_keeps(2) [OF signup_state [OF this] assms(2)] show ?thesis .
next
  case (Login raw cookie csrf name password)
  then have "t = snd (login_submit kd (oidc \<and> only) raw cookie csrf name password s)" using assms(1) by simp
  then show ?thesis using login_roles same_roles_keeps(2) assms(2) by metis
next
  case (Manage cookie csrf name form)
  show ?thesis
  proof (cases "account_action kd cookie csrf name form s = (r, s)")
    case False
    then obtain u where "session_user cookie s = Some u" "may (Some u) ''admin''"
      and t: "t = snd (account_form_action kd u (trim_space name) form s)"
      using assms(1) by (auto simp: Manage account_action_def split_pairs split: option.splits if_splits)
    moreover from this have "ac_role u = ''admin''" by (auto simp: may_def rank_def split: if_splits)
    ultimately show ?thesis using form_keeps [OF assms(2)] session_user_SomeD trim_space_idem by blast
  qed (use assms Manage in auto)
next
  case (Callback raw iss sub name role)
  then have "t = snd (oidc_callback oidc raw iss sub name role s)" using assms(1) by simp
  then show ?thesis
    using callback_users [of oidc raw iss sub name role s] sign_in_external_keeps(1) [OF assms(2)] assms(2)
    by (metis same_users_keeps(2))
next
  case (Command salt spec role weak)
  with assms have "password_command kd salt spec role weak s = (r, t)" by simp
  then show ?thesis
  proof (cases rule: password_command_users)
    case 1
    from same_roles_keeps(2) [OF this] show ?thesis using assms(2) by simp
  next
    case (2 u)
    then show ?thesis using assms(2) by (simp add: names_apart_def)
  qed
qed (use assms in \<open>auto simp: names_apart_def\<close>)

lemma serve_keeps_admin:
  assumes "serve kd oidc only env e s = (r, t)" and "has_admin s" and "names_apart s" and "\<not> has_admin t"
  shows "oidc \<and> (\<exists>raw iss sub name role. e = Callback raw iss sub name role \<and> role \<noteq> ''admin'')"
proof (cases e)
  case (Signup salt raw cookie csrf name password code)
  then have "t = snd (signup_submit kd oidc env salt raw cookie csrf name password code s)" using assms(1) by simp
  from one_more_keeps(1) [OF signup_state [OF this] assms(2)] show ?thesis using assms(4) by simp
next
  case (Login raw cookie csrf name password)
  then have "t = snd (login_submit kd (oidc \<and> only) raw cookie csrf name password s)" using assms(1) by simp
  then show ?thesis using login_roles same_roles_keeps(1) assms(2,4) by metis
next
  case (Manage cookie csrf name form)
  show ?thesis
  proof (cases "account_action kd cookie csrf name form s = (r, s)")
    case False
    then obtain u where "session_user cookie s = Some u" "may (Some u) ''admin''"
      and t: "t = snd (account_form_action kd u (trim_space name) form s)"
      using assms(1) by (auto simp: Manage account_action_def split_pairs split: option.splits if_splits)
    moreover from this have "ac_role u = ''admin''" by (auto simp: may_def rank_def split: if_splits)
    ultimately show ?thesis using form_keeps [OF assms(3)] session_user_SomeD trim_space_idem assms(4) by blast
  qed (use assms Manage in auto)
next
  case (Callback raw iss sub name role)
  then have t: "t = snd (oidc_callback oidc raw iss sub name role s)" using assms(1) by simp
  then have "oidc" using assms(2,4) by (cases oidc) (simp_all add: oidc_callback_def)
  moreover have "role \<noteq> ''admin''"
    using t callback_users [of oidc raw iss sub name role s] sign_in_external_keeps(2) [OF assms(2)] assms(2,4)
    by (metis same_users_keeps(1))
  ultimately show ?thesis using Callback by blast
next
  case (Command salt spec role weak)
  with assms have "password_command kd salt spec role weak s = (r, t)" by simp
  then show ?thesis
  proof (cases rule: password_command_users)
    case 1
    from same_roles_keeps(1) [OF this] show ?thesis using assms(2,4) by simp
  next
    case (2 u)
    then show ?thesis using assms(2,4) by (simp add: has_admin_def)
  qed
qed (use assms in \<open>auto simp: has_admin_def\<close>)

text \<open>
  C24. An installation that has an admin, whatever requests, callbacks and commands it serves and in
  whatever order, keeps one or lost it to its identity provider, which gave the last admin another
  role in a callback; without a provider it always keeps one. And without a joining code registration
  is not open after any of it: in neither case can somebody who reaches the port become the admin.
\<close>

theorem admin_is_never_lost:
  assumes "served kd oidc only env s t" and "has_admin s" and "names_apart s" and "blank env"
  shows "names_apart t \<and> \<not> signup_open_here oidc env t \<and>
    (has_admin t \<or>
     oidc \<and> (\<exists>u v raw iss sub name role r. served kd oidc only env s u \<and> has_admin u \<and> role \<noteq> ''admin'' \<and>
       serve kd oidc only env (Callback raw iss sub name role) u = (r, v) \<and> \<not> has_admin v \<and>
       served kd oidc only env v t))"
proof -
  let ?lost = "\<lambda>t. oidc \<and> (\<exists>u v raw iss sub name role r. served kd oidc only env s u \<and> has_admin u \<and> role \<noteq> ''admin'' \<and>
       serve kd oidc only env (Callback raw iss sub name role) u = (r, v) \<and> \<not> has_admin v \<and>
       served kd oidc only env v t)"
  from assms(1) have k: "names_apart t \<and> (has_admin t \<or> ?lost t)"
  proof (induction rule: served.induct)
    case start
    then show ?case using assms(2,3) by simp
  next
    case (request t e r t')
    have n: "names_apart t'" using serve_names request.hyps(2) request.IH by blast
    show ?case
    proof (cases "has_admin t")
      case True
      have "?lost t'" if lost: "\<not> has_admin t'"
      proof -
        have "names_apart t" using request.IH by blast
        from serve_keeps_admin [OF request.hyps(2) True this lost] obtain raw iss sub name role
          where "oidc" "e = Callback raw iss sub name role" "role \<noteq> ''admin''" by blast
        with request.hyps True lost served.start [of kd oidc only env t'] show ?thesis by blast
      qed
      with n show ?thesis by blast
    next
      case False
      then have "?lost t" using request.IH by blast
      then obtain u v raw iss sub name role q where l: "oidc" "served kd oidc only env s u" "has_admin u" "role \<noteq> ''admin''"
        "serve kd oidc only env (Callback raw iss sub name role) u = (q, v)" "\<not> has_admin v" "served kd oidc only env v t"
        by blast
      then have "?lost t'" using served.request [OF l(7) request.hyps(2)] by blast
      with n show ?thesis by blast
    qed
  qed
  moreover have "\<not> signup_open_here oidc env t"
    using k assms(4) by (auto simp: signup_open_here_def signup_open_def has_admin_count blank_def)
  ultimately show ?thesis by blast
qed

definition demo_admin :: account where
  "demo_admin = (new_account ''ana'' [] ''admin'' 0)"

definition demo_accounts :: accounts where
  "demo_accounts = \<lparr>au_users = [demo_admin], au_sessions = [], au_identities = [], au_break_glass = [], au_log = [],
     au_now = 1000, au_secret = [1, 2, 3]\<rparr>"

text \<open>
  An only admin who is signed in and gives the role up, without a provider; and one whom the provider
  sends back as a viewer.
\<close>

definition demo_kd :: kdf where
  "demo_kd = \<lparr>kd_scrypt = \<lambda>p _ _ _ _ _. Some (octets p), kd_pbkdf2 = \<lambda>_ _ _ _. []\<rparr>"

definition signed_in_console :: accounts where
  "signed_in_console = demo_accounts\<lparr>
     au_sessions := [\<lparr>sn_key = session_key ''tok'', sn_user = ''ana'', sn_created = 900, sn_expires = 44100\<rparr>],
     au_identities := [\<lparr>ie_issuer = ''idp'', ie_subject = ''7'', ie_user = ''ana'', ie_linked = 800\<rparr>]\<rparr>"

definition give_up :: web_event where
  "give_up = Manage ''tok'' (csrf_token ''tok'' signed_in_console) ''ana'' (RoleForm ''viewer'')"

definition come_back :: web_event where
  "come_back = Callback [1, 2, 3] ''idp'' ''7'' ''ana'' ''viewer''"

lemma demo_trim: "trim_space ''ana'' = ''ana''"
  by (simp add: trim_space_solid solid_def byte_def)

lemma come_back_demotes: "\<not> has_admin (snd (serve demo_kd True False [] come_back signed_in_console))"
proof -
  have "au_users (snd (serve demo_kd True False [] come_back signed_in_console)) =
      au_users (snd (sign_in_external ''idp'' ''7'' ''ana'' ''viewer'' signed_in_console))"
    by (simp add: come_back_def oidc_callback_def split: prod.split sum.split external_answer.split)
  moreover have "\<not> has_admin (snd (sign_in_external ''idp'' ''7'' ''ana'' ''viewer'' signed_in_console))"
    by (simp add: sign_in_external_def Let_def demo_trim signed_in_console_def demo_accounts_def linked_account_def
        admit_external_state provider_account_def account_of_def demo_admin_def new_account_def valid_role_def
        has_admin_def update_where_def)
  ultimately show ?thesis by (simp add: has_admin_def)
qed

theorem admin_is_never_lost_witness:
  "has_admin (snd (serve demo_kd False False [] give_up signed_in_console)) \<and>
   \<not> has_admin (snd (serve demo_kd True False [] come_back signed_in_console)) \<and>
   \<not> signup_open_here True [] (snd (serve demo_kd True False [] come_back signed_in_console))"
proof -
  have s: "served demo_kd b False [] signed_in_console (snd (serve demo_kd b False [] e signed_in_console))" for b e
    by (rule served.request [OF served.start prod.collapse [symmetric]])
  have "has_admin signed_in_console" "names_apart signed_in_console" "blank []"
    by (simp_all add: has_admin_def names_apart_def signed_in_console_def demo_accounts_def demo_admin_def new_account_def
        blank_def)
  then show ?thesis using admin_is_never_lost [OF s] come_back_demotes by blast
qed

section \<open>How an account becomes an admin\<close>

text \<open>The form of somebody signed in as an admin names the account and the role.\<close>

definition grants_admin :: "account_form \<Rightarrow> bool" where
  "grants_admin form \<longleftrightarrow> (\<exists>salt password. form = CreateForm salt password ''admin'') \<or> form = RoleForm ''admin''"

lemma form_grants:
  assumes "is_admin n (snd (account_form_action kd u m form s))" and "\<not> is_admin n s"
  shows "grants_admin form \<and> n = trim_space m \<or> grants_admin form \<and> n = m"
proof (cases form)
  case (CreateForm salt password role)
  obtain r t where c: "create kd salt m password role s = (r, t)" by (cases "create kd salt m password role s")
  then have "is_admin n t" using assms(1) by (auto simp: account_form_action_def CreateForm split: sum.splits)
  with create_users [OF c] assms(2) show ?thesis by (auto simp: is_admin_def grants_admin_def CreateForm)
next
  case (RemoveForm confirm)
  then show ?thesis using assms
    by (auto simp: account_form_action_def told_def delete_account_def Let_def is_admin_def split: option.splits if_splits)
next
  case (RoleForm role)
  let ?t = "snd (account_form_action kd u m form s)"
  have "au_users ?t = au_users s \<or> au_users ?t = update_where (\<lambda>v. ac_name v = m) (\<lambda>v. v\<lparr>ac_role := role\<rparr>) (au_users s)"
    by (auto simp: account_form_action_def RoleForm told_def set_role_def)
  with assms show ?thesis
    by (auto simp: is_admin_def grants_admin_def RoleForm update_where_def split: if_splits)
qed

text \<open>The four ways, for an account \<open>n\<close> that was no admin in \<open>s\<close>.\<close>

definition made_admin :: "bool \<Rightarrow> web_event \<Rightarrow> string \<Rightarrow> accounts \<Rightarrow> bool" where
  "made_admin oidc e n s \<longleftrightarrow>
     (\<exists>salt raw cookie csrf name password code. e = Signup salt raw cookie csrf name password code \<and>
        \<not> has_admin s \<and> \<not> oidc \<and> n = trim_space name) \<or>
     (\<exists>cookie csrf name form a. e = Manage cookie csrf name form \<and> session_user cookie s = Some a \<and>
        ac_role a = ''admin'' \<and> csrf_ok cookie csrf s \<and> grants_admin form \<and> n = trim_space name) \<or>
     (\<exists>raw iss sub name. e = Callback raw iss sub name ''admin'' \<and> oidc) \<or>
     (\<exists>salt spec role weak. e = Command salt spec role weak \<and> (role = ''admin'' \<or> \<not> valid_role role) \<and>
        account_of n s = None \<and> n = trim_space (fst (cut_at (CHR '':'') spec)))"

lemma admin_is_made:
  assumes "serve kd oidc only env e s = (r, t)" and "is_admin n t" and "\<not> is_admin n s"
  shows "made_admin oidc e n s"
proof (cases e)
  case (Signup salt raw cookie csrf name password code)
  then have t: "t = snd (signup_submit kd oidc env salt raw cookie csrf name password code s)" using assms(1) by simp
  from signup_state [OF t] have "count_role ''admin'' s = 0" "n = trim_space name"
    using assms(2,3) by (force simp: is_admin_def split: if_splits)+
  moreover have "\<not> oidc"
    using t assms(2,3) by (auto simp: signup_submit_def signup_open_here_def split: if_splits)
  ultimately show ?thesis by (simp add: Signup has_admin_count made_admin_def)
next
  case (Login raw cookie csrf name password)
  then have "t = snd (login_submit kd (oidc \<and> only) raw cookie csrf name password s)" using assms(1) by simp
  then have "same_roles s t" using login_roles by simp
  then have "is_admin n t = is_admin n s" by (rule same_roles_admin)
  then show ?thesis using assms(2,3) by simp
next
  case (Manage cookie csrf name form)
  then obtain u where u: "session_user cookie s = Some u" "may (Some u) ''admin''" "csrf_ok cookie csrf s"
    and t: "t = snd (account_form_action kd u (trim_space name) form s)"
    using assms by (auto simp: account_action_def split_pairs split: option.splits if_splits)
  from form_grants [OF assms(2) [unfolded t] assms(3)] have "grants_admin form \<and> n = trim_space name"
    by (auto simp: trim_space_idem)
  moreover have "ac_role u = ''admin''" using u(2) by (auto simp: may_def rank_def split: if_splits)
  ultimately show ?thesis using u by (simp add: Manage made_admin_def)
next
  case (Callback raw iss sub name role)
  have t: "t = snd (oidc_callback oidc raw iss sub name role s)" using assms(1) by (simp add: Callback)
  then have "is_admin n (snd (oidc_callback oidc raw iss sub name role s))" using assms(2) by simp
  then have "is_admin n (snd (sign_in_external iss sub name role s))"
    using callback_users [of oidc raw iss sub name role s] assms(3) unfolding is_admin_def by metis
  then have "role = ''admin''" using sign_in_external_admin assms(3) by blast
  moreover have oidc using t assms(2,3) by (cases oidc) (simp_all add: oidc_callback_def)
  ultimately show ?thesis by (simp add: Callback made_admin_def)
next
  case (Command salt spec role weak)
  with assms(1) have "password_command kd salt spec role weak s = (r, t)" by simp
  then show ?thesis
  proof (cases rule: password_command_users)
    case 1
    then show ?thesis using assms(2,3) same_roles_admin by blast
  next
    case (2 u)
    then have "n = ac_name u" "ac_role u = ''admin''" using assms(2,3) by (auto simp: is_admin_def)
    with 2 show ?thesis by (auto simp: Command made_admin_def account_of_None split: if_splits)
  qed
next
  case (Logout cookie)
  then have "t = end_session cookie s" using assms(1) by simp
  then show ?thesis using assms(2,3) by (simp add: is_admin_def)
next
  case (Tick m)
  then have "au_users t = au_users s" using assms(1) by auto
  then show ?thesis using assms(2,3) by (simp add: is_admin_def)
qed

text \<open>
  C25. Nobody becomes an admin but in one of four ways. Whatever a console has served, an account that
  is an admin now and was none at the start became one in some event: by registering on a console
  that had no admin and no identity provider; by a form, sent with the token of the session of
  somebody who was an admin, that creates that account or gives it that role; in a callback in which
  the provider maps the person to admin; or by the command of somebody on the machine, which makes an
  account that did not exist (and never raises one that did).
\<close>

theorem admins_are_made_by_admins:
  assumes "served kd oidc only env s t" and "is_admin n t" and "\<not> is_admin n s"
  shows "\<exists>u e r v. served kd oidc only env s u \<and> serve kd oidc only env e u = (r, v) \<and>
    served kd oidc only env v t \<and> \<not> is_admin n u \<and> is_admin n v \<and> made_admin oidc e n u"
  using assms
proof (induction rule: served.induct)
  case (request t e r t')
  show ?case
  proof (cases "is_admin n t")
    case True
    then obtain u e' r' v where "served kd oidc only env s u" "serve kd oidc only env e' u = (r', v)"
      "served kd oidc only env v t" "\<not> is_admin n u" "is_admin n v" "made_admin oidc e' n u"
      using request by blast
    then show ?thesis using served.request [OF _ request.hyps(2)] by blast
  next
    case False
    then show ?thesis
      using request.hyps request.prems(1) admin_is_made [OF request.hyps(2) request.prems(1) False] served.start by blast
  qed
qed simp

text \<open>The first person to open a fresh console registers.\<close>

definition fresh_console :: accounts where
  "fresh_console = demo_accounts\<lparr>au_users := []\<rparr>"

definition first_signup :: web_event where
  "first_signup = Signup [7] [1, 2, 3] [] (csrf_token [] fresh_console) ''ana'' ''long enough'' []"

lemma first_signup_admin: "is_admin ''ana'' (snd (serve demo_kd False False [] first_signup fresh_console))"
proof -
  let ?c = "csrf_token [] fresh_console"
  obtain t where t: "register demo_kd [7] [] ''ana'' ''long enough'' [] fresh_console = (Inr (Registered True), t)"
    "is_admin ''ana'' t"
    by (simp add: register_def fresh_console_def demo_accounts_def count_role_def min_password_def create_def
        blank_def make_account_def demo_trim valid_role_def Let_def account_of_def hash_password_def derive_def demo_kd_def
        record_entry_def is_admin_def new_account_def)
  have "signup_open_here False [] fresh_console"
    by (simp add: signup_open_here_def signup_open_def fresh_console_def demo_accounts_def count_role_def)
  then show ?thesis
    using t by (simp add: first_signup_def signup_submit_def csrf_ok_def)
qed

theorem admins_are_made_by_admins_witness:
  "\<exists>e u. made_admin False e ''ana'' u \<and> served demo_kd False False [] fresh_console u \<and> \<not> is_admin ''ana'' u"
proof -
  let ?t = "snd (serve demo_kd False False [] first_signup fresh_console)"
  have "served demo_kd False False [] fresh_console ?t"
    by (rule served.request [OF served.start prod.collapse [symmetric]])
  moreover have "\<not> is_admin ''ana'' fresh_console" by (simp add: is_admin_def fresh_console_def demo_accounts_def)
  ultimately show ?thesis using admins_are_made_by_admins first_signup_admin by blast
qed

section \<open>Sessions\<close>

lemma no_session_no_user:
  assumes "\<forall>x \<in> set (au_sessions s). sn_user x \<noteq> n" and "session_user token s = Some u"
  shows "ac_name u \<noteq> n"
  using assms(1) session_user_SomeD [OF assms(2)] by fastforce

lemma reset_sessions:
  assumes "set_password kd salt username password role weak s = (Inr False, t)"
    and "account_of (trim_space username) s \<noteq> None"
  shows "au_sessions t = filter (\<lambda>x. sn_user x \<noteq> trim_space username) (au_sessions s)"
proof -
  obtain v where v: "account_of (trim_space username) s = Some v" using assms(2) by blast
  obtain h where "hash_password kd salt password = Some h"
    using assms(1) v by (cases "hash_password kd salt password") (simp_all add: set_password_def Let_def split: if_splits)
  with assms(1) v show ?thesis
    by (simp add: set_password_def Let_def split: if_splits) auto
qed

lemma delete_sessions:
  assumes "delete_account username s = (Inr (), t)"
  shows "au_sessions t = filter (\<lambda>x. sn_user x \<noteq> trim_space username) (au_sessions s)"
  using assms by (auto simp: delete_account_def Let_def split: if_splits option.splits)

lemma revoked_sessions:
  assumes "sign_in_external iss sub username [] s = (Inr NoAccess, t)" and "linked_account iss sub s = Some n"
  shows "au_sessions t = filter (\<lambda>x. sn_user x \<noteq> n) (au_sessions s)"
  using assms by (simp add: sign_in_external_def refuse_external_def Let_def split: if_splits) auto

lemma create_sessions: "au_sessions (snd (create kd salt name password role s)) = au_sessions s"
  by (simp add: create_def make_account_def Let_def split: option.split)

text \<open>
  C27. What signs somebody out signs them out everywhere. A password reset, the removal of an account,
  or a sign-in the identity provider no longer gives a role to takes every session of that account off
  file, and no other: no cookie stands for it then, nor after an account of its name is made again.
\<close>

theorem signed_out_everywhere:
  assumes "set_password kd salt username password role weak s = (Inr False, t) \<and> account_of (trim_space username) s \<noteq> None \<and>
      n = trim_space username \<or>
    delete_account username s = (Inr (), t) \<and> n = trim_space username \<or>
    sign_in_external iss sub username [] s = (Inr NoAccess, t) \<and> linked_account iss sub s = Some n"
  shows "au_sessions t = filter (\<lambda>x. sn_user x \<noteq> n) (au_sessions s) \<and>
    (session_user token t = Some u \<longrightarrow> ac_name u \<noteq> n) \<and>
    (session_user token (snd (create kd' salt' name' password' role' t)) = Some u \<longrightarrow> ac_name u \<noteq> n)"
proof (intro conjI impI)
  show f: "au_sessions t = filter (\<lambda>x. sn_user x \<noteq> n) (au_sessions s)"
    using assms reset_sessions delete_sessions revoked_sessions by blast
  show "ac_name u \<noteq> n" if "session_user token t = Some u"
    by (rule no_session_no_user [OF _ that]) (simp add: f)
  show "ac_name u \<noteq> n" if "session_user token (snd (create kd' salt' name' password' role' t)) = Some u"
    by (rule no_session_no_user [OF _ that]) (simp add: f create_sessions)
qed

text \<open>Ana is signed in twice and Bob once; an admin removes Ana, and an account is made under the name.\<close>

definition two_signed_in :: accounts where
  "two_signed_in = demo_accounts\<lparr>au_users := [demo_admin, demo_admin\<lparr>ac_name := ''bob''\<rparr>],
     au_sessions := [\<lparr>sn_key = session_key ''a'', sn_user = ''ana'', sn_created = 900, sn_expires = 44100\<rparr>,
       \<lparr>sn_key = session_key ''b'', sn_user = ''bob'', sn_created = 900, sn_expires = 44100\<rparr>,
       \<lparr>sn_key = session_key ''c'', sn_user = ''ana'', sn_created = 950, sn_expires = 44150\<rparr>]\<rparr>"

theorem signed_out_everywhere_witness:
  "au_sessions (snd (delete_account ''ana'' two_signed_in)) =
     [\<lparr>sn_key = session_key ''b'', sn_user = ''bob'', sn_created = 900, sn_expires = 44100\<rparr>] \<and>
   \<not> (\<exists>token u. session_user token
       (snd (create demo_kd [1] ''ana'' ''long enough'' ''viewer'' (snd (delete_account ''ana'' two_signed_in)))) = Some u \<and>
       ac_name u = ''ana'')"
proof -
  have "delete_account ''ana'' two_signed_in = (Inr (), snd (delete_account ''ana'' two_signed_in))"
    by (simp add: delete_account_def Let_def demo_trim account_of_def demo_admin_def new_account_def count_role_def
        two_signed_in_def demo_accounts_def)
  then have d: "delete_account ''ana'' two_signed_in = (Inr (), snd (delete_account ''ana'' two_signed_in)) \<and>
      ''ana'' = trim_space ''ana''"
    using demo_trim by simp
  note out = signed_out_everywhere [OF disjI2 [OF disjI1 [OF d]]]
  have "au_sessions (snd (delete_account ''ana'' two_signed_in)) =
      filter (\<lambda>x. sn_user x \<noteq> ''ana'') (au_sessions two_signed_in)"
    using out by blast
  then show ?thesis using out by (auto simp: two_signed_in_def)
qed

end
