(* ===== verification/Signin.thy ===== *)
theory Signin
  imports Access
begin

text \<open>
  What signing in promises: a password reads back, guessing is slowed by the lock, a session lasts
  its hours and no longer; and two things a removed account leaves behind.
\<close>

section \<open>Passwords read back\<close>

definition octet_list :: "int list \<Rightarrow> bool" where
  "octet_list bs \<longleftrightarrow> (\<forall>b \<in> set bs. 0 \<le> b \<and> b < 256)"

lemma hex_value_digit: "0 \<le> n \<Longrightarrow> n < 16 \<Longrightarrow> hex_value (hex_digit n) = Some n \<and> hex_digit n \<noteq> CHR ''$''"
proof -
  assume "0 \<le> n" "n < 16"
  then have "n \<in> set [0..15]" by simp
  moreover have "\<forall>n \<in> set [0..15]. hex_value (hex_digit n) = Some n \<and> hex_digit n \<noteq> CHR ''$''" by code_simp
  ultimately show ?thesis by blast
qed

lemma hex_decode_hex: "octet_list bs \<Longrightarrow> hex_decode (hex bs) = Some bs"
proof (induction bs)
  case (Cons b bs)
  then have b: "0 \<le> b div 16" "b div 16 < 16" "0 \<le> b mod 16" "b mod 16 < 16" and bs: "octet_list bs"
    by (auto simp: octet_list_def)
  have "hex (b # bs) = hex_digit (b div 16) # hex_digit (b mod 16) # hex bs" by (simp add: hex_def)
  then show ?case using Cons.IH [OF bs] hex_value_digit b by simp
qed (simp add: hex_def)

lemma hex_no_dollar: "octet_list bs \<Longrightarrow> CHR ''$'' \<notin> set (hex bs)"
proof (induction bs)
  case (Cons b bs)
  then have b: "0 \<le> b div 16" "b div 16 < 16" "0 \<le> b mod 16" "b mod 16 < 16" and bs: "octet_list bs"
    by (auto simp: octet_list_def)
  have "hex (b # bs) = hex_digit (b div 16) # hex_digit (b mod 16) # hex bs" by (simp add: hex_def)
  then show ?case using Cons.IH [OF bs] hex_value_digit b by (auto dest: sym)
qed (simp add: hex_def)

lemma split_at_none: "c \<notin> set s \<Longrightarrow> split_at c s = [s]"
  by (induction s) auto

lemma split_at_one: "c \<notin> set s \<Longrightarrow> split_at c (s @ c # t) = s # split_at c t"
  by (induction s) auto

lemma password_verifies:
  assumes "hash_password kd salt password = Some stored" and "octet_list salt"
    and "\<And>bs. kd_scrypt kd password salt scrypt_n 8 1 key_len = Some bs \<Longrightarrow> octet_list bs"
  shows "verify_password kd password stored"
proof -
  obtain bs where bs: "kd_scrypt kd password salt scrypt_n 8 1 key_len = Some bs"
    and stored: "stored = ''scrypt$'' @ hex salt @ ''$'' @ hex bs"
    using assms(1) by (auto simp: hash_password_def derive_def)
  have "split_at (CHR ''$'') (''scrypt'' @ CHR ''$'' # hex salt @ CHR ''$'' # hex bs) = [''scrypt'', hex salt, hex bs]"
    using hex_no_dollar [OF assms(2)] hex_no_dollar [OF assms(3) [OF bs]]
    by (subst split_at_one) (simp_all add: split_at_one split_at_none)
  then have "split_at (CHR ''$'') stored = [''scrypt'', hex salt, hex bs]" by (simp add: stored)
  then show ?thesis
    by (simp add: verify_password_def hex_decode_hex [OF assms(2)] derive_def bs [unfolded One_nat_def])
qed

section \<open>The lockout\<close>

lemma account_of_change:
  assumes "\<And>u. ac_name (f u) = ac_name u"
  shows "account_of n (change_account m f s) = map_option (if n = m then f else id) (account_of n s)"
proof -
  have "find (\<lambda>u. ac_name u = n) (update_where (\<lambda>u. ac_name u = m) f us) =
      map_option (if n = m then f else id) (find (\<lambda>u. ac_name u = n) us)" for us
    by (induction us) (auto simp: update_where_def assms)
  then show ?thesis by (simp add: account_of_def)
qed

lemma account_of_now [simp]: "account_of n (s\<lparr>au_now := now\<rparr>) = account_of n s"
  by (simp add: account_of_def)

lemma miss_keeps [simp]: "ac_name (miss now u) = ac_name u" "ac_hash (miss now u) = ac_hash u"
  by (simp_all add: miss_def Let_def)

text \<open>The times of those attempts at one name whose password was looked at.\<close>

fun guesses :: "kdf \<Rightarrow> string \<Rightarrow> (rat \<times> string) list \<Rightarrow> accounts \<Rightarrow> rat list" where
  "guesses kd n [] s = []"
| "guesses kd n ((now, password) # as) s =
     (let s' = s\<lparr>au_now := now\<rparr>; rest = guesses kd n as (snd (authenticate kd n password s'))
      in case account_of n s' of None \<Rightarrow> rest | Some u \<Rightarrow> if ac_locked u > now then rest else now # rest)"

lemma guesses_times: "set (guesses kd n as s) \<subseteq> fst ` set as"
  by (induction kd n as s rule: guesses.induct) (auto simp: Let_def split: option.split)

text \<open>From the third miss on the next look comes at least 79 seconds later.\<close>

fun spaced :: "int \<Rightarrow> rat list \<Rightarrow> bool" where
  "spaced k (a # b # r) \<longleftrightarrow> (3 \<le> k + 1 \<longrightarrow> a + 79 \<le> b) \<and> spaced (k + 1) (b # r)"
| "spaced k _ \<longleftrightarrow> True"

lemma lock_holds:
  assumes "3 \<le> k" and "0 \<le> now" and "now \<le> 2 ^ 40"
  shows "now + 79 \<le> f64 (now + of_int (lock_seconds k))"
proof -
  have "(2 :: int) ^ 3 \<le> 2 ^ nat (min k 5)"
    using assms(1) by (intro power_increasing) (simp_all add: le_nat_iff)
  then have c: "80 \<le> lock_seconds k" "lock_seconds k \<le> 300" by (simp_all add: lock_seconds_def)
  let ?x = "now + of_int (lock_seconds k)"
  have "(of_int (lock_seconds k) :: rat) \<le> of_int 300" "(of_int 80 :: rat) \<le> of_int (lock_seconds k)"
    using c by (simp_all only: of_int_le_iff)
  then have "now + 80 \<le> ?x" "0 \<le> ?x" "?x \<le> 2 ^ 53" using assms(2,3) by simp_all
  moreover have "\<bar>f64 ?x - ?x\<bar> * 2 ^ 53 \<le> \<bar>?x\<bar>" by (rule f64_near)
  ultimately have "\<bar>f64 ?x - ?x\<bar> \<le> 1" by simp
  with \<open>now + 80 \<le> ?x\<close> show ?thesis by linarith
qed

lemma wrong_guess:
  assumes "account_of n s = Some u" and "\<not> verify_password kd password (ac_hash u)"
  shows "account_of n (snd (authenticate kd n password (s\<lparr>au_now := now\<rparr>))) =
    Some (if ac_locked u > now then u else miss now u)"
proof -
  have "account_of n (s\<lparr>au_now := now\<rparr>) = Some u" using assms(1) by (simp add: account_of_def)
  then show ?thesis using assms(2) by (simp add: authenticate_def account_of_change)
qed

lemma guesses_spaced:
  assumes "account_of n s = Some u" and "0 \<le> ac_failed u" and "ac_failed u + int (length as) \<le> 2 ^ 62"
    and "\<forall>(now, password) \<in> set as. \<not> verify_password kd password (ac_hash u) \<and> 0 \<le> now \<and> now \<le> 2 ^ 40"
    and "sorted (map fst as)"
  shows "spaced (ac_failed u) (guesses kd n as s) \<and> (\<forall>x \<in> set (guesses kd n as s). ac_locked u \<le> x) \<and>
    sorted (guesses kd n as s)"
  using assms
proof (induction as arbitrary: s u)
  case (Cons a as)
  obtain now password where a: "a = (now, password)" by (cases a)
  let ?t = "snd (authenticate kd n password (s\<lparr>au_now := now\<rparr>))"
  let ?u = "if ac_locked u > now then u else miss now u"
  have wrong: "\<not> verify_password kd password (ac_hash u)" "0 \<le> now" "now \<le> 2 ^ 40"
    using Cons.prems(4) by (auto simp: a)
  have t: "account_of n ?t = Some ?u" using wrong_guess [OF Cons.prems(1) wrong(1)] by simp
  have failed: "ac_failed (miss now u) = ac_failed u + 1"
    using Cons.prems(2,3) by (simp add: miss_def Let_def wrap64_id in64_def min64_def max64_def)
  let ?r = "guesses kd n as ?t"
  have ih: "spaced (ac_failed ?u) ?r \<and> (\<forall>x \<in> set ?r. ac_locked ?u \<le> x) \<and> sorted ?r"
    by (rule Cons.IH [OF t]) (use Cons.prems failed in \<open>auto simp: a\<close>)
  have later: "\<forall>x \<in> set ?r. now \<le> x"
    using guesses_times [of kd n as ?t] Cons.prems(5) by (fastforce simp: a)
  show ?case
  proof (cases "ac_locked u > now")
    case True
    then show ?thesis using ih by (simp add: a Cons.prems(1) Let_def)
  next
    case False
    have "spaced (ac_failed u) (now # ?r)"
    proof (cases ?r)
      case (Cons b r')
      have "now + 79 \<le> b" if "3 \<le> ac_failed u + 1"
      proof -
        have "ac_locked (miss now u) = f64 (now + of_int (lock_seconds (ac_failed u + 1)))"
          using that failed by (simp add: miss_def Let_def)
        then have "now + 79 \<le> ac_locked (miss now u)" using lock_holds [OF that wrong(2,3)] by simp
        moreover have "ac_locked (miss now u) \<le> b" using ih False by (simp add: Cons)
        ultimately show ?thesis by linarith
      qed
      then show ?thesis using ih False failed by (simp add: Cons)
    qed simp
    then show ?thesis using ih later False by (auto simp: a Cons.prems(1) Let_def)
  qed
qed simp

lemma spaced_span:
  assumes "sorted ts" and "ts \<noteq> []" and "0 \<le> k" and "spaced k ts"
  shows "79 * (of_nat (length ts) - 1 - of_int (max 0 (2 - k))) \<le> last ts - hd ts"
  using assms
proof (induction k ts rule: spaced.induct)
  case (1 k a b r)
  then have ih: "79 * (of_nat (length (b # r)) - 1 - of_int (max 0 (2 - (k + 1)))) \<le> last (b # r) - b" by simp
  have ab: "a \<le> b" "3 \<le> k + 1 \<longrightarrow> a + 79 \<le> b" using 1 by simp_all
  consider "k = 0" | "k = 1" | "2 \<le> k" using 1 by linarith
  then show ?case
  proof cases
    case 3
    then show ?thesis using ih ab by simp
  qed (use ih ab in simp_all)
qed simp_all

text \<open>
  C26. Guessing is slow. Of any number of wrong passwords tried at one name, however they are spread
  in time, no more than three and one for every 79 seconds between the first and the last are looked
  at; the others are refused unread. (Seconds are the float64 readings of a clock below 2^40.)
\<close>

theorem lockout_bounds_guessing:
  assumes "account_of n s = Some u" and "ac_failed u = 0"
    and "\<forall>(now, password) \<in> set as. \<not> verify_password kd password (ac_hash u) \<and> 0 \<le> now \<and> now \<le> 2 ^ 40"
    and "sorted (map fst as)" and "int (length as) \<le> 2 ^ 62" and "guesses kd n as s \<noteq> []"
  shows "79 * (of_nat (length (guesses kd n as s)) - 3) \<le> last (guesses kd n as s) - hd (guesses kd n as s)"
proof -
  have "spaced 0 (guesses kd n as s) \<and> sorted (guesses kd n as s)"
    using guesses_spaced [OF assms(1) _ _ assms(3,4)] assms(2,5) by simp
  with spaced_span [of "guesses kd n as s" 0] assms(6) show ?thesis by simp
qed

text \<open>Three misses in a row, then a try while the lock holds and one after it.\<close>

definition demo_guessed :: accounts where
  "demo_guessed = demo_accounts\<lparr>au_users := [demo_admin\<lparr>ac_hash := ''scrypt$00$ff''\<rparr>]\<rparr>"

lemma demo_wrong: "\<not> verify_password demo_kd ''guess'' ''scrypt$00$ff''"
  by code_simp

lemma demo_guessed_account: "account_of ''ana'' demo_guessed = Some (demo_admin\<lparr>ac_hash := ''scrypt$00$ff''\<rparr>)"
  by (simp add: account_of_def demo_guessed_def demo_accounts_def demo_admin_def new_account_def)

lemma demo_guesses: "guesses demo_kd ''ana'' [(100, ''guess'')] demo_guessed = [100]"
  unfolding guesses.simps Let_def account_of_now demo_guessed_account option.case
  by (simp add: demo_admin_def new_account_def)

theorem lockout_bounds_guessing_witness:
  "79 * (of_nat (length (guesses demo_kd ''ana'' [(100, ''guess'')] demo_guessed)) - 3) \<le> (0 :: rat)"
proof -
  have "79 * (of_nat (length (guesses demo_kd ''ana'' [(100, ''guess'')] demo_guessed)) - 3) \<le>
      last (guesses demo_kd ''ana'' [(100, ''guess'')] demo_guessed) - hd (guesses demo_kd ''ana'' [(100, ''guess'')] demo_guessed)"
    by (rule lockout_bounds_guessing [OF demo_guessed_account]) (simp_all del: guesses.simps add: demo_guesses demo_wrong demo_admin_def new_account_def)
  then show ?thesis by (simp del: guesses.simps add: demo_guesses)
qed

section \<open>A session\<close>

lemma start_session_run:
  assumes "start_session raw name s = (Inr token, t)"
  shows "token = url_base64 raw" and "au_users t = au_users s"
    and "\<exists>old. au_sessions t = old @ [\<lparr>sn_key = session_key token, sn_user = name, sn_created = au_now s,
       sn_expires = f64 (au_now s + 43200)\<rparr>] \<and> (\<forall>x \<in> set old. sn_key x \<noteq> session_key token)"
  using assms by (force simp: start_session_def Let_def session_hours_def split: if_splits)+

lemma filter_find: "find P us = (case filter P us of [] \<Rightarrow> None | u # _ \<Rightarrow> Some u)"
  by (induction us) auto

text \<open>Of rows with one key only the one that holds it counts.\<close>

lemma session_rows_of:
  assumes "au_sessions t = old @ [x]" and "\<forall>y \<in> set old. sn_key y \<noteq> session_key token"
    and "sn_key x = session_key token"
  shows "session_rows token t = (if sn_expires x > au_now t then filter (\<lambda>u. ac_name u = sn_user x) (au_users t) else [])"
proof -
  have "[u. y \<leftarrow> old, u \<leftarrow> au_users t, ac_name u = sn_user y \<and> sn_key y = session_key token \<and> sn_expires y > au_now t] = []"
    using assms(2) by (induction old) auto
  moreover have "concat (map (\<lambda>u. if P u then [u] else []) us) = filter P us" for P :: "account \<Rightarrow> bool" and us
    by (induction us) auto
  ultimately show ?thesis using assms(1,3) by (simp add: session_rows_def)
qed

text \<open>
  C28. The cookie a sign-in sets stands for that account for twelve hours, to the float64 second,
  and not a moment longer, whatever else is on file; a sign-out ends it at once.
\<close>

theorem session_lasts_its_hours:
  assumes "start_session raw name s = (Inr token, t)" and "account_of name s = Some u" and "raw \<noteq> []"
  shows "session_user token (t\<lparr>au_now := now\<rparr>) = (if now < f64 (au_now s + 43200) then Some u else None) \<and>
    session_user token (end_session token (t\<lparr>au_now := now\<rparr>)) = None"
proof -
  obtain old where old: "au_sessions t = old @ [\<lparr>sn_key = session_key token, sn_user = name, sn_created = au_now s,
       sn_expires = f64 (au_now s + 43200)\<rparr>]" "\<forall>x \<in> set old. sn_key x \<noteq> session_key token"
    using start_session_run(3) [OF assms(1)] by blast
  let ?t = "t\<lparr>au_now := now\<rparr>"
  have token: "token \<noteq> []"
    using start_session_run(1) [OF assms(1)] assms(3) by (cases raw rule: url_base64.cases) auto
  have "session_rows token ?t = (if f64 (au_now s + 43200) > now then filter (\<lambda>u. ac_name u = name) (au_users s) else [])"
    using session_rows_of [of ?t old] old start_session_run(2) [OF assms(1)] by simp
  moreover have "(case filter (\<lambda>u. ac_name u = name) (au_users s) of [] \<Rightarrow> None | u # _ \<Rightarrow> Some u) = Some u"
    using assms(2) by (simp add: account_of_def filter_find)
  ultimately have live: "session_user token ?t = (if now < f64 (au_now s + 43200) then Some u else None)"
    using token by (simp add: session_user_def)
  have "find (\<lambda>x. sn_key x = session_key token) (au_sessions ?t) \<noteq> None"
    using old by (auto simp: find_None_iff)
  then have "au_sessions (end_session token ?t) = filter (\<lambda>x. sn_key x \<noteq> session_key token) (au_sessions ?t)"
    using token by (auto simp: end_session_def split: option.split)
  then have "\<not> (\<exists>x \<in> set (au_sessions (end_session token ?t)). sn_key x = session_key token)" by simp
  then have "session_user token (end_session token ?t) = None"
    using session_user_SomeD [of token "end_session token ?t"] by fastforce
  with live show ?thesis by blast
qed

lemma demo_started: "\<exists>t. start_session [1, 2, 3] ''ana'' demo_accounts = (Inr ''AQID'', t)"
proof -
  have "url_base64 [1, 2, 3] = ''AQID''" by code_simp
  then show ?thesis by (simp add: start_session_def Let_def demo_accounts_def)
qed

theorem session_lasts_its_hours_witness:
  "\<exists>t. session_user ''AQID'' (t\<lparr>au_now := 2000\<rparr>) = Some demo_admin"
proof -
  obtain t where t: "start_session [1, 2, 3] ''ana'' demo_accounts = (Inr ''AQID'', t)" using demo_started by blast
  have u: "account_of ''ana'' demo_accounts = Some demo_admin"
    by (simp add: account_of_def demo_accounts_def demo_admin_def new_account_def)
  have "\<bar>f64 44200 - 44200\<bar> * 2 ^ 53 \<le> \<bar>44200 :: rat\<bar>" by (rule f64_near)
  then have "2000 < f64 44200" by (simp add: abs_if split: if_splits)
  then have "2000 < f64 (au_now demo_accounts + 43200)" by (simp add: demo_accounts_def)
  then have "session_user ''AQID'' (t\<lparr>au_now := 2000\<rparr>) = Some demo_admin"
    using session_lasts_its_hours [OF t u, of 2000] by simp
  then show ?thesis by blast
qed

section \<open>What a removed account leaves behind\<close>

lemma account_of_snoc:
  "account_of n s = None \<Longrightarrow> ac_name u = n \<Longrightarrow> account_of n (s\<lparr>au_users := au_users s @ [u]\<rparr>) = Some u"
proof -
  assume a: "account_of n s = None" "ac_name u = n"
  have "find P (us @ [u]) = Some u" if "find P us = None" "P u" for P us
    using that by (induction us) (auto split: if_splits)
  with a show ?thesis by (simp add: account_of_def)
qed

lemma make_account_run:
  assumes "make_account kd salt n password role s = (Inr True, t)" and "trim_space n = n"
  obtains h where "hash_password kd salt password = Some h"
    and "t = record_entry ''user_created'' [(''username'', JString n), (''role'', JString role)]
           (s\<lparr>au_users := au_users s @ [new_account n h role (au_now s)]\<rparr>)" and "account_of n s = None"
  using assms by (auto simp: make_account_def Let_def split: if_splits option.splits)

lemma create_run:
  assumes "create kd salt n password role s = (Inr True, t)" and "trim_space n = n"
  obtains h where "hash_password kd salt password = Some h" and "account_of n t = Some (new_account n h role (au_now s))"
    and "au_break_glass t = au_break_glass s" and "au_identities t = au_identities s" and "au_now t = au_now s"
proof -
  have "make_account kd salt n password role s = (Inr True, t)"
    using assms(1) by (auto simp: create_def split: if_splits)
  then obtain h where h: "hash_password kd salt password = Some h"
    and t: "t = record_entry ''user_created'' [(''username'', JString n), (''role'', JString role)]
           (s\<lparr>au_users := au_users s @ [new_account n h role (au_now s)]\<rparr>)" and "account_of n s = None"
    by (rule make_account_run [OF _ assms(2)])
  then have "account_of n t = Some (new_account n h role (au_now s))"
    by (simp add: account_of_snoc new_account_def)
  with h show thesis by (rule that) (simp_all add: t)
qed

lemma delete_account_leaves:
  assumes "delete_account n s = (Inr (), t)"
  shows "au_break_glass t = au_break_glass s \<and> au_identities t = au_identities s \<and> au_now t = au_now s"
  using assms by (auto simp: delete_account_def Let_def drop_sessions_def split: option.splits if_splits)

definition kdf_octets :: "kdf \<Rightarrow> bool" where
  "kdf_octets kd \<longleftrightarrow> (\<forall>p salt bs. kd_scrypt kd p salt scrypt_n 8 1 key_len = Some bs \<longrightarrow> octet_list bs)"

text \<open>
  C39. Removing an account leaves its entry in the table of break-glass accounts. An account of the
  same name made from the web form afterwards signs in with its password where only break-glass
  accounts may, although its password was never set from the command line.
\<close>

theorem break_glass_outlives_its_account:
  assumes "n \<in> set (map fst (au_break_glass s))" and "trim_space n = n"
    and "delete_account n s = (Inr (), s1)" and "create kd salt n password role s1 = (Inr True, s2)"
    and "kdf_octets kd" and "octet_list salt" and "0 \<le> au_now s"
  shows "\<exists>u t. authenticate_break_glass kd n password s2 = (Inr (Some u), t) \<and> ac_name u = n \<and> ac_role u = role"
proof -
  obtain h where h: "hash_password kd salt password = Some h"
    and u: "account_of n s2 = Some (new_account n h role (au_now s1))"
    and keep: "au_break_glass s2 = au_break_glass s1" "au_now s2 = au_now s1"
    using create_run [OF assms(4,2)] by metis
  have "verify_password kd password h"
    using assms(5) by (intro password_verifies [OF h assms(6)]) (auto simp: kdf_octets_def)
  moreover have "0 \<le> au_now s2" using keep delete_account_leaves [OF assms(3)] assms(7) by simp
  moreover have "n \<in> set (map fst (au_break_glass s2))"
    using keep delete_account_leaves [OF assms(3)] assms(1) by simp
  ultimately show ?thesis
    using u assms(2) by (simp add: authenticate_break_glass_def authenticate_def new_account_def)
qed

text \<open>
  C40. Removing an account leaves the link of its identity. A local account made under that name
  afterwards, with a password of its own, is the one the identity signs in to at the next sign-in,
  and takes the role the provider maps to.
\<close>

theorem identity_adopts_a_local_account:
  assumes "linked_account iss sub s = Some n" and "trim_space n = n"
    and "delete_account n s = (Inr (), s1)" and "create kd salt n password role s1 = (Inr True, s2)"
    and "iss \<noteq> []" and "sub \<noteq> []" and "valid_role mapped" and "trim_space name \<noteq> []"
  shows "\<exists>u t h. sign_in_external iss sub name mapped s2 = (Inr (SignedIn u), t) \<and> ac_name u = n \<and>
    ac_role u = mapped \<and> hash_password kd salt password = Some h \<and> ac_hash u = h"
proof -
  obtain h where h: "hash_password kd salt password = Some h"
    and u: "account_of n s2 = Some (new_account n h role (au_now s1))"
    and keep: "au_identities s2 = au_identities s1"
    using create_run [OF assms(4,2)] by metis
  have link: "linked_account iss sub s2 = Some n"
    using assms(1) keep delete_account_leaves [OF assms(3)] by (simp add: linked_account_def)
  have "mapped \<noteq> []" using assms(7) by (auto simp: valid_role_def)
  then have run: "sign_in_external iss sub name mapped s2 = admit_external iss n mapped s2"
    using assms(5-8) link by (simp add: sign_in_external_def)
  let ?u = "(new_account n h role (au_now s1))\<lparr>ac_role := mapped, ac_last := Some (au_now s2)\<rparr>"
  have "account_of n (provider_account iss n mapped s2) = Some ?u"
    using u by (auto simp: provider_account_def account_of_change new_account_def)
  then have "admit_external iss n mapped s2 = (Inr (SignedIn ?u), provider_account iss n mapped s2)"
    by (simp add: admit_external_def)
  then show ?thesis using h unfolding run by (force simp: new_account_def)
qed

section \<open>A removed account, concretely\<close>

definition demo_bob :: account where
  "demo_bob = new_account ''bob'' [] ''operator'' 0"

definition demo_left :: accounts where
  "demo_left = demo_accounts\<lparr>au_users := [demo_admin, demo_bob], au_break_glass := [(''bob'', 5)],
     au_identities := [\<lparr>ie_issuer = ''https://id'', ie_subject = ''u1'', ie_user = ''bob'', ie_linked = 5\<rparr>]\<rparr>"

lemma demo_bob_trim: "trim_space ''bob'' = ''bob''"
  by (simp add: trim_space_solid solid_def byte_def)

lemma demo_octets: "kdf_octets demo_kd"
proof -
  have "int (byte c) < 256" for c
    using nat_of_char_less_256 [of c] by (simp add: byte_def del: of_nat_of_char)
  then show ?thesis by (auto simp: kdf_octets_def demo_kd_def octet_list_def octets_def)
qed

lemma demo_removed:
  obtains s1 s2 where "delete_account ''bob'' demo_left = (Inr (), s1)"
    and "create demo_kd [7] ''bob'' ''long enough'' ''viewer'' s1 = (Inr True, s2)"
proof -
  let ?s1 = "snd (delete_account ''bob'' demo_left)"
  have d: "delete_account ''bob'' demo_left = (Inr (), ?s1)" "au_users ?s1 = [demo_admin]"
    by (simp_all add: delete_account_def Let_def demo_bob_trim demo_left_def account_of_def demo_admin_def demo_bob_def
        new_account_def)
  then have "account_of ''bob'' ?s1 = None" by (simp add: account_of_def demo_admin_def new_account_def)
  then have "fst (create demo_kd [7] ''bob'' ''long enough'' ''viewer'' ?s1) = Inr True"
    by (simp add: create_def make_account_def Let_def demo_bob_trim blank_def min_password_def valid_role_def
        hash_password_def derive_def demo_kd_def)
  then have "create demo_kd [7] ''bob'' ''long enough'' ''viewer'' ?s1 =
      (Inr True, snd (create demo_kd [7] ''bob'' ''long enough'' ''viewer'' ?s1))" by (metis prod.collapse)
  with d(1) show thesis by (rule that)
qed

theorem break_glass_outlives_its_account_witness:
  "\<exists>s u t. authenticate_break_glass demo_kd ''bob'' ''long enough'' s = (Inr (Some u), t) \<and> ac_role u = ''viewer''"
proof -
  obtain s1 s2 where run: "delete_account ''bob'' demo_left = (Inr (), s1)"
    "create demo_kd [7] ''bob'' ''long enough'' ''viewer'' s1 = (Inr True, s2)" by (rule demo_removed)
  have "''bob'' \<in> set (map fst (au_break_glass demo_left))" "octet_list [7]" "0 \<le> au_now demo_left"
    by (simp_all add: demo_left_def demo_accounts_def octet_list_def)
  then show ?thesis using break_glass_outlives_its_account [OF _ demo_bob_trim run demo_octets] by blast
qed

theorem identity_adopts_a_local_account_witness:
  "\<exists>s u t. sign_in_external ''https://id'' ''u1'' ''bob'' ''operator'' s = (Inr (SignedIn u), t) \<and>
     ac_name u = ''bob'' \<and> ac_role u = ''operator''"
proof -
  obtain s1 s2 where run: "delete_account ''bob'' demo_left = (Inr (), s1)"
    "create demo_kd [7] ''bob'' ''long enough'' ''viewer'' s1 = (Inr True, s2)" by (rule demo_removed)
  have "linked_account ''https://id'' ''u1'' demo_left = Some ''bob''" "valid_role ''operator''"
    by (simp_all add: demo_left_def linked_account_def valid_role_def)
  then show ?thesis
    using identity_adopts_a_local_account [OF _ demo_bob_trim run, of "''https://id''" "''u1''" "''operator''" "''bob''"] demo_bob_trim
    by fastforce
qed

end
