(* ===== verification/Masking.thy ===== *)
theory Masking
  imports Accounts Planning "HOL-Library.AList"
begin

text \<open>
  \<open>internal/deliver/pseudonym.go\<close>: the names of an installation, the tokens that stand for them in
  what is sent to a model, the matcher that puts the tokens in and the reversal. The Unicode tables
  behind \<open>unicode.IsLetter\<close> and \<open>unicode.IsDigit\<close> are a parameter: nothing here depends on which
  runes are letters. The database is read through \<open>columns\<close>: the values of a column, or nothing
  where the table or the column is not there. The key file is not modelled.
\<close>

section \<open>Runes at a place\<close>

record unicode =
  un_letter :: "int \<Rightarrow> bool"
  un_digit :: "int \<Rightarrow> bool"

definition is_word :: "unicode \<Rightarrow> int \<Rightarrow> bool" where
  "is_word u r \<longleftrightarrow> un_letter u r \<or> un_digit u r"

text \<open>\<open>utf8.DecodeRuneInString\<close> and \<open>DecodeLastRuneInString\<close>, the rune only.\<close>

definition first_rune :: "string \<Rightarrow> int" where
  "first_rune s = (case next_rune (octets s) of None \<Rightarrow> 0xFFFD | Some (r, _) \<Rightarrow> r)"

definition rune_start :: "int \<Rightarrow> bool" where
  "rune_start b \<longleftrightarrow> \<not> cont b"

definition last_rune :: "string \<Rightarrow> int" where
  "last_rune s =
     (let bs = octets s; n = length bs in
      if n = 0 then 0xFFFD
      else if last bs < 0x80 then last bs
      else case find (\<lambda>k. k \<le> n \<and> rune_start (bs ! (n - k))) [2, 3, 4] of
             None \<Rightarrow> 0xFFFD
           | Some k \<Rightarrow> (case next_rune (drop (n - k) bs) of Some (r, []) \<Rightarrow> r | _ \<Rightarrow> 0xFFFD))"

definition all_digits :: "unicode \<Rightarrow> string \<Rightarrow> bool" where
  "all_digits u s \<longleftrightarrow> s \<noteq> [] \<and> list_all (un_digit u \<circ> rune_value) (runes s)"

section \<open>The names\<close>

datatype kind =
  KDesk | KTeam | KService | KAgent | KUser | KInvoice | KCommitment | KResource | KVendor | KProduct
| KModel | KRun | KHost

fun kind_name :: "kind \<Rightarrow> string" where
  "kind_name KDesk = ''desk''" | "kind_name KTeam = ''team''" | "kind_name KService = ''svc''"
| "kind_name KAgent = ''agent''" | "kind_name KUser = ''user''" | "kind_name KInvoice = ''inv''"
| "kind_name KCommitment = ''cmt''" | "kind_name KResource = ''res''" | "kind_name KVendor = ''vendor''"
| "kind_name KProduct = ''product''" | "kind_name KModel = ''model''" | "kind_name KRun = ''run''"
| "kind_name KHost = ''host''"

definition never_masked :: "string list" where
  "never_masked = [''supervisor'', ''unclaimed'', ''management'', ''owner'', ''*'', ''Usage'', ''Purchase'',
     ''Tax'', ''Credit'', ''Adjustment'']"

text \<open>A place names are found: the kind, the table, the column, and whether it holds a list.\<close>

type_synonym name_source = "kind \<times> string \<times> string \<times> bool"

definition name_sources :: "name_source list" where
  "name_sources =
     map (\<lambda>(t, c). (KDesk, t, c, False))
       [(''charges'', ''source''), (''budgets'', ''source''), (''anomalies'', ''source''), (''attribution'', ''source''),
        (''drivers'', ''source''), (''forecasts'', ''source''), (''chargeback'', ''source''),
        (''allocation_rules'', ''source''), (''commitments'', ''source''), (''recommendations'', ''desk''),
        (''analysts'', ''desk''), (''tasks'', ''desk''), (''desk_halts'', ''desk'')] @
     map (\<lambda>(t, c). (KTeam, t, c, False))
       [(''charges'', ''team''), (''budgets'', ''team''), (''anomalies'', ''team''), (''attribution'', ''team''),
        (''ai_calls'', ''team''), (''chargeback'', ''team''), (''budget_recommendations'', ''team''),
        (''explainers'', ''team''), (''teams'', ''name''), (''unit_rules'', ''unit''), (''unit_rules'', ''business_unit'')] @
     map (\<lambda>(t, c). (KService, t, c, False))
       [(''charges'', ''service''), (''anomalies'', ''service''), (''attribution'', ''service''), (''drivers'', ''scope'')] @
     map (\<lambda>(t, c). (KAgent, t, c, False))
       [(''ai_calls'', ''agent''), (''attribution'', ''agent''), (''analysts'', ''name''), (''analysts'', ''parent''),
        (''tasks'', ''assignee''), (''artifacts'', ''author''), (''comments'', ''author''), (''plan_asks'', ''analyst''),
        (''anomalies'', ''caused_by''), (''desk_halts'', ''applied_by'')] @
     [(KAgent, ''desk_halts'', ''suspended'', True)] @
     map (\<lambda>(t, c). (KUser, t, c, False))
       [(''users'', ''username''), (''sessions'', ''username''), (''analysts'', ''owner''), (''tasks'', ''owner''),
        (''teams'', ''owner''), (''decision_requests'', ''owner''), (''desk_halts'', ''owner''), (''artifacts'', ''stamper''),
        (''artifact_options'', ''decided_by''), (''artifact_options'', ''on_behalf_of''), (''explainers'', ''author''),
        (''explainers'', ''publisher''), (''forecasts'', ''frozen_by''), (''chargeback'', ''closed_by''),
        (''anomalies'', ''handled_by''), (''unit_rules'', ''decided_by'')] @
     [(KInvoice, ''charges'', ''invoice_id'', False), (KInvoice, ''ai_calls'', ''invoice_id'', False),
      (KCommitment, ''commitments'', ''id'', False), (KResource, ''recommendations'', ''resource'', False),
      (KResource, ''recommendations'', ''id'', False), (KResource, ''recommendations'', ''source_file'', False),
      (KResource, ''budget_recommendations'', ''source_file'', False), (KVendor, ''licences'', ''vendor'', False),
      (KVendor, ''ai_calls'', ''provider'', False), (KVendor, ''recommendations'', ''provider'', False),
      (KVendor, ''budget_recommendations'', ''provider'', False), (KProduct, ''licences'', ''product'', False),
      (KModel, ''ai_calls'', ''model'', False), (KModel, ''charges'', ''model'', False),
      (KRun, ''ai_calls'', ''run_id'', False), (KRun, ''ai_calls'', ''parent_run_id'', False)]"

text \<open>An agent id is a URI whose host and last segment are names too.\<close>

definition uri_names :: "string \<Rightarrow> (kind \<times> string) list" where
  "uri_names v =
     (if starts_with ''agent://'' v then
        (let rest = drop 8 v; h = takeWhile (\<lambda>c. c \<noteq> CHR ''/'') rest in
         if h \<noteq> [] \<and> CHR ''/'' \<in> set rest then
           (KHost, h) #
           (let seg = rev (takeWhile (\<lambda>c. c \<noteq> CHR ''/'') (rev rest)) in
            if length rest - length seg - 1 > length h then [(KAgent, seg)] else [])
         else [])
      else [])"

datatype column_read = NoColumn | ReadFailed | Values "string option list"

definition column_names :: "name_source \<Rightarrow> string option list \<Rightarrow> (kind \<times> string) list" where
  "column_names src vals = (case src of (k, _, _, split) \<Rightarrow>
     concat (map (\<lambda>v. if split then map (Pair k) (split_at (CHR '','') v) else (k, v) # uri_names v)
       (sort_strings (remdups [v. Some v \<leftarrow> vals, v \<noteq> []]))))"

fun read_sources :: "(string \<Rightarrow> string \<Rightarrow> column_read) \<Rightarrow> name_source list \<Rightarrow> (kind \<times> string) list option" where
  "read_sources columns [] = Some []"
| "read_sources columns (src # srcs) =
     (case columns (fst (snd src)) (fst (snd (snd src))) of
        NoColumn \<Rightarrow> read_sources columns srcs
      | ReadFailed \<Rightarrow> None
      | Values vals \<Rightarrow> map_option (\<lambda>es. column_names src vals @ es) (read_sources columns srcs))"

definition shared_names :: "(kind \<times> string) list" where
  "shared_names = map (Pair KDesk) world_desks @ map (\<lambda>(n, _). (KTeam, n)) world_teams"

text \<open>\<open>collect\<close>: no database holds the names every installation shares.\<close>

definition collect :: "(string \<Rightarrow> string \<Rightarrow> column_read) option \<Rightarrow> (kind \<times> string) list option" where
  "collect db =
     (case db of None \<Rightarrow> Some shared_names
      | Some columns \<Rightarrow> map_option (\<lambda>es. shared_names @ es) (read_sources columns name_sources))"

definition usable :: "unicode \<Rightarrow> string \<Rightarrow> bool" where
  "usable u v \<longleftrightarrow> v = trim_space v \<and> 2 \<le> length (runes v) \<and> v \<notin> set never_masked \<and>
     (\<not> list_all (un_digit u \<circ> rune_value) (runes v) \<or> 3 \<le> length v)"

section \<open>Tokens\<close>

datatype prompt_data = PromptFull | PromptMasked | PromptAggregates

record policy =
  po_mode :: prompt_data
  po_key :: "int list"
  po_fwd :: "(string \<times> string) list"
  po_rev :: "(string \<times> string) list"

definition name_digest :: "policy \<Rightarrow> kind \<Rightarrow> string \<Rightarrow> string" where
  "name_digest p k v = hex (hmac_sha256 (po_key p) (octets (kind_name k) @ [0] @ octets v))"

definition candidate :: "policy \<Rightarrow> kind \<Rightarrow> string \<Rightarrow> nat \<Rightarrow> string" where
  "candidate p k v n = kind_name k @ ''-'' @ take n (name_digest p k v)"

text \<open>None is the panic of a name for which every prefix of the digest is taken.\<close>

definition token_for :: "kind \<Rightarrow> string \<Rightarrow> policy \<Rightarrow> (string \<times> policy) option" where
  "token_for k v p =
     (case map_of (po_fwd p) v of Some t \<Rightarrow> Some (t, p)
      | None \<Rightarrow>
          (case find (\<lambda>n. map_of (po_rev p) (candidate p k v n) = None) [4..<Suc (length (name_digest p k v))] of
             None \<Rightarrow> None
           | Some n \<Rightarrow> Some (candidate p k v n,
               p\<lparr>po_fwd := (v, candidate p k v n) # po_fwd p, po_rev := (candidate p k v n, v) # po_rev p\<rparr>)))"

fun name_tokens :: "unicode \<Rightarrow> (kind \<times> string) list \<Rightarrow> (string \<times> string) list \<Rightarrow> policy \<Rightarrow>
    ((string \<times> string) list \<times> policy) option" where
  "name_tokens u [] dict p = Some (dict, p)"
| "name_tokens u ((k, e) # es) dict p =
     (let v = trim_space e in
      if \<not> usable u v \<or> map_of dict v \<noteq> None then name_tokens u es dict p
      else case token_for k v p of None \<Rightarrow> None
      | Some (t, q) \<Rightarrow> name_tokens u es (AList.update v t dict) q)"

definition withheld_free_text :: string where
  "withheld_free_text = ''[withheld: free text is not sent to the model under this -prompt-data setting]''"

definition withheld_label :: string where "withheld_label = ''[label withheld]''"

definition mask_failed :: string where
  "mask_failed = ''[withheld: the names in this installation could not be read, so nothing is sent unmasked]''"

definition prompt_example_token :: string where "prompt_example_token = ''team-xxxx''"

definition keep_names :: "string list \<Rightarrow> (string \<times> string) list \<Rightarrow> (string \<times> string) list" where
  "keep_names ks dict = foldl (\<lambda>d k. if k = [] then d else AList.update k k d) dict ks"

definition dictionary :: "unicode \<Rightarrow> (kind \<times> string) list \<Rightarrow> string list \<Rightarrow> policy \<Rightarrow> ((string \<times> string) list \<times> policy) option" where
  "dictionary u es keep p =
     map_option (\<lambda>(d, q). (keep_names (keep @ [withheld_free_text, withheld_label, mask_failed]) d, q))
       (name_tokens u es [] p)"

section \<open>The matcher\<close>

text \<open>A node of the trie: the name that ends here (empty for none), its token, the next bytes.\<close>

datatype node = Node (node_key: string) (node_tok: string) (node_next: "(char \<times> node) list")

definition empty_node :: node where "empty_node = Node [] [] []"

definition child :: "node \<Rightarrow> char \<Rightarrow> node option" where
  "child n c = map_of (node_next n) c"

fun insert_name :: "string \<Rightarrow> string \<Rightarrow> string \<Rightarrow> node \<Rightarrow> node" where
  "insert_name k t [] n = Node k t (node_next n)"
| "insert_name k t (c # s) n =
     Node (node_key n) (node_tok n)
       (AList.update c (insert_name k t s (case child n c of None \<Rightarrow> empty_node | Some m \<Rightarrow> m)) (node_next n))"

definition new_matcher :: "(string \<times> string) list \<Rightarrow> node" where
  "new_matcher dict = foldl (\<lambda>m (k, t). insert_name k t k m) empty_node dict"

definition beside_an_amount :: "string \<Rightarrow> string \<Rightarrow> bool" where
  "beside_an_amount before after \<longleftrightarrow>
     (length before \<ge> 2 \<and> last before \<in> {CHR ''.'', CHR '',''} \<and> is_digit (before ! (length before - 2))) \<or>
     (length after \<ge> 2 \<and> after ! 0 \<in> {CHR ''.'', CHR '',''} \<and> is_digit (after ! 1))"

text \<open>Whether a name may start, and whether the name \<open>k\<close> may end, at a place of the text.\<close>

definition starts_whole :: "unicode \<Rightarrow> string \<Rightarrow> string \<Rightarrow> bool" where
  "starts_whole u before rest \<longleftrightarrow>
     \<not> (is_word u (first_rune rest) \<and> before \<noteq> [] \<and> is_word u (last_rune before))"

definition ends_whole :: "unicode \<Rightarrow> string \<Rightarrow> string \<Rightarrow> string \<Rightarrow> bool" where
  "ends_whole u before k after \<longleftrightarrow>
     \<not> (is_word u (last_rune k) \<and> after \<noteq> [] \<and> is_word u (first_rune after)) \<and>
     \<not> (all_digits u k \<and> beside_an_amount before after)"

fun walk :: "unicode \<Rightarrow> string \<Rightarrow> node \<Rightarrow> nat \<Rightarrow> string \<Rightarrow> (nat \<times> string) option \<Rightarrow> (nat \<times> string) option" where
  "walk u before n e [] best = best"
| "walk u before n e (c # after) best =
     (case child n c of None \<Rightarrow> best
      | Some m \<Rightarrow>
          walk u before m (Suc e) after
            (if node_key m \<noteq> [] \<and> ends_whole u before (node_key m) after then Some (Suc e, node_tok m) else best))"

definition longest :: "unicode \<Rightarrow> node \<Rightarrow> string \<Rightarrow> string \<Rightarrow> (nat \<times> string) option" where
  "longest u m before rest = (if starts_whole u before rest then walk u before m 0 rest None else None)"

function apply_from :: "unicode \<Rightarrow> node \<Rightarrow> string \<Rightarrow> string \<Rightarrow> string" where
  "apply_from u m before rest =
     (case rest of [] \<Rightarrow> []
      | c # s \<Rightarrow>
          (case (if child m c \<noteq> None then longest u m before rest else None) of
             Some (n, t) \<Rightarrow> if n > 0 then t @ apply_from u m (before @ take n rest) (drop n rest)
                            else c # apply_from u m (before @ [c]) s
           | None \<Rightarrow> c # apply_from u m (before @ [c]) s))"
  by pat_completeness auto
termination by (relation "measure (\<lambda>(u, m, b, r). length r)") auto

declare apply_from.simps [simp del]

definition apply_matcher :: "unicode \<Rightarrow> node \<Rightarrow> string \<Rightarrow> string" where
  "apply_matcher u m text = (if node_next m = [] then text else apply_from u m [] text)"

definition mask_with :: "unicode \<Rightarrow> string \<Rightarrow> (kind \<times> string) list \<Rightarrow> string list \<Rightarrow> policy \<Rightarrow> (string \<times> policy) option" where
  "mask_with u text es keep p =
     (if po_mode p = PromptFull then Some (text, p)
      else map_option (\<lambda>(d, q). (apply_matcher u (new_matcher d) text, q)) (dictionary u es keep p))"

definition mask_store :: "unicode \<Rightarrow> (string \<Rightarrow> string \<Rightarrow> column_read) option \<Rightarrow> string \<Rightarrow> string list \<Rightarrow> policy \<Rightarrow>
    (string \<times> policy) option" where
  "mask_store u db text keep p =
     (if po_mode p = PromptFull \<or> text = [] then Some (text, p)
      else case collect db of None \<Rightarrow> Some (mask_failed, p) | Some es \<Rightarrow> mask_with u text es keep p)"

section \<open>The reversal\<close>

text \<open>The regular expression of a token, any case: \<open>s\<close> and \<open>k\<close> fold with one more rune each.\<close>

definition fold_char :: "char \<Rightarrow> string \<Rightarrow> string option" where
  "fold_char c s =
     (case s of d # t \<Rightarrow>
        if byte d = byte c \<or> (97 \<le> byte c \<and> byte c \<le> 122 \<and> byte d + 32 = byte c) then Some t
        else if c = CHR ''s'' \<and> octets (take 2 s) = [0xC5, 0xBF] then Some (drop 2 s)
        else if c = CHR ''k'' \<and> octets (take 3 s) = [0xE2, 0x84, 0xAA] then Some (drop 3 s)
        else None
      | [] \<Rightarrow> None)"

fun fold_text :: "string \<Rightarrow> string \<Rightarrow> string option" where
  "fold_text [] s = Some s"
| "fold_text (c # w) s = (case fold_char c s of None \<Rightarrow> None | Some t \<Rightarrow> fold_text w t)"

definition hex_byte :: "char \<Rightarrow> bool" where
  "hex_byte c \<longleftrightarrow> hex_value c \<noteq> None"

definition token_kinds :: "kind list" where
  "token_kinds = [KTeam, KDesk, KService, KAgent, KUser, KInvoice, KVendor, KProduct, KCommitment, KResource, KModel, KRun, KHost]"

definition kind_here :: "string \<Rightarrow> kind \<Rightarrow> string option" where
  "kind_here s k =
     (case fold_text (kind_name k @ ''-'') s of None \<Rightarrow> None
      | Some t \<Rightarrow> (let h = takeWhile hex_byte t in if length h < 4 then None else Some (drop (length h) t)))"

text \<open>The length of the token that starts here, if one does.\<close>

definition token_here :: "string \<Rightarrow> nat option" where
  "token_here s =
     (case List.map_filter (kind_here s) token_kinds of [] \<Rightarrow> None | t # _ \<Rightarrow> Some (length s - length t))"

definition token_name :: "unicode \<Rightarrow> policy \<Rightarrow> string \<Rightarrow> string \<Rightarrow> string \<Rightarrow> string option" where
  "token_name u p before t after =
     (if before \<noteq> [] \<and> is_word u (last_rune before) then None
      else if after \<noteq> [] \<and> is_word u (first_rune after) then None
      else if lower_text t = prompt_example_token then None
      else map_of (po_rev p) (lower_text t))"

function reidentify_from :: "unicode \<Rightarrow> policy \<Rightarrow> string \<Rightarrow> string \<Rightarrow> string" where
  "reidentify_from u p before rest =
     (case rest of [] \<Rightarrow> []
      | c # s \<Rightarrow>
          (case token_here rest of
             Some n \<Rightarrow>
               if n > 0 then
                 (case token_name u p before (take n rest) (drop n rest) of None \<Rightarrow> take n rest | Some v \<Rightarrow> v) @
                 reidentify_from u p (before @ take n rest) (drop n rest)
               else c # reidentify_from u p (before @ [c]) s
           | None \<Rightarrow> c # reidentify_from u p (before @ [c]) s))"
  by pat_completeness auto
termination by (relation "measure (\<lambda>(u, p, b, r). length r)") auto

declare reidentify_from.simps [simp del]

definition reidentify :: "unicode \<Rightarrow> (string \<Rightarrow> string \<Rightarrow> column_read) option \<Rightarrow> string \<Rightarrow> policy \<Rightarrow> (string \<times> policy) option" where
  "reidentify u db text p =
     (if po_mode p = PromptFull \<or> text = [] then Some (text, p)
      else map_option (\<lambda>q. (reidentify_from u q [] text, q))
        (case collect db of None \<Rightarrow> Some p | Some es \<Rightarrow> map_option snd (dictionary u es [] p)))"

section \<open>The trie holds the dictionary\<close>

fun node_at :: "node \<Rightarrow> string \<Rightarrow> node option" where
  "node_at n [] = Some n"
| "node_at n (c # s) = (case child n c of None \<Rightarrow> None | Some m \<Rightarrow> node_at m s)"

definition found_at :: "node \<Rightarrow> string \<Rightarrow> (string \<times> string) option" where
  "found_at n s =
     (case node_at n s of None \<Rightarrow> None | Some m \<Rightarrow> if node_key m = [] then None else Some (node_key m, node_tok m))"

lemma node_at_append: "node_at n (a @ b) = (case node_at n a of None \<Rightarrow> None | Some m \<Rightarrow> node_at m b)"
  by (induction a arbitrary: n) (auto split: option.split)

lemma found_at_Cons: "found_at n (c # s) = (case child n c of None \<Rightarrow> None | Some m \<Rightarrow> found_at m s)"
  by (simp add: found_at_def split: option.split)

lemma found_at_empty [simp]: "found_at empty_node s = None"
  by (cases s) (simp_all add: found_at_def empty_node_def child_def)

lemma found_at_insert:
  "k \<noteq> [] \<Longrightarrow> found_at (insert_name k t path n) s = (if s = path then Some (k, t) else found_at n s)"
proof (induction path arbitrary: n s)
  case Nil
  then show ?case by (cases s) (simp_all add: found_at_def child_def)
next
  case (Cons c path)
  let ?m = "case child n c of None \<Rightarrow> empty_node | Some m \<Rightarrow> m"
  show ?case
  proof (cases s)
    case Nil
    then show ?thesis by (simp add: found_at_def)
  next
    case (Cons d s')
    have "child (insert_name k t (c # path) n) d = (if d = c then Some (insert_name k t path ?m) else child n d)"
      by (simp add: child_def update_conv)
    then show ?thesis
      using Cons.IH [OF Cons.prems, of ?m s'] by (auto simp: Cons found_at_Cons split: option.split)
  qed
qed

lemma found_new_matcher:
  assumes "distinct (map fst dict)" and "[] \<notin> fst ` set dict"
  shows "found_at (new_matcher dict) s = map_option (Pair s) (map_of dict s)"
proof -
  have "found_at (foldl (\<lambda>m (k, t). insert_name k t k m) n dict) s =
      (case map_of dict s of Some t \<Rightarrow> Some (s, t) | None \<Rightarrow> found_at n s)" for n
    using assms
  proof (induction dict arbitrary: n)
    case (Cons kt dict)
    obtain k t where kt: "kt = (k, t)" by (cases kt)
    have "map_of dict k = None" using Cons.prems(1) by (simp add: kt map_of_eq_None_iff)
    with Cons show ?case by (auto simp: kt found_at_insert split: option.split)
  qed simp
  then show ?thesis by (simp add: new_matcher_def split: option.split)
qed

section \<open>The matcher takes the longest whole name\<close>

text \<open>A name of the dictionary is the next \<open>n\<close> bytes and may end there.\<close>

definition name_ends :: "unicode \<Rightarrow> (string \<times> string) list \<Rightarrow> string \<Rightarrow> string \<Rightarrow> nat \<Rightarrow> bool" where
  "name_ends u dict before rest n \<longleftrightarrow>
     0 < n \<and> n \<le> length rest \<and> map_of dict (take n rest) \<noteq> None \<and> ends_whole u before (take n rest) (drop n rest)"

definition best_end :: "unicode \<Rightarrow> (string \<times> string) list \<Rightarrow> string \<Rightarrow> string \<Rightarrow> nat \<Rightarrow> (nat \<times> string) option \<Rightarrow>
    (nat \<times> string) option" where
  "best_end u dict before rest lo best =
     (case filter (name_ends u dict before rest) (rev [lo..<Suc (length rest)]) of [] \<Rightarrow> best
      | n # _ \<Rightarrow> Some (n, the (map_of dict (take n rest))))"

definition mask_choice :: "unicode \<Rightarrow> (string \<times> string) list \<Rightarrow> string \<Rightarrow> string \<Rightarrow> (nat \<times> string) option" where
  "mask_choice u dict before rest = (if starts_whole u before rest then best_end u dict before rest 1 None else None)"

lemma best_end_step:
  assumes "lo \<le> length rest"
  shows "best_end u dict before rest lo best = best_end u dict before rest (Suc lo)
    (if name_ends u dict before rest lo then Some (lo, the (map_of dict (take lo rest))) else best)"
proof -
  have "[lo..<Suc (length rest)] = lo # [Suc lo..<Suc (length rest)]" using assms by (simp add: upt_conv_Cons)
  then show ?thesis
    by (simp add: best_end_def split: list.split)
qed

lemma walk_best:
  assumes "distinct (map fst dict)" and "[] \<notin> fst ` set dict" and "node_at (new_matcher dict) pre = Some n"
  shows "walk u before n (length pre) rest best = best_end u dict before (pre @ rest) (Suc (length pre)) best"
  using assms(3)
proof (induction rest arbitrary: pre n best)
  case Nil
  then show ?case by (simp add: best_end_def)
next
  case (Cons c after)
  let ?w = "pre @ c # after"
  have take: "take (Suc (length pre)) ?w = pre @ [c]" "drop (Suc (length pre)) ?w = after" by simp_all
  have found: "found_at (new_matcher dict) (pre @ c # s) = map_option (Pair (pre @ c # s)) (map_of dict (pre @ c # s))" for s
    by (rule found_new_matcher [OF assms(1,2)])
  show ?case
  proof (cases "child n c")
    case None
    have "map_of dict (pre @ c # s) = None" for s
      using found [of s] None Cons.prems by (simp add: found_at_def node_at_append)
    moreover have "take k ?w = pre @ c # take (k - Suc (length pre)) after" if "Suc (length pre) \<le> k" for k
    proof -
      obtain j where "k = Suc (length pre + j)" using \<open>Suc (length pre) \<le> k\<close> by (metis add_Suc le_iff_add)
      then show ?thesis by simp
    qed
    ultimately have "\<not> name_ends u dict before ?w k" if "Suc (length pre) \<le> k" for k
      using that by (simp add: name_ends_def)
    then have "filter (name_ends u dict before ?w) (rev [Suc (length pre)..<Suc (length ?w)]) = []"
      by (auto simp: filter_empty_conv)
    then show ?thesis using None by (simp only: best_end_def list.case walk.simps option.case)
  next
    case (Some m)
    have at: "node_at (new_matcher dict) (pre @ [c]) = Some m" using Cons.prems Some by (simp add: node_at_append)
    have "(if node_key m = [] then None else Some (node_key m, node_tok m)) = map_option (Pair (pre @ [c])) (map_of dict (pre @ [c]))"
      using found [of "[]"] at by (simp add: found_at_def)
    then have key: "node_key m \<noteq> [] \<longleftrightarrow> map_of dict (pre @ [c]) \<noteq> None"
      "node_key m \<noteq> [] \<Longrightarrow> node_key m = pre @ [c] \<and> node_tok m = the (map_of dict (pre @ [c]))"
      by (cases "map_of dict (pre @ [c])"; simp split: if_splits)+
    have "name_ends u dict before ?w (Suc (length pre)) \<longleftrightarrow>
        node_key m \<noteq> [] \<and> ends_whole u before (node_key m) after"
      unfolding name_ends_def take using key by auto
    then have "best_end u dict before ?w (Suc (length pre)) best = best_end u dict before ?w (Suc (Suc (length pre)))
        (if node_key m \<noteq> [] \<and> ends_whole u before (node_key m) after then Some (Suc (length pre), node_tok m) else best)"
      using key by (subst best_end_step) (simp_all only: take length_append list.size, auto)
    then show ?thesis using Cons.IH [OF at] Some by simp
  qed
qed

lemma longest_is_choice:
  assumes "distinct (map fst dict)" and "[] \<notin> fst ` set dict"
  shows "longest u (new_matcher dict) before rest = mask_choice u dict before rest"
  using walk_best [OF assms, of "[]"] by (simp add: longest_def mask_choice_def)

section \<open>Every piece of a masked text\<close>

text \<open>The text in pieces: a byte and itself, or a name and its token.\<close>

function mask_pieces :: "unicode \<Rightarrow> (string \<times> string) list \<Rightarrow> string \<Rightarrow> string \<Rightarrow> (string \<times> string) list" where
  "mask_pieces u dict before rest =
     (case rest of [] \<Rightarrow> []
      | c # s \<Rightarrow>
          (case mask_choice u dict before rest of
             Some (n, t) \<Rightarrow> if n > 0 then (take n rest, t) # mask_pieces u dict (before @ take n rest) (drop n rest)
                            else ([c], [c]) # mask_pieces u dict (before @ [c]) s
           | None \<Rightarrow> ([c], [c]) # mask_pieces u dict (before @ [c]) s))"
  by pat_completeness auto
termination by (relation "measure (\<lambda>(u, d, b, r). length r)") auto

declare mask_pieces.simps [simp del]

lemma mask_choice_SomeD:
  assumes "mask_choice u dict before rest = Some (n, t)"
  shows "starts_whole u before rest" and "name_ends u dict before rest n" and "map_of dict (take n rest) = Some t"
    and "m > n \<Longrightarrow> \<not> name_ends u dict before rest m"
proof -
  let ?ns = "filter (name_ends u dict before rest) (rev [1..<Suc (length rest)])"
  show s: "starts_whole u before rest" using assms by (simp add: mask_choice_def split: if_splits)
  then obtain ns where ns: "?ns = n # ns" and t: "t = the (map_of dict (take n rest))"
    using assms by (auto simp: mask_choice_def best_end_def split: list.splits)
  have "n \<in> set ?ns" by (simp only: ns list.set_intros)
  then show n: "name_ends u dict before rest n" by simp
  then show "map_of dict (take n rest) = Some t" using t by (auto simp: name_ends_def)
  have "sorted_wrt (<) [1..<Suc (length rest)]" by (rule sorted_wrt_upt)
  then have "sorted_wrt (>) (rev [1..<Suc (length rest)])" by (simp only: sorted_wrt_rev)
  then have "sorted_wrt (>) (n # ns)" unfolding ns [symmetric] by (rule sorted_wrt_filter)
  then have le: "\<forall>m \<in> set ?ns. m \<le> n" unfolding ns by auto
  show "\<not> name_ends u dict before rest m" if "m > n"
  proof
    assume "name_ends u dict before rest m"
    moreover from this have "m \<in> {1..<Suc (length rest)}" by (simp add: name_ends_def less_Suc_eq_le)
    ultimately have "m \<in> set ?ns" by (simp only: set_filter set_rev set_upt mem_Collect_eq simp_thms)
    then show False using le that by fastforce
  qed
qed

lemma mask_choice_NoneD:
  assumes "mask_choice u dict before rest = None" and "starts_whole u before rest"
  shows "\<not> name_ends u dict before rest m"
proof
  assume m: "name_ends u dict before rest m"
  have "filter (name_ends u dict before rest) (rev [1..<Suc (length rest)]) = []"
    using assms by (auto simp: mask_choice_def best_end_def split: list.splits)
  then have "\<forall>k \<in> {1..<Suc (length rest)}. \<not> name_ends u dict before rest k"
    by (simp only: filter_empty_conv set_rev set_upt)
  moreover have "m \<in> {1..<Suc (length rest)}" using m by (auto simp: name_ends_def)
  ultimately show False using m by blast
qed

lemma choice_child:
  assumes "distinct (map fst dict)" and "[] \<notin> fst ` set dict" and "mask_choice u dict before (c # s) = Some nt"
  shows "child (new_matcher dict) c \<noteq> None"
proof
  assume "child (new_matcher dict) c = None"
  then have "walk u before (new_matcher dict) 0 (c # s) None = None" by simp
  then show False using assms(3) longest_is_choice [OF assms(1,2), of u before "c # s"]
    by (simp add: longest_def split: if_splits)
qed

lemma apply_from_pieces:
  assumes "distinct (map fst dict)" and "[] \<notin> fst ` set dict"
  shows "apply_from u (new_matcher dict) before rest = concat (map snd (mask_pieces u dict before rest)) \<and>
    concat (map fst (mask_pieces u dict before rest)) = rest"
proof (induction "length rest" arbitrary: before rest rule: less_induct)
  case less
  show ?case
  proof (cases rest)
    case Nil
    then show ?thesis by (simp add: apply_from.simps mask_pieces.simps)
  next
    case (Cons c s)
    note L = longest_is_choice [OF assms, of u before "c # s"]
    show ?thesis
    proof (cases "mask_choice u dict before (c # s)")
      case None
      have "apply_from u (new_matcher dict) before rest = c # apply_from u (new_matcher dict) (before @ [c]) s"
        unfolding Cons by (subst apply_from.simps) (simp add: L None)
      moreover have "mask_pieces u dict before rest = ([c], [c]) # mask_pieces u dict (before @ [c]) s"
        unfolding Cons by (subst mask_pieces.simps) (simp add: None)
      ultimately show ?thesis using less [of s "before @ [c]"] Cons by simp
    next
      case (Some nt)
      obtain n t where nt: "nt = (n, t)" by (cases nt)
      note c = choice_child [OF assms Some]
      have n: "0 < n" using mask_choice_SomeD(2) [OF Some [unfolded nt]] by (simp add: name_ends_def)
      have "apply_from u (new_matcher dict) before rest =
          t @ apply_from u (new_matcher dict) (before @ take n (c # s)) (drop n (c # s))"
        unfolding Cons by (subst apply_from.simps) (use L Some c n in \<open>auto simp: nt\<close>)
      moreover have "mask_pieces u dict before rest =
          (take n (c # s), t) # mask_pieces u dict (before @ take n (c # s)) (drop n (c # s))"
        unfolding Cons by (subst mask_pieces.simps) (use Some n in \<open>simp add: nt\<close>)
      ultimately show ?thesis
        using less [of "drop n (c # s)" "before @ take n (c # s)"] n Cons by simp
    qed
  qed
qed

text \<open>What a piece of the text is, by what stands before it and after it.\<close>

definition piece_ok :: "unicode \<Rightarrow> (string \<times> string) list \<Rightarrow> string \<Rightarrow> string \<times> string \<Rightarrow> string \<Rightarrow> bool" where
  "piece_ok u dict before x after \<longleftrightarrow>
     (let rest = fst x @ after in
      (length (fst x) = 1 \<and> snd x = fst x \<and> (starts_whole u before rest \<longrightarrow> (\<forall>n. \<not> name_ends u dict before rest n))) \<or>
      (starts_whole u before rest \<and> name_ends u dict before rest (length (fst x)) \<and>
        map_of dict (fst x) = Some (snd x) \<and> (\<forall>m > length (fst x). \<not> name_ends u dict before rest m)))"

lemma mask_pieces_ok:
  assumes "distinct (map fst dict)" and "[] \<notin> fst ` set dict"
  shows "mask_pieces u dict before rest = xs @ x # ys \<Longrightarrow>
    piece_ok u dict (before @ concat (map fst xs)) x (concat (map fst ys))"
proof (induction "length rest" arbitrary: before rest xs rule: less_induct)
  case less
  have whole: "concat (map fst (xs @ x # ys)) = rest"
    using apply_from_pieces [OF assms, of u before rest] less.prems by simp
  show ?case
  proof (cases rest)
    case Nil
    then show ?thesis using less.prems by (simp add: mask_pieces.simps)
  next
    case (Cons c s)
    show ?thesis
    proof (cases "mask_choice u dict before (c # s)")
      case None
      have p: "mask_pieces u dict before rest = ([c], [c]) # mask_pieces u dict (before @ [c]) s"
        unfolding Cons by (subst mask_pieces.simps) (simp add: None)
      show ?thesis
      proof (cases xs)
        case Nil
        then have "x = ([c], [c])" "[c] @ concat (map fst ys) = c # s"
          using less.prems p whole Cons by auto
        then show ?thesis using mask_choice_NoneD [OF None] Nil by (auto simp: piece_ok_def Let_def)
      next
        case (Cons y xs')
        then have "y = ([c], [c])" "mask_pieces u dict (before @ [c]) s = xs' @ x # ys"
          using less.prems p by auto
        then show ?thesis using less.hyps [of s "before @ [c]" xs'] \<open>rest = c # s\<close> Cons by simp
      qed
    next
      case (Some nt)
      obtain n t where nt: "nt = (n, t)" by (cases nt)
      note C = mask_choice_SomeD [OF Some [unfolded nt]]
      have n: "0 < n" "n \<le> length (c # s)" using C(2) by (simp_all add: name_ends_def)
      have p: "mask_pieces u dict before rest =
          (take n (c # s), t) # mask_pieces u dict (before @ take n (c # s)) (drop n (c # s))"
        unfolding Cons by (subst mask_pieces.simps) (use Some n in \<open>simp add: nt\<close>)
      show ?thesis
      proof (cases xs)
        case Nil
        then have x: "x = (take n (c # s), t)" using less.prems p by auto
        moreover have "take n (c # s) @ concat (map fst ys) = c # s" using whole x Nil Cons by simp
        moreover have "length (take n (c # s)) = n" using n(2) by simp
        ultimately show ?thesis using C Nil unfolding piece_ok_def Let_def by auto
      next
        case (Cons y xs')
        then have "y = (take n (c # s), t)"
          "mask_pieces u dict (before @ take n (c # s)) (drop n (c # s)) = xs' @ x # ys"
          using less.prems p by auto
        then show ?thesis
          using less.hyps [of "drop n (c # s)" "before @ take n (c # s)" xs'] n \<open>rest = c # s\<close> Cons by simp
      qed
    qed
  qed
qed

section \<open>Tokens are for good\<close>

definition tokens_ok :: "policy \<Rightarrow> bool" where
  "tokens_ok p \<longleftrightarrow> (\<forall>v t. map_of (po_fwd p) v = Some t \<longleftrightarrow> map_of (po_rev p) t = Some v)"

definition grows :: "policy \<Rightarrow> policy \<Rightarrow> bool" where
  "grows p q \<longleftrightarrow> po_mode q = po_mode p \<and> po_key q = po_key p \<and> map_of (po_fwd p) \<subseteq>\<^sub>m map_of (po_fwd q)"

lemma grows_refl [simp]: "grows p p"
  by (simp add: grows_def)

lemma grows_trans: "grows p q \<Longrightarrow> grows q r \<Longrightarrow> grows p r"
  by (auto simp: grows_def intro: map_le_trans)

lemma token_for_grows:
  assumes "token_for k v p = Some (t, q)" and "tokens_ok p"
  shows "tokens_ok q \<and> grows p q \<and> map_of (po_fwd q) v = Some t"
proof (cases "map_of (po_fwd p) v")
  case (Some t')
  then show ?thesis using assms by (simp add: token_for_def)
next
  case None
  let ?F = "find (\<lambda>n. map_of (po_rev p) (candidate p k v n) = None) [4..<Suc (length (name_digest p k v))]"
  have run: "token_for k v p = (case ?F of None \<Rightarrow> None
           | Some n \<Rightarrow> Some (candidate p k v n,
               p\<lparr>po_fwd := (v, candidate p k v n) # po_fwd p, po_rev := (candidate p k v n, v) # po_rev p\<rparr>))"
    by (simp only: token_for_def None option.case)
  then obtain n where n: "?F = Some n" using assms(1) by (cases ?F) (simp_all only: option.case option.distinct)
  then have q: "q = p\<lparr>po_fwd := (v, candidate p k v n) # po_fwd p, po_rev := (candidate p k v n, v) # po_rev p\<rparr>"
    and t: "t = candidate p k v n"
    using assms(1) unfolding run n by auto
  have free: "map_of (po_rev p) t = None" using n unfolding t find_Some_iff by blast
  have "tokens_ok q"
    unfolding tokens_ok_def
  proof (intro allI)
    fix w r
    show "map_of (po_fwd q) w = Some r \<longleftrightarrow> map_of (po_rev q) r = Some w"
      using assms(2) None free unfolding tokens_ok_def q t [symmetric] by (auto split: if_splits) (metis option.distinct(1))+
  qed
  moreover have "map_of (po_fwd p) \<subseteq>\<^sub>m map_of (po_fwd q)"
    using None by (auto simp: q map_le_def)
  ultimately show ?thesis by (simp add: grows_def q t)
qed

lemma keys_of_update: "fst ` set (AList.update k v al) = insert k (fst ` set al)"
  using dom_update [of k v al] by (simp only: dom_map_of_conv_image_fst) simp

lemma name_tokens_grows:
  assumes "name_tokens u es dict p = Some (d, q)" and "tokens_ok p"
    and "\<forall>v t. map_of dict v = Some t \<longrightarrow> map_of (po_fwd p) v = Some t" and "distinct (map fst dict)" and "[] \<notin> fst ` set dict"
  shows "tokens_ok q \<and> grows p q \<and> (\<forall>v t. map_of d v = Some t \<longrightarrow> map_of (po_fwd q) v = Some t) \<and>
    distinct (map fst d) \<and> [] \<notin> fst ` set d"
  using assms
proof (induction u es dict p rule: name_tokens.induct)
  case (2 u k e es dict p)
  let ?v = "trim_space e"
  show ?case
  proof (cases "\<not> usable u ?v \<or> map_of dict ?v \<noteq> None")
    case True
    then have "name_tokens u es dict p = Some (d, q)" using "2.prems"(1) by simp
    then show ?thesis using "2.IH"(1) [OF refl True] "2.prems"(2-5) by blast
  next
    case False
    then obtain t p' where t: "token_for k ?v p = Some (t, p')"
      and r: "name_tokens u es (AList.update ?v t dict) p' = Some (d, q)"
      using "2.prems"(1) by (auto simp: Let_def split: option.splits)
    note g = token_for_grows [OF t "2.prems"(2)]
    have "?v \<noteq> []" using False by (auto simp: usable_def runes_def rune_list.simps)
    have old: "\<forall>w r. map_of (AList.update ?v t dict) w = Some r \<longrightarrow> map_of (po_fwd p') w = Some r"
      using "2.prems"(3) g by (auto simp: update_conv grows_def map_le_def dom_def)
    have "distinct (map fst (AList.update ?v t dict))" using "2.prems"(4) by (rule distinct_update)
    moreover have "[] \<notin> fst ` set (AList.update ?v t dict)"
      using "2.prems"(5) \<open>?v \<noteq> []\<close> by (simp add: keys_of_update)
    ultimately show ?thesis
      using "2.IH"(2) [OF refl False t refl r _ old] g grows_trans by blast
  qed
qed auto

lemma keep_names_keys:
  assumes "distinct (map fst dict)" and "[] \<notin> fst ` set dict"
  shows "distinct (map fst (keep_names ks dict)) \<and> [] \<notin> fst ` set (keep_names ks dict)"
proof -
  have "distinct (map fst (foldl (\<lambda>d k. if k = [] then d else AList.update k k d) dict ks)) \<and>
      [] \<notin> fst ` set (foldl (\<lambda>d k. if k = [] then d else AList.update k k d) dict ks)"
    using assms
  proof (induction ks arbitrary: dict)
    case (Cons k ks)
    have "distinct (map fst (AList.update k k dict))" using Cons.prems(1) by (rule distinct_update)
    moreover have "k \<noteq> [] \<Longrightarrow> [] \<notin> fst ` set (AList.update k k dict)"
      using Cons.prems(2) by (simp add: keys_of_update)
    ultimately show ?case using Cons by simp
  qed simp
  then show ?thesis by (simp add: keep_names_def)
qed

lemma keep_names_reads:
  "map_of (keep_names ks dict) v = (if v \<noteq> [] \<and> v \<in> set ks then Some v else map_of dict v)"
proof -
  have "map_of (foldl (\<lambda>d k. if k = [] then d else AList.update k k d) dict ks) v =
      (if v \<noteq> [] \<and> v \<in> set ks then Some v else map_of dict v)"
    by (induction ks arbitrary: dict) (auto simp: update_conv)
  then show ?thesis by (simp add: keep_names_def)
qed

lemma dictionary_facts:
  assumes "dictionary u es keep p = Some (d, q)" and "tokens_ok p"
  shows "tokens_ok q" and "grows p q" and "distinct (map fst d)" and "[] \<notin> fst ` set d"
    and "map_of d v = Some t \<Longrightarrow> map_of (po_fwd q) v = Some t \<or>
      t = v \<and> v \<in> set (keep @ [withheld_free_text, withheld_label, mask_failed])"
proof -
  obtain d' where d': "name_tokens u es [] p = Some (d', q)"
    and d: "d = keep_names (keep @ [withheld_free_text, withheld_label, mask_failed]) d'"
    using assms(1) by (auto simp: dictionary_def)
  have n: "tokens_ok q \<and> grows p q \<and> (\<forall>v t. map_of d' v = Some t \<longrightarrow> map_of (po_fwd q) v = Some t) \<and>
    distinct (map fst d') \<and> [] \<notin> fst ` set d'"
    by (rule name_tokens_grows [OF d' assms(2)]) simp_all
  then show "tokens_ok q" "grows p q" by blast+
  have keys: "distinct (map fst d')" "[] \<notin> fst ` set d'" using n by blast+
  show "distinct (map fst d)" "[] \<notin> fst ` set d" unfolding d using keep_names_keys [OF keys] by blast+
  show "map_of (po_fwd q) v = Some t \<or> t = v \<and> v \<in> set (keep @ [withheld_free_text, withheld_label, mask_failed])"
    if "map_of d v = Some t"
    using that n unfolding d keep_names_reads by (auto split: if_splits)
qed

section \<open>What masking promises\<close>

lemma pieces_without_names:
  "node_next m = [] \<Longrightarrow> apply_from u m before rest = rest"
  by (induction rest arbitrary: before) (simp_all add: apply_from.simps child_def)

lemma apply_matcher_from: "apply_matcher u m text = apply_from u m [] text"
  by (simp add: apply_matcher_def pieces_without_names)

text \<open>
  C33. A masked text is the text in pieces, each either one byte as it was or a name of the
  dictionary as its token. Where a byte is copied no whole name starts; where a token stands, the
  name is whole and no longer name is. (A whole name neither continues a word nor is continued by
  one, and a number that is a name is not part of an amount.)
\<close>

theorem whole_names_are_masked:
  assumes "mask_with u text es keep p = Some (out, q)" and "po_mode p \<noteq> PromptFull" and "tokens_ok p"
  shows "\<exists>d ps. dictionary u es keep p = Some (d, q) \<and> text = concat (map fst ps) \<and> out = concat (map snd ps) \<and>
    (\<forall>xs x ys. ps = xs @ x # ys \<longrightarrow> piece_ok u d (concat (map fst xs)) x (concat (map fst ys)))"
proof -
  obtain d where d: "dictionary u es keep p = Some (d, q)" and out: "out = apply_matcher u (new_matcher d) text"
    using assms(1,2) by (auto simp: mask_with_def)
  note keys = dictionary_facts(3,4) [OF d assms(3)]
  have "text = concat (map fst (mask_pieces u d [] text))" "out = concat (map snd (mask_pieces u d [] text))"
    unfolding out apply_matcher_from using apply_from_pieces [OF keys] by simp_all
  moreover have "piece_ok u d (concat (map fst xs)) x (concat (map fst ys))"
    if "mask_pieces u d [] text = xs @ x # ys" for xs x ys
    using mask_pieces_ok [OF keys that] by simp
  ultimately show ?thesis using d by blast
qed

section \<open>A token reads back\<close>

definition shaped :: "string \<Rightarrow> bool" where
  "shaped t \<longleftrightarrow> (\<exists>k h. t = kind_name k @ ''-'' @ h \<and> 4 \<le> length h \<and> set h \<subseteq> set ''0123456789abcdef'')"

definition policy_ok :: "policy \<Rightarrow> bool" where
  "policy_ok p \<longleftrightarrow> tokens_ok p \<and> (\<forall>v t. map_of (po_fwd p) v = Some t \<longrightarrow> shaped t)"

lemma hex_digits: "\<forall>b \<in> set bs. 0 \<le> b \<and> b < 256 \<Longrightarrow> set (hex bs) \<subseteq> set ''0123456789abcdef''"
proof -
  assume b: "\<forall>b \<in> set bs. 0 \<le> b \<and> b < 256"
  have "hex_digit n \<in> set ''0123456789abcdef''" if "0 \<le> n" "n < 16" for n
    unfolding hex_digit_def by (rule nth_mem) (use that in simp)
  then have d: "hex_digit (b div 16) \<in> set ''0123456789abcdef'' \<and> hex_digit (b mod 16) \<in> set ''0123456789abcdef''"
    if "b \<in> set bs" for b
  proof -
    have "0 \<le> b div 16" "b div 16 < 16" "0 \<le> b mod 16" "b mod 16 < 16" using b that by auto
    with \<open>\<And>n. 0 \<le> n \<Longrightarrow> n < 16 \<Longrightarrow> _\<close> show ?thesis by blast
  qed
  have "set (hex bs) = (\<Union>b \<in> set bs. {hex_digit (b div 16), hex_digit (b mod 16)})" by (simp add: hex_def)
  then show ?thesis using d by (simp only: UN_subset_iff insert_subset empty_subsetI simp_thms) blast
qed

lemma sha256_octets: "b \<in> set (sha256 m) \<Longrightarrow> 0 \<le> b \<and> b < 256"
  by (auto simp: sha256_def)

lemma candidate_shaped:
  assumes "n \<in> set [4..<Suc (length (name_digest p k v))]"
  shows "shaped (candidate p k v n)"
proof -
  have "set (name_digest p k v) \<subseteq> set ''0123456789abcdef''"
    unfolding name_digest_def by (rule hex_digits) (auto simp: hmac_sha256_def Let_def dest: sha256_octets)
  then have "set (take n (name_digest p k v)) \<subseteq> set ''0123456789abcdef''"
    using set_take_subset by fastforce
  moreover have "4 \<le> length (take n (name_digest p k v))" using assms by auto
  ultimately show ?thesis unfolding shaped_def candidate_def by blast
qed

lemma fold_own: "fold_text w (w @ h) = Some h"
  by (induction w) (simp_all add: fold_char_def)

lemma fold_other: "k \<noteq> k' \<Longrightarrow> fold_text (kind_name k' @ ''-'') (kind_name k @ ''-'' @ h) = None"
  by (cases k; cases k'; simp add: fold_char_def byte_def octets_def)

lemma kinds_listed: "filter (\<lambda>x. x = k) token_kinds = [k]"
  by (cases k; simp add: token_kinds_def)

lemma shaped_token_here:
  assumes "shaped t"
  shows "token_here t = Some (length t)" and "t \<noteq> []"
proof -
  obtain k h where t: "t = kind_name k @ ''-'' @ h" "4 \<le> length h" "set h \<subseteq> set ''0123456789abcdef''"
    using assms by (auto simp: shaped_def)
  have "\<forall>c \<in> set ''0123456789abcdef''. hex_byte c" by (simp add: hex_byte_def hex_value_def byte_def)
  then have "takeWhile hex_byte h = h" using t(3) by (auto simp: takeWhile_eq_all_conv)
  then have own: "kind_here t k = Some []"
    using t(2) fold_own [of "kind_name k @ ''-''" h]
    by (simp only: kind_here_def t(1) append_assoc option.case Let_def) simp
  have "kind_here t k' = None" if "k' \<noteq> k" for k'
    using fold_other [of k k' h] that by (simp add: kind_here_def t(1))
  then have "filter (\<lambda>x. kind_here t x \<noteq> None) token_kinds = [k]"
    using own kinds_listed [of k] by (metis (mono_tags, lifting) filter_cong option.distinct(1))
  then have "List.map_filter (kind_here t) token_kinds = [[]]" by (simp add: List.map_filter_def own)
  then show "token_here t = Some (length t)" by (simp add: token_here_def)
  show "t \<noteq> []" using t by simp
qed

lemma lower_text_lower:
  "\<forall>c \<in> set s. byte c < 128 \<and> \<not> (65 \<le> byte c \<and> byte c \<le> 90) \<Longrightarrow> lower_text s = s"
proof (induction s)
  case (Cons c s)
  have b: "byte c < 128" and u: "\<not> (65 \<le> byte c \<and> byte c \<le> 90)" using Cons.prems by simp_all
  have of_byte: "(of_char c :: int) = int (byte c)" by (simp add: byte_def of_nat_of_char)
  have "next_rune (int (byte c) # map of_char s) = Some (int (byte c), map of_char s)"
    using b by (simp add: next_rune.simps)
  then have "runes (c # s) = Some (int (byte c)) # runes s"
    unfolding runes_def list.map of_byte by (subst rune_list.simps) simp
  moreover have "lower_rune (Some (int (byte c))) = [c]"
  proof -
    have "\<not> (65 \<le> int (byte c) \<and> int (byte c) \<le> 90)" and "int (byte c) < 128" using b u by linarith+
    moreover have "char_of (nat (int (byte c))) = c" by (simp add: byte_def)
    ultimately show ?thesis by (auto simp: lower_rune_def rune_value_def encode_rune_def Let_def)
  qed
  ultimately show ?case using Cons by (simp add: lower_text_def)
qed (simp add: lower_text_def runes_def rune_list.simps)

lemma shaped_lower: "shaped t \<Longrightarrow> lower_text t = t"
proof -
  assume "shaped t"
  then obtain k h where t: "t = kind_name k @ ''-'' @ h" "set h \<subseteq> set ''0123456789abcdef''" by (auto simp: shaped_def)
  have "\<forall>c \<in> set ''0123456789abcdef''. byte c < 128 \<and> \<not> (65 \<le> byte c \<and> byte c \<le> 90)" by (simp add: byte_def)
  moreover have "\<forall>c \<in> set (kind_name k @ ''-''). byte c < 128 \<and> \<not> (65 \<le> byte c \<and> byte c \<le> 90)"
    by (cases k) (simp_all add: byte_def)
  moreover have "set t \<subseteq> set (kind_name k @ ''-'') \<union> set ''0123456789abcdef''"
    unfolding t(1) set_append using t(2) by blast
  ultimately show ?thesis by (intro lower_text_lower) blast
qed

lemma example_is_no_token: "shaped t \<Longrightarrow> t \<noteq> prompt_example_token"
proof
  assume s: "shaped t" and t: "t = prompt_example_token"
  have "kind_here prompt_example_token k = None" for k
    by (cases k) (simp_all add: kind_here_def prompt_example_token_def fold_char_def byte_def octets_def hex_byte_def hex_value_def)
  then have "token_here prompt_example_token = None"
    by (simp add: token_here_def List.map_filter_def)
  then show False using shaped_token_here(1) [OF s] t by simp
qed

lemma token_reads_back:
  assumes "policy_ok p" and "map_of (po_fwd p) v = Some t"
  shows "reidentify_from u p [] t = v"
proof -
  have s: "shaped t" and r: "map_of (po_rev p) t = Some v" using assms by (auto simp: policy_ok_def tokens_ok_def)
  note here = shaped_token_here [OF s]
  have "token_name u p [] t [] = Some v"
    using example_is_no_token [OF s] r by (simp add: token_name_def shaped_lower [OF s])
  moreover obtain c w where "t = c # w" using here(2) by (cases t) auto
  ultimately show ?thesis
    using here(1) by (subst reidentify_from.simps) (simp add: reidentify_from.simps [where rest = "[]"])
qed

lemma token_for_shaped:
  assumes "token_for k v p = Some (t, q)" and "policy_ok p"
  shows "policy_ok q"
proof -
  have "tokens_ok q" using token_for_grows [OF assms(1)] assms(2) by (simp add: policy_ok_def)
  moreover have "shaped r" if "map_of (po_fwd q) w = Some r" for w r
  proof (cases "map_of (po_fwd p) v")
    case (Some x)
    then show ?thesis using assms that by (auto simp: token_for_def policy_ok_def)
  next
    case None
    let ?F = "find (\<lambda>n. map_of (po_rev p) (candidate p k v n) = None) [4..<Suc (length (name_digest p k v))]"
    have run: "token_for k v p = (case ?F of None \<Rightarrow> None
             | Some n \<Rightarrow> Some (candidate p k v n,
                 p\<lparr>po_fwd := (v, candidate p k v n) # po_fwd p, po_rev := (candidate p k v n, v) # po_rev p\<rparr>))"
      by (simp only: token_for_def None option.case)
    then obtain n where n: "?F = Some n" using assms(1) by (cases ?F) (simp_all only: option.case option.distinct)
    then have q: "po_fwd q = (v, candidate p k v n) # po_fwd p" using assms(1) unfolding run n by auto
    have "n \<in> set [4..<Suc (length (name_digest p k v))]"
      using n unfolding find_Some_iff by (metis nth_mem)
    then show ?thesis
      using that assms(2) candidate_shaped unfolding q policy_ok_def by (auto split: if_splits)
  qed
  ultimately show ?thesis by (simp add: policy_ok_def)
qed

lemma name_tokens_ok:
  "name_tokens u es dict p = Some (d, q) \<Longrightarrow> policy_ok p \<Longrightarrow> policy_ok q"
proof (induction u es dict p rule: name_tokens.induct)
  case (2 u k e es dict p)
  show ?case
  proof (cases "\<not> usable u (trim_space e) \<or> map_of dict (trim_space e) \<noteq> None")
    case True
    then show ?thesis using "2.IH"(1) [OF refl True] "2.prems" by simp
  next
    case False
    then obtain t p' where t: "token_for k (trim_space e) p = Some (t, p')"
      and r: "name_tokens u es (AList.update (trim_space e) t dict) p' = Some (d, q)"
      using "2.prems"(1) by (auto simp: Let_def split: option.splits)
    show ?thesis by (rule "2.IH"(2) [OF refl False t refl r token_for_shaped [OF t "2.prems"(2)]])
  qed
qed simp

text \<open>A digest has sixty-four characters, so a name is out of tokens only after sixty-one others.\<close>

lemma sha_compress_length: "length (sha_compress ks hs) = length hs"
  by (induction ks hs rule: sha_compress.induct) (simp_all add: Let_def)

lemma sha_blocks_length: "length (sha_blocks hs ws) = length hs"
proof (induction hs ws rule: sha_blocks.induct)
  case (1 hs ws)
  then show ?case by (subst sha_blocks.simps) (simp add: sha_compress_length)
qed

lemma initial_hash_length: "length initial_hash = 8"
proof -
  have "[2..311] = [2..19] @ [20..(311::int)]" using upto_split1 [of 2 20 "311::int"] by simp
  moreover have "length (filter (\<lambda>p. list_all (\<lambda>q. p mod q \<noteq> 0) [2..p - 1]) [2..(19::int)]) = 8" by code_simp
  ultimately have "8 \<le> length small_primes" by (simp only: small_primes_def filter_append length_append)
  then show ?thesis by (simp add: initial_hash_def)
qed

lemma length_concat_same: "\<forall>x. length (f x) = n \<Longrightarrow> length (concat (map f xs)) = n * length xs"
  by (induction xs) simp_all

lemma name_digest_length: "length (name_digest p k v) = 64"
proof -
  have "length (sha256 m) = 32" for m
    unfolding sha256_def
    by (subst length_concat_same [where n = 4]) (simp_all only: length_map length_upt sha_blocks_length initial_hash_length, simp)
  moreover have "length (hex bs) = 2 * length bs" for bs
    unfolding hex_def by (rule length_concat_same) simp
  ultimately show ?thesis by (simp add: name_digest_def hmac_sha256_def Let_def)
qed

lemma candidate_inj: "inj_on (candidate p k v) {4..<65}"
proof (rule inj_onI)
  fix m n assume mn: "m \<in> {4..<65}" "n \<in> {4..<65}" "candidate p k v m = candidate p k v n"
  have "length (candidate p k v x) = length (kind_name k) + 1 + x" if "x \<in> {4..<65}" for x
    using that by (simp add: candidate_def name_digest_length)
  then show "m = n" using mn by (metis add_left_cancel)
qed

lemma token_for_answers:
  assumes "length (po_rev p) < 61"
  shows "\<exists>t q. token_for k v p = Some (t, q) \<and> length (po_rev q) \<le> Suc (length (po_rev p))"
proof (cases "map_of (po_fwd p) v")
  case None
  let ?F = "find (\<lambda>n. map_of (po_rev p) (candidate p k v n) = None) [4..<Suc (length (name_digest p k v))]"
  have run: "token_for k v p = (case ?F of None \<Rightarrow> None
           | Some n \<Rightarrow> Some (candidate p k v n,
               p\<lparr>po_fwd := (v, candidate p k v n) # po_fwd p, po_rev := (candidate p k v n, v) # po_rev p\<rparr>))"
    by (simp only: token_for_def None option.case)
  have "?F \<noteq> None"
  proof
    assume none: "?F = None"
    have "candidate p k v n \<in> fst ` set (po_rev p)" if "n \<in> {4..<65}" for n
    proof -
      have "n \<in> set [4..<Suc (length (name_digest p k v))]" using that unfolding name_digest_length set_upt by simp
      moreover have "\<not> (\<exists>x. x \<in> set [4..<Suc (length (name_digest p k v))] \<and> map_of (po_rev p) (candidate p k v x) = None)"
        using none by (simp only: find_None_iff not_False_eq_True)
      ultimately have "map_of (po_rev p) (candidate p k v n) \<noteq> None" by metis
      then show ?thesis by (simp add: map_of_eq_None_iff)
    qed
    then have "candidate p k v ` {4..<65} \<subseteq> fst ` set (po_rev p)" by blast
    then have "card (candidate p k v ` {4..<65}) \<le> card (fst ` set (po_rev p))" by (rule card_mono [rotated]) simp
    also have "\<dots> \<le> length (map fst (po_rev p))" by (metis card_length set_map)
    finally show False using assms by (simp add: card_image [OF candidate_inj])
  qed
  then obtain n where "?F = Some n" by blast
  then show ?thesis unfolding run by simp
qed (simp add: token_for_def)

lemma name_tokens_answer:
  "length (po_rev p) + length es \<le> 61 \<Longrightarrow> name_tokens u es dict p \<noteq> None"
proof (induction u es dict p rule: name_tokens.induct)
  case (2 u k e es dict p)
  show ?case
  proof (cases "\<not> usable u (trim_space e) \<or> map_of dict (trim_space e) \<noteq> None")
    case True
    then show ?thesis using "2.IH"(1) [OF refl True] "2.prems" by simp
  next
    case False
    have "length (po_rev p) < 61" using "2.prems" by simp
    from token_for_answers [OF this] obtain t q where t: "token_for k (trim_space e) p = Some (t, q)"
      and n: "length (po_rev q) \<le> Suc (length (po_rev p))" by blast
    have "name_tokens u es (AList.update (trim_space e) t dict) q \<noteq> None"
      using "2.IH"(2) [OF refl False t refl] n "2.prems" by simp
    then show ?thesis using False t by simp
  qed
qed simp

text \<open>
  C34. Tokens are for good. Masking a text never takes back a token: every name keeps the one it was
  given, no two names share one, and a token on its own reads back as its name. (The tokens on hand
  at the start are well formed and one to one, as those of an empty policy are.)
\<close>

theorem tokens_are_for_good:
  assumes "mask_store u db text keep p = Some (out, q)" and "policy_ok p"
  shows "policy_ok q \<and> (\<forall>v t. map_of (po_fwd p) v = Some t \<longrightarrow> map_of (po_fwd q) v = Some t) \<and>
    (\<forall>v w t. map_of (po_fwd q) v = Some t \<longrightarrow> map_of (po_fwd q) w = Some t \<longrightarrow> v = w) \<and>
    (\<forall>v t. map_of (po_fwd q) v = Some t \<longrightarrow> reidentify_from u q [] t = v)"
proof -
  have "policy_ok q \<and> grows p q"
  proof (cases "q = p")
    case False
    then obtain es d where d: "dictionary u es keep p = Some (d, q)"
      using assms(1) by (auto simp: mask_store_def mask_with_def split: if_splits option.splits)
    then obtain d' where "name_tokens u es [] p = Some (d', q)" by (auto simp: dictionary_def)
    with d dictionary_facts(2) [OF d] assms(2) name_tokens_ok show ?thesis by (auto simp: policy_ok_def)
  qed (use assms(2) in simp)
  then have ok: "policy_ok q" and g: "grows p q" by blast+
  have "v = w" if "map_of (po_fwd q) v = Some t" "map_of (po_fwd q) w = Some t" for v w t
    using ok that by (auto simp: policy_ok_def tokens_ok_def)
  moreover have "map_of (po_fwd q) v = Some t" if "map_of (po_fwd p) v = Some t" for v t
    using g that by (force simp: grows_def map_le_def dom_def)
  ultimately show ?thesis using ok token_reads_back by blast
qed

section \<open>A text masked\<close>

definition ascii_unicode :: unicode where
  "ascii_unicode = \<lparr>un_letter = \<lambda>r. 65 \<le> r \<and> r \<le> 90 \<or> 97 \<le> r \<and> r \<le> 122, un_digit = \<lambda>r. 48 \<le> r \<and> r \<le> 57\<rparr>"

definition fresh_policy :: policy where
  "fresh_policy = \<lparr>po_mode = PromptMasked, po_key = [7], po_fwd = [(''aws'', ''desk-0a1b'')], po_rev = [(''desk-0a1b'', ''aws'')]\<rparr>"

lemma fresh_policy_ok: "policy_ok fresh_policy"
proof -
  have "shaped (kind_name KDesk @ ''-'' @ ''0a1b'')" unfolding shaped_def by (intro exI conjI, rule refl) simp_all
  then show ?thesis by (auto simp: policy_ok_def tokens_ok_def fresh_policy_def split: if_splits)
qed

lemma shared_names_count: "length shared_names = 16"
  by (simp add: shared_names_def world_desks_def world_teams_def)

theorem tokens_are_for_good_witness:
  "\<exists>out q. mask_store ascii_unicode None ''aws pays'' [] fresh_policy = Some (out, q) \<and>
    reidentify_from ascii_unicode q [] ''desk-0a1b'' = ''aws''"
proof -
  have "name_tokens ascii_unicode shared_names [] fresh_policy \<noteq> None"
    by (rule name_tokens_answer) (simp add: shared_names_count fresh_policy_def)
  then obtain out q where m: "mask_store ascii_unicode None ''aws pays'' [] fresh_policy = Some (out, q)"
    by (auto simp: mask_store_def mask_with_def dictionary_def collect_def fresh_policy_def)
  note kept = tokens_are_for_good [OF m fresh_policy_ok]
  have "map_of (po_fwd fresh_policy) ''aws'' = Some ''desk-0a1b''" by (simp add: fresh_policy_def)
  then have "reidentify_from ascii_unicode q [] ''desk-0a1b'' = ''aws''" using kept by blast
  with m show ?thesis by blast
qed

lemma fresh_tokens:
  "name_tokens ascii_unicode [(KDesk, ''aws'')] [] fresh_policy = Some ([(''aws'', ''desk-0a1b'')], fresh_policy)"
  by code_simp

lemma fresh_masked:
  "mask_with ascii_unicode ''pay aws'' [(KDesk, ''aws'')] [] fresh_policy = Some (''pay desk-0a1b'', fresh_policy)"
  by code_simp

theorem whole_names_are_masked_witness:
  "\<exists>d ps. dictionary ascii_unicode [(KDesk, ''aws'')] [] fresh_policy = Some (d, fresh_policy) \<and>
    ''pay aws'' = concat (map fst ps) \<and> ''pay desk-0a1b'' = concat (map snd ps)"
proof -
  have "po_mode fresh_policy \<noteq> PromptFull" and "tokens_ok fresh_policy"
    using fresh_policy_ok by (simp_all add: policy_ok_def fresh_policy_def)
  from whole_names_are_masked [OF fresh_masked this] show ?thesis by blast
qed

end
