(* ===== verification/Spec2Isabelle.thy ===== *)
theory Spec2Isabelle
  imports Calendar Money Runes Roles Store Board Spend Detect Allocation Chargeback Digest Anomaly
    Json Options Choices Answers Forecast Apply Supervise Choose Passes Practice Finality Projection Halting Duties Mandate Planning Replan Ledger Rounding Accounts Access Signin Masking
begin

text \<open>
  A verification development for CostCrew, a console where analysts (agents) work a company's
  technology cost and a person, or a supervising pass on the person's behalf, decides. The Go code
  is under \<open>src/\<close>; a path below is relative to it.

  \<^bold>\<open>The program and its parts.\<close> \<open>internal/estate\<close> holds the measured spend per desk, service, team
  and day. \<open>internal/detect\<close> reads a series and answers the irregular stretches;
  \<open>internal/anomaly\<close> runs it over the estate, records each finding once and moves it through
  its life (open, explained, accepted, dismissed). \<open>internal/crew\<close> holds the roster of analysts,
  the board of tasks and deliverables, and the options a deliverable ends with: typed proposals
  such as \<open>explain\<close> an anomaly, \<open>announce\<close> a driver, set a threshold. \<open>internal/finops\<close> allocates
  shared cost, closes a month, forecasts, applies an option and runs the supervisor's pass, which
  applies what its mandate allows and carries the rest to a person as one decision request.
  \<open>internal/money\<close> is the arithmetic below all of it, \<open>internal/plainname\<close> the rule for names that
  are printed.

  \<^bold>\<open>How code is modelled.\<close>
  \<^item> The store is one record of tables (theory \<open>Store\<close>); a function that takes a \<open>*sql.DB\<close> is an \<open>op\<close>,
    a function from the store to a result and a store, where the result is \<open>Inl\<close> an error or
    \<open>Inr\<close> a value (theory \<open>Prelude\<close>). A statement that fails leaves what was written before it, as the code
    does outside a transaction; inside one, the store is put back.
  \<^item> \<open>int64\<close>, \<open>int\<close>, \<open>money.Cents\<close> and \<open>money.Micros\<close> are \<open>int\<close> with \<open>wrap64\<close> written where the
    code adds, subtracts or multiplies; Go's truncating division is \<open>quo\<close>.
  \<^item> A Go string is a list of bytes (\<open>string\<close>); UTF-8 is decoded explicitly where the code ranges
    over runes. \<open>encoding/json\<close> and \<open>crypto/sha256\<close> are written out (\<open>Json\<close>, \<open>Digest\<close>).
  \<^item> A sum SQLite refuses (\<open>SUM\<close> past 64 bits is an error there) and a NULL read into a Go string are errors where
    detection, attribution and the team medians read them. The other sums over charges are written without
    the overflow error, and a column that no statement of the program leaves NULL is a plain string.
  \<^item> The cooling period of the detector is a \<open>time.Duration\<close> and wraps (\<open>cool_duration\<close>): the day it is right up to
    is \<open>max_cool_days\<close>.
  \<^item> \<open>time.Now\<close> is an argument, or the field \<open>clock\<close> of the store where SQLite's \<open>datetime('now')\<close>
    is read.
  \<^item> A loop the code cannot be shown to leave is a \<open>partial_function\<close> into \<open>option\<close>; that it
    returns is a theorem (\<open>projection_returns\<close>), as is that it does not where it does not
    (\<open>undated_driver_never_returns\<close>). The JSON decoder recurses on fuel: every step consumes a
    byte, so the length of the text bounds it (\<open>json_fuel\<close>), and \<open>encoding/json\<close> bounds the nesting itself.

  \<^bold>\<open>The theories.\<close>
  \<^item> \<open>Prelude\<close>, \<open>Runes\<close>, \<open>Calendar\<close>, \<open>Digest\<close>, \<open>Json\<close>: the standard library the code uses.
  \<^item> \<open>Money\<close>: \<open>money.go\<close>; parsing, printing, exact and rounded division, the exact split of an
    amount by shares.
  \<^item> \<open>Roles\<close>: \<open>roles.go\<close> and \<open>roles.yaml\<close>; who decides which class of option up to which amount.
  \<^item> \<open>Store\<close>, \<open>Board\<close>: the tables, and the operations on tasks, deliverables, analysts, ownership.
  \<^item> \<open>Spend\<close>, \<open>Detect\<close>, \<open>Anomaly\<close>: the series reads, the detector, the detection pass and the state
    machine of an anomaly.
  \<^item> \<open>Allocation\<close>, \<open>Chargeback\<close>: shared cost split to the cent, the frozen month and its true-ups.
  \<^item> \<open>Options\<close>, \<open>Choices\<close>, \<open>Answers\<close>: the options block, the save-time gate, the rows and their
    states, a person's answer, decision requests, halts, guards.
  \<^item> \<open>Forecast\<close>, \<open>Projection\<close>: run rate, driver-aware projection, freezing, announced effects.
  \<^item> \<open>Apply\<close>, \<open>Supervise\<close>: what applying an option does, and the supervisor's pass.
  \<^item> \<open>Choose\<close>: an abstract specification of choosing (the state of each option) and the proof that
    applying an option refines it.
  \<^item> \<open>Passes\<close>, \<open>Practice\<close>, \<open>Halting\<close>: what a pass promises; the desk as one step relation and what no
    sequence of its steps changes; halts and lapses.
  \<^item> \<open>Finality\<close>: the whole desk (\<open>desk_step\<close>: practice, the forms of the chargeback page, a request written on its
    own, the draft a live run saves, more charges on file), and what no sequence of its steps changes: a posted
    deliverable that is no decision request, and a month while it is closed.
  \<^item> \<open>Duties\<close>, \<open>Mandate\<close>: the prose of \<open>roles.yaml\<close>, the mandate an analyst is written with, the seeded
    crew, the backfill of older rows.
  \<^item> \<open>Planning\<close>, \<open>Replan\<close>: the proposal of a sprint (\<open>plan.go\<close>) from its five sources, and the check of
    the plan a model answers with (\<open>plan_ask.go\<close>), which may only give away what the first plan left.
  \<^item> \<open>Ledger\<close>: the settled cost of a live run (\<open>provenance.go\<close>), the cadence switch, attestation.
  \<^item> \<open>Rounding\<close>: how far one \<open>float64\<close> rounding is from the exact value; used for the hours of a lockout.
  \<^item> \<open>Accounts\<close>, \<open>Access\<close>, \<open>Signin\<close>: the tables of \<open>internal/auth\<close> and every operation on them, the handlers
    of \<open>internal/web\<close> that guard them, the callback of an identity provider and the password command of
    \<open>cmd/costcrew\<close> as one step relation (\<open>served\<close>), and what signing in promises.
  \<^item> \<open>Masking\<close>: \<open>deliver/pseudonym.go\<close>; the names of an installation replaced by tokens on the way to a
    model and put back on the way home. An abstract cut of the text into pieces is the specification
    the trie and its walk are proved against.

  \<^bold>\<open>Interfaces.\<close> \<open>frame\<close> (theory \<open>Store\<close>) is a relation between stores that every operation of a
  component keeps, and gives it for sequences and passes of operations; \<open>desk_frame\<close> (\<open>Practice\<close>) extends
  it to the steps of a whole desk, \<open>quiet_frame\<close> and \<open>book_frame\<close> (\<open>Finality\<close>) to relations of the books that
  answers and passes keep. \<open>keyed_table\<close> (\<open>Ledger\<close>) is a table of one row per key, \<open>wrapping\<close>
  (\<open>Prelude\<close>) an integer type of fixed width. Each is interpreted on the model's own relations and
  operations in the theory that provides them, and the properties rest on those facts.

  \<^bold>\<open>Parameters.\<close> The key derivation of \<open>x/crypto\<close> (\<open>kdf\<close>), random bytes, what an identity provider
  establishes, \<open>strconv.Quote\<close> of a title, the Unicode tables of letters and digits, and the values of a
  column are arguments of the definitions that use them.

  \<^bold>\<open>Not modelled.\<close> Pages and downloads of \<open>internal/web\<close> (displays over the reads modelled here), the
  importers of \<open>internal/connectors\<close>, prompts and the calls to a model in \<open>internal/deliver\<close>, reports of
  \<open>internal/finops\<close> with \<open>float64\<close> ratios (KPIs, AI unit cost, commitments, licences), the clients of
  outside services (\<open>sso\<close>, \<open>spiffe\<close>, \<open>stack\<close>, \<open>typryx\<close>, \<open>enforce\<close>), the generated estate, the
  command but for its password flags, and the tools but for the draft a live run inserts. A write to the journal is taken not to fail.
\<close>

end
